(* ===== verification/Go_Prelude.thy ===== *)
theory Go_Prelude
  imports Main "HOL-Library.Word" "HOL-Library.Char_ord" "HOL-Library.List_Lexorder"
begin

text \<open>
  The shared vocabulary of the development: Go's byte strings, errors, times and durations, the
  ambient world (entropy source and clock) every effectful operation threads, and the
  state-and-error computations (\<open>act\<close>) in which the program's methods are written. The lemmas
  here are the ones the component theories use everywhere: inversion of \<open>ebind\<close>, frame facts of
  the clock and the entropy source, and facts on association lists.
\<close>

named_theorems act_simps \<open>unfolding of the effect combinators\<close>
named_theorems act_elims \<open>inversion of successful computations\<close>

section \<open>Byte strings\<close>

text \<open>A Go \<open>string\<close> and a Go \<open>[]byte\<close> are both sequences of bytes; a HOL \<open>char\<close> is one byte.\<close>

type_synonym bytes = string

definition bv :: "char \<Rightarrow> nat" where
  "bv c = of_char c"

definition bc :: "nat \<Rightarrow> char" where
  "bc n = char_of n"

lemma bv_less [simp]: "bv c < 256"
  by (simp add: bv_def)

lemma bc_bv [simp]: "bc (bv c) = c"
  by (simp add: bv_def bc_def)

lemma bv_bc [simp]: "bv (bc n) = n mod 256"
  by (simp add: bv_def bc_def)

lemma bv_inject [simp]: "bv c = bv d \<longleftrightarrow> c = d"
  by (metis bc_bv)

text \<open>Arithmetic of the bit fields of a packed number: \<open>q\<close> above a field of \<open>k\<close> values holding \<open>m\<close>.\<close>

lemma field_div: "(m::nat) < k \<Longrightarrow> (q * k + m) div k = q"
  and field_mod: "(m::nat) < k \<Longrightarrow> (q * k + m) mod k = m"
  by (simp_all add: add.commute)

section \<open>Errors\<close>

text \<open>
  A Go error is a sentinel (compared by identity), a fresh \<open>errors.New\<close> value, a formatted error
  (\<open>fmt.Errorf\<close>: the format string, its arguments and the wrapped error of \<open>%w\<close>), or a
  \<open>*platform.PlatformError\<close>. The sentinels are those the packages declare.
\<close>

datatype sentinel =
    ErrInvalidContent | ErrNoDestination | ErrInvalidTransition
  | ErrNotFound | ErrInvalidEnvelope
  | ErrUnknownEndpoint | ErrEndpointNotHealthy | ErrInsufficientCountries
  | ErrNoEligibleAlternate | ErrExecutionDisabled
  | ErrEOF | ErrUnexpectedEOF | ErrCanceled | ErrNoRows

datatype fmt_arg = ArgS string | ArgI int

text \<open>The normalized codes of \<open>platform.ErrorCode\<close>, as the strings the code persists.\<close>

type_synonym error_code = string

datatype go_error =
    Sentinel sentinel
  | ErrorsNew string
  | Errorf string "fmt_arg list" "go_error option"
  | PlatformError (pe_platform: string) (pe_code: error_code) (pe_http_status: int)
      (pe_retry_after: int) (pe_message: string) (pe_ambiguous: bool) (pe_cause: "go_error option")

text \<open>\<open>errors.Is\<close>: the error or one it wraps is the sentinel.\<close>

fun errors_Is :: "go_error \<Rightarrow> sentinel \<Rightarrow> bool" where
  "errors_Is (Sentinel s) t = (s = t)"
| "errors_Is (ErrorsNew _) t = False"
| "errors_Is (Errorf _ _ None) t = False"
| "errors_Is (Errorf _ _ (Some e)) t = errors_Is e t"
| "errors_Is (PlatformError _ _ _ _ _ _ None) t = False"
| "errors_Is (PlatformError _ _ _ _ _ _ (Some e)) t = errors_Is e t"

text \<open>\<open>errors.As\<close> with a \<open>*PlatformError\<close> target: the first platform error of the chain.\<close>

fun errors_As_platform :: "go_error \<Rightarrow> go_error option" where
  "errors_As_platform (Sentinel _) = None"
| "errors_As_platform (ErrorsNew _) = None"
| "errors_As_platform (Errorf _ _ None) = None"
| "errors_As_platform (Errorf _ _ (Some e)) = errors_As_platform e"
| "errors_As_platform (PlatformError p c h r m a x) = Some (PlatformError p c h r m a x)"

section \<open>Computations that read and change a world and may fail\<close>

type_synonym ('w, 'a) act = "'w \<Rightarrow> (go_error + 'a) \<times> 'w"

definition ok :: "'a \<Rightarrow> ('w, 'a) act" where
  "ok x w = (Inr x, w)"

definition fail :: "go_error \<Rightarrow> ('w, 'a) act" where
  "fail e w = (Inl e, w)"

definition ebind :: "('w, 'a) act \<Rightarrow> ('a \<Rightarrow> ('w, 'b) act) \<Rightarrow> ('w, 'b) act" where
  "ebind m f w = (case m w of (Inl e, w') \<Rightarrow> (Inl e, w') | (Inr x, w') \<Rightarrow> f x w')"

text \<open>\<open>if !cond { return err }\<close>.\<close>

definition ensure :: "bool \<Rightarrow> go_error \<Rightarrow> ('w, unit) act" where
  "ensure b e = (if b then ok () else fail e)"

text \<open>A pure fallible call in an effectful function.\<close>

definition lift :: "go_error + 'a \<Rightarrow> ('w, 'a) act" where
  "lift r w = (r, w)"

text \<open>\<open>if err != nil { return fmt.Errorf("...: %w", err) }\<close>.\<close>

definition wrap_err :: "(go_error \<Rightarrow> go_error) \<Rightarrow> ('w, 'a) act \<Rightarrow> ('w, 'a) act" where
  "wrap_err f m w = (case m w of (Inl e, w') \<Rightarrow> (Inl (f e), w') | (Inr x, w') \<Rightarrow> (Inr x, w'))"

text \<open>\<open>_ = f(...)\<close>: the call is made and its error dropped.\<close>

definition ignore_err :: "('w, 'a) act \<Rightarrow> ('w, unit) act" where
  "ignore_err m w = (Inr (), snd (m w))"

lemma ok_simp [simp, act_simps]: "ok x w = (Inr x, w)"
  by (simp add: ok_def)

lemma fail_simp [simp, act_simps]: "fail e w = (Inl e, w)"
  by (simp add: fail_def)

lemma lift_simp [simp, act_simps]: "lift r w = (r, w)"
  by (simp add: lift_def)

lemma ensure_simp [simp, act_simps]: "ensure b e w = (if b then Inr () else Inl e, w)"
  by (simp add: ensure_def)

lemma ignore_err_simp [simp, act_simps]: "ignore_err m w = (Inr (), snd (m w))"
  by (simp add: ignore_err_def)

lemma ebind_Inl [simp]: "m w = (Inl e, w') \<Longrightarrow> ebind m f w = (Inl e, w')"
  by (simp add: ebind_def)

lemma ebind_Inr [simp]: "m w = (Inr x, w') \<Longrightarrow> ebind m f w = f x w'"
  by (simp add: ebind_def)

text \<open>The two inversions every proof about a successful or failed method starts from.\<close>

lemma ebind_eq_Inr [act_elims]:
  "ebind m f w = (Inr y, w'') \<longleftrightarrow> (\<exists>x w'. m w = (Inr x, w') \<and> f x w' = (Inr y, w''))"
  by (auto simp: ebind_def split: prod.splits sum.splits)

lemma ebind_eq_Inl:
  "ebind m f w = (Inl e, w'') \<longleftrightarrow>
     m w = (Inl e, w'') \<or> (\<exists>x w'. m w = (Inr x, w') \<and> f x w' = (Inl e, w''))"
  by (auto simp: ebind_def split: prod.splits sum.splits)

lemma ebind_cases:
  assumes "ebind m f w = (res, w')"
  obtains (failed) e where "m w = (Inl e, w')" "res = Inl e"
  | (continued) x w1 where "m w = (Inr x, w1)" "f x w1 = (res, w')"
  using assms by (auto simp: ebind_def split: prod.splits sum.splits)

lemma ebind_assoc: "ebind (ebind m f) g = ebind m (\<lambda>x. ebind (f x) g)"
  by (rule ext) (auto simp: ebind_def split: prod.splits sum.splits)

lemma ebind_ok: "ebind (ok x) f = f x"
  by (rule ext) (simp add: ebind_def)

lemma wrap_err_eq_Inr [simp, act_elims]: "wrap_err f m w = (Inr y, w') \<longleftrightarrow> m w = (Inr y, w')"
  by (auto simp: wrap_err_def split: prod.splits sum.splits)

lemma wrap_err_eq_Inl: "wrap_err f m w = (Inl e, w') \<longleftrightarrow> (\<exists>e'. e = f e' \<and> m w = (Inl e', w'))"
  by (auto simp: wrap_err_def split: prod.splits sum.splits)

lemma snd_wrap_err [simp]: "snd (wrap_err f m w) = snd (m w)"
  by (auto simp: wrap_err_def split: prod.splits sum.splits)

text \<open>
  Frame reasoning: a projection of the world that each part of a sequence keeps is kept by the
  sequence.
\<close>

definition keeps :: "('w \<Rightarrow> 'v) \<Rightarrow> ('w, 'a) act \<Rightarrow> bool" where
  "keeps g m \<longleftrightarrow> (\<forall>w. g (snd (m w)) = g w)"

lemma keepsD: "keeps g m \<Longrightarrow> m w = (r, w') \<Longrightarrow> g w' = g w"
  by (metis keeps_def snd_conv)

lemma keeps_snd: "keeps g m \<Longrightarrow> g (snd (m w)) = g w"
  by (simp add: keeps_def)

lemma keeps_ok [intro!, simp]: "keeps g (ok x)"
  and keeps_fail [intro!, simp]: "keeps g (fail e)"
  and keeps_lift [intro!, simp]: "keeps g (lift r)"
  and keeps_ensure [intro!, simp]: "keeps g (ensure b e)"
  by (simp_all add: keeps_def)

lemma keeps_ebind [intro]: "keeps g m \<Longrightarrow> (\<And>x. keeps g (f x)) \<Longrightarrow> keeps g (ebind m f)"
  by (auto simp: keeps_def ebind_def split: prod.splits sum.splits) (metis snd_conv)+

lemma keeps_wrap_err [intro]: "keeps g m \<Longrightarrow> keeps g (wrap_err h m)"
  by (simp add: keeps_def)

lemma keeps_ignore_err [intro]: "keeps g m \<Longrightarrow> keeps g (ignore_err m)"
  by (simp add: keeps_def)

lemma keeps_if [intro]: "keeps g m \<Longrightarrow> keeps g n \<Longrightarrow> keeps g (if b then m else n)"
  by simp

text \<open>
  Invariants: a predicate of the world that holds before a computation holds after it, whether it
  succeeds or fails.
\<close>

definition preserves :: "('w \<Rightarrow> bool) \<Rightarrow> ('w, 'a) act \<Rightarrow> bool" where
  "preserves I m \<longleftrightarrow> (\<forall>w. I w \<longrightarrow> I (snd (m w)))"

lemma preservesD: "preserves I m \<Longrightarrow> m w = (r, w') \<Longrightarrow> I w \<Longrightarrow> I w'"
  by (metis preserves_def snd_conv)

lemma preserves_snd: "preserves I m \<Longrightarrow> I w \<Longrightarrow> I (snd (m w))"
  by (simp add: preserves_def)

lemma preserves_ok [intro!, simp]: "preserves I (ok x)"
  and preserves_fail [intro!, simp]: "preserves I (fail e)"
  and preserves_lift [intro!, simp]: "preserves I (lift r)"
  and preserves_ensure [intro!, simp]: "preserves I (ensure b e)"
  by (simp_all add: preserves_def)

lemma preserves_ebind [intro]: "preserves I m \<Longrightarrow> (\<And>x. preserves I (f x)) \<Longrightarrow> preserves I (ebind m f)"
  by (auto simp: preserves_def ebind_def split: prod.splits sum.splits)

lemma preserves_wrap_err [intro]: "preserves I m \<Longrightarrow> preserves I (wrap_err h m)"
  by (simp add: preserves_def)

lemma preserves_ignore_err [intro]: "preserves I m \<Longrightarrow> preserves I (ignore_err m)"
  by (simp add: preserves_def)

lemma preserves_if [intro]: "preserves I m \<Longrightarrow> preserves I n \<Longrightarrow> preserves I (if b then m else n)"
  by simp

lemma keeps_preserves: "keeps g m \<Longrightarrow> preserves (\<lambda>w. J (g w)) m"
  by (simp add: keeps_def preserves_def)

section \<open>Time\<close>

text \<open>
  A \<open>time.Time\<close> is an instant, in nanoseconds since the Unix epoch; the zero \<open>time.Time\<close> is the
  start of year 1. A \<open>time.Duration\<close> is a 64-bit count of nanoseconds, so \<open>Sub\<close> saturates.
\<close>

type_synonym time = int
type_synonym duration = int

abbreviation (input) Second :: duration where "Second \<equiv> 1000000000"
abbreviation (input) Minute :: duration where "Minute \<equiv> 60000000000"
abbreviation (input) Hour :: duration where "Hour \<equiv> 3600000000000"

definition zero_time :: time where
  "zero_time = - 62135596800000000000"

definition IsZero :: "time \<Rightarrow> bool" where
  "IsZero t \<longleftrightarrow> t = zero_time"

definition time_sub :: "time \<Rightarrow> time \<Rightarrow> duration" where
  "time_sub t u = max (- (2 ^ 63)) (min (2 ^ 63 - 1) (t - u))"

definition UnixMilli :: "time \<Rightarrow> int" where
  "UnixMilli t = t div 1000000"

definition Unix :: "time \<Rightarrow> int" where
  "Unix t = t div 1000000000"

lemma time_sub_nonneg [simp]: "0 \<le> time_sub t u \<longleftrightarrow> u \<le> t"
  by (auto simp: time_sub_def)

lemma time_sub_le: "d < 2 ^ 63 - 1 \<Longrightarrow> - (2 ^ 63) \<le> d \<Longrightarrow> time_sub t u \<le> d \<longleftrightarrow> t - u \<le> d"
  by (auto simp: time_sub_def)

section \<open>The ambient world\<close>

text \<open>
  \<open>entropy\<close> is what the process's random source (\<open>crypto/rand.Reader\<close>) will still deliver; a
  read beyond it is the error of \<open>io.ReadFull\<close>. \<open>clock n\<close> is the value of the n-th reading of the
  clock and \<open>ticks\<close> counts the readings made. Components extend this record with their own state.
\<close>

record world =
  entropy :: bytes
  clock :: "nat \<Rightarrow> time"
  ticks :: nat

definition now :: "('z world_scheme, time) act" where
  "now w = (Inr (clock w (ticks w)), w\<lparr>ticks := Suc (ticks w)\<rparr>)"

definition ReadFull :: "nat \<Rightarrow> ('z world_scheme, bytes) act" where
  "ReadFull n w =
     (if n \<le> length (entropy w) then (Inr (take n (entropy w)), w\<lparr>entropy := drop n (entropy w)\<rparr>)
      else if entropy w = [] then (Inl (Sentinel ErrEOF), w)
      else (Inl (Sentinel ErrUnexpectedEOF), w\<lparr>entropy := []\<rparr>))"

lemma now_simp [simp, act_simps]:
  "now w = (Inr (clock w (ticks w)), w\<lparr>ticks := Suc (ticks w)\<rparr>)"
  by (simp add: now_def)

lemma ReadFull_enough [simp]:
  "n \<le> length (entropy w) \<Longrightarrow>
   ReadFull n w = (Inr (take n (entropy w)), w\<lparr>entropy := drop n (entropy w)\<rparr>)"
  by (simp add: ReadFull_def)

lemma ReadFull_eq_Inr [act_elims]:
  "ReadFull n w = (Inr bs, w') \<longleftrightarrow>
     n \<le> length (entropy w) \<and> bs = take n (entropy w) \<and> w' = w\<lparr>entropy := drop n (entropy w)\<rparr>"
  by (auto simp: ReadFull_def)

lemma ReadFull_length: "ReadFull n w = (Inr bs, w') \<Longrightarrow> length bs = n"
  by (auto simp: ReadFull_eq_Inr)

text \<open>A projection that does not read the entropy or the tick counter survives both.\<close>

definition ambient_free :: "('z world_scheme \<Rightarrow> 'v) \<Rightarrow> bool" where
  "ambient_free g \<longleftrightarrow> (\<forall>w e t. g (w\<lparr>entropy := e\<rparr>) = g w \<and> g (w\<lparr>ticks := t\<rparr>) = g w)"

lemma keeps_now [intro]: "ambient_free g \<Longrightarrow> keeps g now"
  by (simp add: keeps_def ambient_free_def)

lemma keeps_ReadFull [intro]: "ambient_free g \<Longrightarrow> keeps g (ReadFull n)"
  by (simp add: keeps_def ambient_free_def ReadFull_def)

lemma ambient_free_more [simp, intro]: "ambient_free (\<lambda>w. h (world.more w))"
  by (simp add: ambient_free_def)

end
