(* ===== verification/Go_Text.thy ===== *)
theory Go_Text
  imports Go_Prelude
begin

text \<open>
  The parts of Go's \<open>unicode/utf8\<close>, \<open>unicode\<close>, \<open>strings\<close>, \<open>encoding/hex\<close> and \<open>strconv\<close> packages the
  program calls, on byte strings: decoding of one UTF-8 sequence, \<open>utf8.ValidString\<close>, iteration
  over runes, white space, \<open>strings.TrimSpace\<close>, \<open>ReplaceAll\<close>, \<open>ContainsAny\<close>, \<open>Fields\<close>, hexadecimal.
\<close>

section \<open>UTF-8\<close>

type_synonym rune = nat

abbreviation RuneError :: rune where "RuneError \<equiv> 65533"

text \<open>
  One well-formed sequence at the front of a string: its rune and width (\<open>None\<close> where
  \<open>utf8.DecodeRuneInString\<close> reports \<open>RuneError\<close> with width at most 1). The second byte's range
  depends on the first, which excludes overlong forms, surrogates and runes above U+10FFFF.
\<close>

definition cont_byte :: "nat \<Rightarrow> bool" where
  "cont_byte b \<longleftrightarrow> 128 \<le> b \<and> b \<le> 191"

definition second_ok :: "nat \<Rightarrow> nat \<Rightarrow> bool" where
  "second_ok a b \<longleftrightarrow>
     (if a = 224 then 160 \<le> b \<and> b \<le> 191
      else if a = 237 then 128 \<le> b \<and> b \<le> 159
      else if a = 240 then 144 \<le> b \<and> b \<le> 191
      else if a = 244 then 128 \<le> b \<and> b \<le> 143
      else cont_byte b)"

definition lead_width :: "nat \<Rightarrow> nat" where
  "lead_width a =
     (if a < 128 then 1 else if 194 \<le> a \<and> a \<le> 223 then 2
      else if 224 \<le> a \<and> a \<le> 239 then 3 else if 240 \<le> a \<and> a \<le> 244 then 4 else 0)"

fun utf8_step :: "string \<Rightarrow> (rune \<times> nat) option" where
  "utf8_step [] = None"
| "utf8_step (a # s) =
     (if lead_width (bv a) = 1 then Some (bv a, 1)
      else if lead_width (bv a) = 2 then
        (case s of
           b # _ \<Rightarrow> if second_ok (bv a) (bv b)
                     then Some (bv a mod 32 * 64 + bv b mod 64, 2) else None
         | _ \<Rightarrow> None)
      else if lead_width (bv a) = 3 then
        (case s of
           b # c # _ \<Rightarrow> if second_ok (bv a) (bv b) \<and> cont_byte (bv c)
                         then Some (bv a mod 16 * 4096 + bv b mod 64 * 64 + bv c mod 64, 3)
                         else None
         | _ \<Rightarrow> None)
      else if lead_width (bv a) = 4 then
        (case s of
           b # c # d # _ \<Rightarrow>
             if second_ok (bv a) (bv b) \<and> cont_byte (bv c) \<and> cont_byte (bv d)
             then Some (bv a mod 8 * 262144 + bv b mod 64 * 4096 + bv c mod 64 * 64 + bv d mod 64, 4)
             else None
         | _ \<Rightarrow> None)
      else None)"

lemma utf8_step_width: "utf8_step s = Some (r, w) \<Longrightarrow> 0 < w \<and> w \<le> length s"
  by (cases s) (auto split: list.splits if_splits)

lemma utf8_step_append: "utf8_step s = Some (r, w) \<Longrightarrow> utf8_step (s @ t) = Some (r, w)"
  by (cases s) (auto split: list.splits if_splits)

lemma utf8_step_take: "utf8_step s = Some (r, w) \<Longrightarrow> utf8_step (take w s) = Some (r, w)"
proof (cases s)
  case (Cons a t)
  assume st: "utf8_step s = Some (r, w)"
  show ?thesis
  proof (cases "lead_width (bv a) = 1")
    case True
    with Cons st have "r = bv a" "w = 1" by auto
    with Cons True show ?thesis by simp
  next
    case False
    with Cons st show ?thesis by (auto split: list.splits if_splits)
  qed
qed simp

lemma utf8_step_ascii [simp]: "bv a < 128 \<Longrightarrow> utf8_step (a # s) = Some (bv a, 1)"
  by (simp add: lead_width_def)

lemmas utf8_step_Cons = utf8_step.simps(2)
declare utf8_step.simps(2) [simp del]

text \<open>\<open>for _, r := range s\<close>: an ill-formed byte is \<open>RuneError\<close> and one byte is consumed.\<close>

function runes :: "string \<Rightarrow> rune list" where
  "runes s =
     (if s = [] then []
      else case utf8_step s of
             Some (r, w) \<Rightarrow> r # runes (drop w s)
           | None \<Rightarrow> RuneError # runes (tl s))"
  by pat_completeness auto
termination
  by (relation "measure length") (auto dest: utf8_step_width)

declare runes.simps [simp del]

function ValidString :: "string \<Rightarrow> bool" where
  "ValidString s =
     (if s = [] then True
      else case utf8_step s of
             Some (r, w) \<Rightarrow> ValidString (drop w s)
           | None \<Rightarrow> False)"
  by pat_completeness auto
termination
  by (relation "measure length") (auto dest: utf8_step_width)

declare ValidString.simps [simp del]

lemma ValidString_Nil [simp]: "ValidString []"
  by (simp add: ValidString.simps)

lemma runes_Nil [simp]: "runes [] = []"
  by (simp add: runes.simps)

text \<open>A chunk is the encoding of one rune; a valid string is a concatenation of chunks.\<close>

definition chunk :: "string \<Rightarrow> bool" where
  "chunk c \<longleftrightarrow> (\<exists>r. utf8_step c = Some (r, length c))"

lemma chunk_nonempty: "chunk c \<Longrightarrow> c \<noteq> []"
  by (auto simp: chunk_def)

lemma ValidString_chunk: "chunk c \<Longrightarrow> ValidString (c @ s) = ValidString s"
  by (auto simp: chunk_def ValidString.simps [of "c @ s"] utf8_step_append)

lemma runes_chunk: "utf8_step c = Some (r, length c) \<Longrightarrow> runes (c @ s) = r # runes s"
  by (auto simp: runes.simps [of "c @ s"] utf8_step_append)

lemma ValidString_chunks:
  assumes "ValidString s" and "s \<noteq> []"
  obtains c t where "s = c @ t" and "chunk c" and "ValidString t"
proof -
  from assms obtain r w where st: "utf8_step s = Some (r, w)" and v: "ValidString (drop w s)"
    by (auto simp: ValidString.simps [of s] split: option.splits)
  then have "chunk (take w s)"
    using utf8_step_width [OF st] utf8_step_take [OF st] by (auto simp: chunk_def min_def)
  with v show ?thesis
    using that [of "take w s" "drop w s"] by simp
qed

lemma ValidString_induct [consumes 1, case_names Nil chunk]:
  assumes "ValidString s" and "P []"
    and step: "\<And>c t. chunk c \<Longrightarrow> ValidString t \<Longrightarrow> P t \<Longrightarrow> P (c @ t)"
  shows "P s"
  using assms(1)
proof (induction "length s" arbitrary: s rule: less_induct)
  case less
  show ?case
  proof (cases "s = []")
    case True
    with assms(2) show ?thesis by simp
  next
    case False
    with less.prems obtain c t where s: "s = c @ t" "chunk c" "ValidString t"
      by (rule ValidString_chunks)
    then have "P t" using less.hyps chunk_nonempty by auto
    with s step show ?thesis by simp
  qed
qed

lemma ValidString_append: "ValidString s \<Longrightarrow> ValidString (s @ t) = ValidString t"
  by (induction rule: ValidString_induct) (simp_all add: ValidString_chunk)

definition ascii :: "string \<Rightarrow> bool" where
  "ascii s \<longleftrightarrow> list_all (\<lambda>c. bv c < 128) s"

lemma chunk_ascii: "bv c < 128 \<Longrightarrow> chunk [c]"
  by (simp add: chunk_def)

lemma ValidString_Cons_ascii [simp]: "bv c < 128 \<Longrightarrow> ValidString (c # s) = ValidString s"
  using ValidString_chunk [OF chunk_ascii, of c s] by simp

lemma ascii_ValidString: "ascii s \<Longrightarrow> ValidString s"
  by (induction s) (auto simp: ascii_def)

lemma runes_Cons_ascii [simp]: "bv c < 128 \<Longrightarrow> runes (c # s) = bv c # runes s"
  using runes_chunk [of "[c]" "bv c" s] by simp

lemma runes_eq_Nil [simp]: "runes s = [] \<longleftrightarrow> s = []"
  by (subst runes.simps) (auto split: option.splits)

section \<open>White space and trimming\<close>

text \<open>\<open>unicode.IsSpace\<close>: the code points with property White\_Space.\<close>

definition IsSpace :: "rune \<Rightarrow> bool" where
  "IsSpace r \<longleftrightarrow>
     9 \<le> r \<and> r \<le> 13 \<or> r = 32 \<or> r = 133 \<or> r = 160 \<or> r = 5760 \<or> 8192 \<le> r \<and> r \<le> 8202 \<or>
     r = 8232 \<or> r = 8233 \<or> r = 8239 \<or> r = 8287 \<or> r = 12288"

function TrimLeft :: "string \<Rightarrow> string" where
  "TrimLeft s =
     (case utf8_step s of
        Some (r, w) \<Rightarrow> if IsSpace r then TrimLeft (drop w s) else s
      | None \<Rightarrow> s)"
  by pat_completeness auto
termination
proof (relation "measure length")
  fix s x r w
  assume "utf8_step s = Some x" and "(r, w) = x"
  then have "0 < w \<and> w \<le> length s" using utf8_step_width [of s r w] by simp
  then show "(drop w s, s) \<in> measure length" by auto
qed simp

declare TrimLeft.simps [simp del]

text \<open>
  \<open>utf8.DecodeLastRuneInString\<close>: the last well-formed sequence of width 1 to 4 that ends the
  string, found by going back to the nearest byte that can start one.
\<close>

definition last_rune :: "string \<Rightarrow> (rune \<times> nat) option" where
  "last_rune s =
     (let n = length s;
          cand = (\<lambda>k. k \<le> n \<and> (\<not> cont_byte (bv (s ! (n - k)))));
          k = (if s = [] then 0 else if cand 1 then 1 else if cand 2 then 2
               else if cand 3 then 3 else min 4 n)
      in case utf8_step (drop (n - k) s) of
           Some (r, w) \<Rightarrow> if w = k then Some (r, w) else None
         | None \<Rightarrow> None)"

lemma last_rune_width: "last_rune s = Some (r, w) \<Longrightarrow> 0 < w \<and> w \<le> length s"
  by (auto simp: last_rune_def Let_def split: option.splits if_splits dest: utf8_step_width)

function TrimRight :: "string \<Rightarrow> string" where
  "TrimRight s =
     (case last_rune s of
        Some (r, w) \<Rightarrow> if IsSpace r then TrimRight (take (length s - w) s) else s
      | None \<Rightarrow> s)"
  by pat_completeness auto
termination
proof (relation "measure length")
  fix s x r w
  assume "last_rune s = Some x" and "(r, w) = x"
  then have "0 < w \<and> w \<le> length s" using last_rune_width [of s r w] by simp
  then show "(take (length s - w) s, s) \<in> measure length" by auto
qed simp

declare TrimRight.simps [simp del]

definition TrimSpace :: "string \<Rightarrow> string" where
  "TrimSpace s = TrimRight (TrimLeft s)"

lemma TrimLeft_eq_Nil: "TrimLeft s = [] \<longleftrightarrow> list_all IsSpace (runes s)"
proof (induction s rule: TrimLeft.induct)
  case (1 s)
  show ?case
  proof (cases "utf8_step s")
    case None
    then show ?thesis
      by (auto simp: TrimLeft.simps [of s] runes.simps [of s] IsSpace_def)
  next
    case (Some x)
    then obtain r w where st: "utf8_step s = Some (r, w)" by (cases x) auto
    then have "s \<noteq> []" by auto
    with st 1 show ?thesis
      by (auto simp: TrimLeft.simps [of s] runes.simps [of s])
  qed
qed

lemma TrimLeft_first: "TrimLeft s = t \<Longrightarrow> utf8_step t = Some (r, w) \<Longrightarrow> \<not> IsSpace r"
proof (induction s arbitrary: t rule: TrimLeft.induct)
  case (1 s)
  show ?case
  proof (cases "\<exists>x v. utf8_step s = Some (x, v) \<and> IsSpace x")
    case True
    then obtain x v where "utf8_step s = Some (x, v)" "IsSpace x" by blast
    with "1.prems" "1.IH" [of "(x, v)" x v t] show ?thesis
      by (simp add: TrimLeft.simps [of s])
  next
    case False
    then have "TrimLeft s = s"
      by (auto simp: TrimLeft.simps [of s] split: option.splits)
    with False "1.prems" show ?thesis by auto
  qed
qed

text \<open>A string that does not start with a white-space rune is not trimmed to nothing.\<close>

lemma TrimRight_eq_Nil:
  assumes "\<And>r w. utf8_step s = Some (r, w) \<Longrightarrow> \<not> IsSpace r"
  shows "TrimRight s = [] \<longleftrightarrow> s = []"
  using assms
proof (induction s rule: TrimRight.induct)
  case (1 s)
  show ?case
  proof (cases "last_rune s")
    case None
    then show ?thesis by (simp add: TrimRight.simps [of s])
  next
    case (Some x)
    then obtain r w where lr: "last_rune s = Some (r, w)" by (cases x) auto
    let ?t = "take (length s - w) s"
    have w: "0 < w" "w \<le> length s" using last_rune_width [OF lr] by auto
    have eq: "TrimRight s = (if IsSpace r then TrimRight ?t else s)"
      by (simp add: TrimRight.simps [of s] lr)
    have t: "\<not> IsSpace r'" if "utf8_step ?t = Some (r', w')" for r' w'
      using utf8_step_append [OF that, of "drop (length s - w) s"] "1.prems" by simp
    have "?t \<noteq> []" if "IsSpace r"
    proof
      assume "?t = []"
      with w have "w = length s" by auto
      with lr have "utf8_step s = Some (r, w)"
        by (auto simp: last_rune_def Let_def split: option.splits if_splits)
      with "1.prems" that show False by blast
    qed
    then show ?thesis
      using eq "1.IH" [OF lr [THEN trans [OF _ refl]] refl] t w by (cases "IsSpace r") auto
  qed
qed

lemma TrimSpace_eq_Nil: "TrimSpace s = [] \<longleftrightarrow> list_all IsSpace (runes s)"
  unfolding TrimSpace_def
  by (subst TrimRight_eq_Nil) (auto dest: TrimLeft_first [OF refl] simp: TrimLeft_eq_Nil)

lemma TrimSpace_Nil [simp]: "TrimSpace [] = []"
  by (simp add: TrimSpace_eq_Nil)

section \<open>Replacing, searching, splitting\<close>

text \<open>\<open>strings.ReplaceAll\<close> for the two patterns the program replaces.\<close>

abbreviation CR :: char where "CR \<equiv> CHR 0x0D"
abbreviation LF :: char where "LF \<equiv> CHR 0x0A"
abbreviation NUL :: char where "NUL \<equiv> CHR 0x00"

fun replace_crlf :: "string \<Rightarrow> string" where
  "replace_crlf (a # b # s) =
     (if a = CR \<and> b = LF then LF # replace_crlf s else a # replace_crlf (b # s))"
| "replace_crlf s = s"

definition replace_cr :: "string \<Rightarrow> string" where
  "replace_cr s = map (\<lambda>c. if c = CR then LF else c) s"

text \<open>\<open>strings.ContainsAny\<close> with an ASCII cut set, \<open>strings.ContainsRune\<close> with an ASCII rune.\<close>

definition ContainsAny :: "string \<Rightarrow> string \<Rightarrow> bool" where
  "ContainsAny s cutset \<longleftrightarrow> list_ex (\<lambda>c. c \<in> set cutset) s"

text \<open>\<open>strings.Fields\<close>: the maximal runs of non-white-space runes.\<close>

function fields_aux :: "string \<Rightarrow> string \<Rightarrow> string list" where
  "fields_aux acc s =
     (if s = [] then (if acc = [] then [] else [acc])
      else case utf8_step s of
             Some (r, w) \<Rightarrow>
               if IsSpace r then (if acc = [] then [] else [acc]) @ fields_aux [] (drop w s)
               else fields_aux (acc @ take w s) (drop w s)
           | None \<Rightarrow> fields_aux (acc @ [hd s]) (tl s))"
  by pat_completeness auto
termination
  by (relation "measure (length \<circ> snd)") (auto dest: utf8_step_width)

declare fields_aux.simps [simp del]

definition Fields :: "string \<Rightarrow> string list" where
  "Fields s = fields_aux [] s"

section \<open>Hexadecimal\<close>

definition hex_digit :: "nat \<Rightarrow> char" where
  "hex_digit n = (if n < 10 then bc (48 + n) else bc (87 + n))"

fun hex_encode :: "bytes \<Rightarrow> string" where
  "hex_encode [] = []"
| "hex_encode (b # bs) = hex_digit (bv b div 16) # hex_digit (bv b mod 16) # hex_encode bs"

text \<open>The value of a hexadecimal digit of either case.\<close>

definition hex_val :: "char \<Rightarrow> nat option" where
  "hex_val c =
     (if 48 \<le> bv c \<and> bv c \<le> 57 then Some (bv c - 48)
      else if 97 \<le> bv c \<and> bv c \<le> 102 then Some (bv c - 87)
      else if 65 \<le> bv c \<and> bv c \<le> 70 then Some (bv c - 55) else None)"

fun hex_decode :: "string \<Rightarrow> bytes option" where
  "hex_decode [] = Some []"
| "hex_decode [_] = None"
| "hex_decode (a # b # s) =
     (case (hex_val a, hex_val b) of
        (Some x, Some y) \<Rightarrow> map_option (\<lambda>r. bc (16 * x + y) # r) (hex_decode s)
      | _ \<Rightarrow> None)"

lemma hex_val_digit [simp]: "n < 16 \<Longrightarrow> hex_val (hex_digit n) = Some n"
  by (auto simp: hex_val_def hex_digit_def)

lemma bv_div_16 [simp]: "bv c div 16 < 16"
  using bv_less [of c] by linarith

lemma hex_decode_encode [simp]: "hex_decode (hex_encode bs) = Some bs"
  by (induction bs) auto

lemma hex_encode_inject [simp]: "hex_encode a = hex_encode b \<longleftrightarrow> a = b"
  by (metis hex_decode_encode option.inject)

lemma length_hex_encode [simp]: "length (hex_encode bs) = 2 * length bs"
  by (induction bs) auto

text \<open>
  \<open>strings.ToLower\<close> and \<open>strings.ToUpper\<close> on the ASCII letters; every other byte is left alone. The
  program compares their result only where the other operand is ASCII.
\<close>

definition to_lower :: "string \<Rightarrow> string" where
  "to_lower = map (\<lambda>c. if 65 \<le> bv c \<and> bv c \<le> 90 then bc (bv c + 32) else c)"

definition to_upper :: "string \<Rightarrow> string" where
  "to_upper = map (\<lambda>c. if 97 \<le> bv c \<and> bv c \<le> 122 then bc (bv c - 32) else c)"

lemma hex_digit_lower: "n < 16 \<Longrightarrow> \<not> (65 \<le> bv (hex_digit n) \<and> bv (hex_digit n) \<le> 90)"
  by (auto simp: hex_digit_def)

lemma to_lower_hex_encode [simp]: "to_lower (hex_encode bs) = hex_encode bs"
  by (induction bs) (auto simp: to_lower_def hex_digit_lower)

section \<open>Decimal numbers\<close>

text \<open>\<open>%d\<close> and \<open>strconv.Itoa\<close>.\<close>

definition is_digit :: "char \<Rightarrow> bool" where
  "is_digit c \<longleftrightarrow> 48 \<le> bv c \<and> bv c \<le> 57"

fun show_nat :: "nat \<Rightarrow> string" where
  "show_nat n = (if n < 10 then [bc (48 + n)] else show_nat (n div 10) @ [bc (48 + n mod 10)])"

declare show_nat.simps [simp del]

definition show_int :: "int \<Rightarrow> string" where
  "show_int i = (if i < 0 then CHR ''-'' # show_nat (nat (- i)) else show_nat (nat i))"

definition read_nat :: "string \<Rightarrow> nat" where
  "read_nat s = foldl (\<lambda>a c. 10 * a + (bv c - 48)) 0 s"

lemma is_digit_bc [simp]: "n < 10 \<Longrightarrow> is_digit (bc (48 + n))"
  by (simp add: is_digit_def)

lemma show_nat_digits: "list_all is_digit (show_nat n)"
proof (induction n rule: show_nat.induct)
  case (1 n)
  then show ?case by (simp add: show_nat.simps [of n])
qed

lemma show_nat_nonempty [simp]: "show_nat n \<noteq> []"
  by (subst show_nat.simps) simp

lemma read_show_nat [simp]: "read_nat (show_nat n) = n"
proof (induction n rule: show_nat.induct)
  case (1 n)
  then show ?case by (simp add: show_nat.simps [of n] read_nat_def)
qed

lemma show_nat_inject [simp]: "show_nat m = show_nat n \<longleftrightarrow> m = n"
  by (metis read_show_nat)

text \<open>No leading zero.\<close>

lemma show_nat_hd: "hd (show_nat n) = CHR ''0'' \<longleftrightarrow> n = 0"
proof (induction n rule: show_nat.induct)
  case (1 n)
  have "bc (48 + n) = CHR ''0'' \<longleftrightarrow> n = 0" if "n < 10"
  proof -
    have "bc (48 + n) = CHR ''0'' \<longleftrightarrow> bv (bc (48 + n)) = bv (CHR ''0'')" by (metis bv_inject)
    also have "\<dots> \<longleftrightarrow> n = 0" using that by (auto simp: bv_def [of "CHR ''0''"])
    finally show ?thesis .
  qed
  with 1 show ?case by (auto simp: show_nat.simps [of n])
qed

lemma digit_not_minus: "is_digit c \<Longrightarrow> c \<noteq> CHR ''-''"
  by (auto simp: is_digit_def bv_def)

lemma show_nat_hd_digit: "is_digit (hd (show_nat n))"
  using show_nat_digits [of n] by (cases "show_nat n") auto

lemma show_int_inject [simp]: "show_int i = show_int j \<longleftrightarrow> i = j"
proof -
  have "show_nat n \<noteq> CHR ''-'' # s" for n s
    using show_nat_hd_digit [of n] digit_not_minus by (metis list.sel(1))
  then show ?thesis by (auto simp: show_int_def dest: sym)
qed

lemma digit_ascii: "is_digit c \<Longrightarrow> bv c < 128"
  by (simp add: is_digit_def)

lemma show_int_ascii: "ascii (show_int i)"
  using show_nat_digits digit_ascii
  by (auto simp: show_int_def ascii_def list_all_iff bv_def [of "CHR ''-''"])

lemma runes_ascii: "ascii s \<Longrightarrow> runes s = map bv s"
  by (induction s) (auto simp: ascii_def)

lemma TrimSpace_ascii:
  "ascii s \<Longrightarrow> TrimSpace s = [] \<longleftrightarrow> list_all (\<lambda>c. IsSpace (bv c)) s"
  by (simp add: TrimSpace_eq_Nil runes_ascii list_all_iff)

section \<open>Cutting between runes\<close>

lemma runes_append: "ValidString p \<Longrightarrow> runes (p @ q) = runes p @ runes q"
proof (induction rule: ValidString_induct)
  case (chunk c t)
  then obtain r where "utf8_step c = Some (r, length c)" by (auto simp: chunk_def)
  then show ?case using chunk.IH runes_chunk [of c r] by simp
qed simp

text \<open>A rune of more than one byte has no ASCII byte.\<close>

lemma utf8_high:
  assumes "utf8_step (a # s) = Some (r, n)" and "1 < n"
  shows "\<forall>x \<in> set (take n (a # s)). 128 \<le> bv x"
  using assms
  by (cases s; cases "tl s"; cases "tl (tl s)")
    (auto simp: utf8_step_Cons lead_width_def second_ok_def cont_byte_def split: if_splits list.splits)

lemma chunk_cases:
  assumes "chunk c"
  obtains a where "c = [a]" "bv a < 128" | "\<forall>x \<in> set c. 128 \<le> bv x"
proof -
  obtain r where r: "utf8_step c = Some (r, length c)" using assms by (auto simp: chunk_def)
  obtain a t where c: "c = a # t" using chunk_nonempty [OF assms] by (cases c) auto
  show thesis
  proof (cases "t = []")
    case True
    then have "bv a < 128" using r c by (auto simp: utf8_step_Cons lead_width_def split: if_splits)
    then show thesis using that(1) c True by blast
  next
    case False
    then have "1 < length c" using c by simp
    then show thesis using utf8_high [of a t r "length c"] r c that(2) by auto
  qed
qed

text \<open>A valid string cut before an ASCII byte is cut between runes.\<close>

lemma ValidString_cut:
  "ValidString s \<Longrightarrow> s = a @ b \<Longrightarrow> b = [] \<or> bv (hd b) < 128 \<Longrightarrow> ValidString a \<and> ValidString b"
proof (induction arbitrary: a rule: ValidString_induct)
  case (chunk c t)
  show ?case
  proof (cases "length c \<le> length a")
    case True
    then obtain a' where a': "a = c @ a'" "t = a' @ b"
      using chunk.prems(1) by (metis append_eq_append_conv_if append_take_drop_id)
    then show ?thesis using chunk.IH [OF a'(2) chunk.prems(2)] ValidString_chunk [OF chunk.hyps(1)] by simp
  next
    case False
    have "a = []"
    proof (rule ccontr)
      assume "a \<noteq> []"
      then have len: "1 < length c" "length a < length c" using False by (cases a; auto)+
      have "b = drop (length a) c @ t" using arg_cong [OF chunk.prems(1), of "drop (length a)"] False by simp
      then have b: "b \<noteq> []" "hd b = c ! length a" using len by (simp_all add: hd_append hd_drop_conv_nth)
      show False
        using chunk.hyps(1)
      proof (cases rule: chunk_cases)
        case 2
        then show False using b chunk.prems(2) len nth_mem [OF len(2)] by fastforce
      qed (use len in auto)
    qed
    then show ?thesis using chunk ValidString_chunk by (metis append_Nil ValidString_Nil)
  qed
qed simp

end
