(* ===== verification/Go_JSON.thy ===== *)
theory Go_JSON
  imports Go_Text
begin

text \<open>
  Go's \<open>encoding/json\<close>, as far as the program uses it: the compact printer of \<open>json.Marshal\<close> and
  \<open>Encoder.Encode\<close> (with and without HTML escaping) and the parser behind \<open>json.Unmarshal\<close>. A
  number is kept as its literal. The main result, \<open>json_parse_print\<close>, is that printing and parsing
  back returns the same document, which makes the printed form injective.
\<close>

datatype json =
    JNull
  | JBool bool
  | JNum string
  | JStr string
  | JArr "json list"
  | JObj "(string \<times> json) list"

section \<open>Printing\<close>

abbreviation QUOTE :: char where "QUOTE \<equiv> CHR 0x22"
abbreviation BACKSLASH :: char where "BACKSLASH \<equiv> CHR 0x5C"

definition esc_ascii :: "bool \<Rightarrow> char \<Rightarrow> string" where
  "esc_ascii html c =
     (if c = QUOTE \<or> c = BACKSLASH then [BACKSLASH, c]
      else if bv c = 8 then [BACKSLASH, CHR ''b'']
      else if bv c = 12 then [BACKSLASH, CHR ''f'']
      else if bv c = 10 then [BACKSLASH, CHR ''n'']
      else if bv c = 13 then [BACKSLASH, CHR ''r'']
      else if bv c = 9 then [BACKSLASH, CHR ''t'']
      else if bv c < 32 \<or> html \<and> (bv c = 60 \<or> bv c = 62 \<or> bv c = 38)
      then [BACKSLASH, CHR ''u'', CHR ''0'', CHR ''0'', hex_digit (bv c div 16), hex_digit (bv c mod 16)]
      else [c])"

function json_escape :: "bool \<Rightarrow> string \<Rightarrow> string" where
  "json_escape html s =
     (if s = [] then []
      else if bv (hd s) < 128 then esc_ascii html (hd s) @ json_escape html (tl s)
      else case utf8_step s of
             Some (r, w) \<Rightarrow>
               (if r = 8232 then [BACKSLASH, CHR ''u'', CHR ''2'', CHR ''0'', CHR ''2'', CHR ''8'']
                else if r = 8233 then [BACKSLASH, CHR ''u'', CHR ''2'', CHR ''0'', CHR ''2'', CHR ''9'']
                else take w s) @ json_escape html (drop w s)
           | None \<Rightarrow> [BACKSLASH, CHR ''u'', CHR ''f'', CHR ''f'', CHR ''f'', CHR ''d''] @ json_escape html (tl s))"
  by pat_completeness auto
termination
  by (relation "measure (\<lambda>(h, s). length s)") (auto dest: utf8_step_width)

declare json_escape.simps [simp del]

definition json_string :: "bool \<Rightarrow> string \<Rightarrow> string" where
  "json_string html s = QUOTE # json_escape html s @ [QUOTE]"

fun comma_join :: "string list \<Rightarrow> string" where
  "comma_join [] = []"
| "comma_join [x] = x"
| "comma_join (x # y # xs) = x @ CHR '','' # comma_join (y # xs)"

fun json_print :: "bool \<Rightarrow> json \<Rightarrow> string" where
  "json_print h JNull = ''null''"
| "json_print h (JBool b) = (if b then ''true'' else ''false'')"
| "json_print h (JNum n) = n"
| "json_print h (JStr s) = json_string h s"
| "json_print h (JArr xs) = CHR ''['' # comma_join (map (json_print h) xs) @ '']''"
| "json_print h (JObj ms) =
     CHR ''{'' # comma_join (map (\<lambda>(k, v). json_string h k @ CHR '':'' # json_print h v) ms) @ ''}''"

section \<open>Parsing\<close>

definition json_ws :: "char \<Rightarrow> bool" where
  "json_ws c \<longleftrightarrow> bv c = 32 \<or> bv c = 9 \<or> bv c = 10 \<or> bv c = 13"

abbreviation skip_ws :: "string \<Rightarrow> string" where
  "skip_ws \<equiv> dropWhile json_ws"

definition encode_rune :: "rune \<Rightarrow> string" where
  "encode_rune r =
     (if r < 128 then [bc r]
      else if r < 2048 then [bc (192 + r div 64), bc (128 + r mod 64)]
      else if 55296 \<le> r \<and> r \<le> 57343 \<or> 1114111 < r then map bc [239, 191, 189]
      else if r < 65536 then [bc (224 + r div 4096), bc (128 + r div 64 mod 64), bc (128 + r mod 64)]
      else [bc (240 + r div 262144), bc (128 + r div 4096 mod 64), bc (128 + r div 64 mod 64),
            bc (128 + r mod 64)])"

definition hex4 :: "string \<Rightarrow> nat option" where
  "hex4 s =
     (case s of
        a # b # c # d # _ \<Rightarrow>
          (case (hex_val a, hex_val b, hex_val c, hex_val d) of
             (Some w, Some x, Some y, Some z) \<Rightarrow> Some (4096 * w + 256 * x + 16 * y + z)
           | _ \<Rightarrow> None)
      | _ \<Rightarrow> None)"

text \<open>A UTF-16 surrogate pair, and its rune.\<close>

definition low_surrogate :: "string \<Rightarrow> nat option" where
  "low_surrogate s =
     (case s of
        a # u # t \<Rightarrow> if a = BACKSLASH \<and> u = CHR ''u'' then hex4 t else None
      | _ \<Rightarrow> None)"

text \<open>One escape, after the backslash: its rune and what follows it.\<close>

definition parse_escape :: "string \<Rightarrow> (rune \<times> string) option" where
  "parse_escape s =
     (case s of
        [] \<Rightarrow> None
      | c # t \<Rightarrow>
          if c = QUOTE \<or> c = BACKSLASH \<or> c = CHR ''/'' then Some (bv c, t)
          else if c = CHR ''b'' then Some (8, t)
          else if c = CHR ''f'' then Some (12, t)
          else if c = CHR ''n'' then Some (10, t)
          else if c = CHR ''r'' then Some (13, t)
          else if c = CHR ''t'' then Some (9, t)
          else if c = CHR ''u'' then
            (case hex4 t of
               None \<Rightarrow> None
             | Some r \<Rightarrow>
                 if 55296 \<le> r \<and> r \<le> 57343 then
                   (case low_surrogate (drop 4 t) of
                      Some r' \<Rightarrow>
                        if r \<le> 56319 \<and> 56320 \<le> r' \<and> r' \<le> 57343
                        then Some (65536 + (r - 55296) * 1024 + (r' - 56320), drop 10 t)
                        else Some (RuneError, drop 4 t)
                    | None \<Rightarrow> Some (RuneError, drop 4 t))
                 else Some (r, drop 4 t))
          else None)"

lemma parse_escape_shorter: "parse_escape s = Some (r, t) \<Longrightarrow> length t < length s"
  by (auto simp: parse_escape_def hex4_def split: list.splits if_splits option.splits)

text \<open>The rest of a string literal, after the opening quote: the string and what follows it.\<close>

function parse_str :: "string \<Rightarrow> (string \<times> string) option" where
  "parse_str s =
     (case s of
        [] \<Rightarrow> None
      | c # t \<Rightarrow>
          if c = QUOTE then Some ([], t)
          else if c = BACKSLASH then
            (case parse_escape t of
               None \<Rightarrow> None
             | Some (r, u) \<Rightarrow> map_option (\<lambda>(x, v). (encode_rune r @ x, v)) (parse_str u))
          else if bv c < 32 then None
          else if bv c < 128 then map_option (\<lambda>(x, v). (c # x, v)) (parse_str t)
          else case utf8_step s of
                 Some (r, w) \<Rightarrow> map_option (\<lambda>(x, v). (take w s @ x, v)) (parse_str (drop w s))
               | None \<Rightarrow> map_option (\<lambda>(x, v). (map bc [239, 191, 189] @ x, v)) (parse_str t))"
  by pat_completeness auto
termination
  by (relation "measure length") (auto dest: utf8_step_width parse_escape_shorter)

declare parse_str.simps [simp del]

definition parse_digits :: "string \<Rightarrow> (string \<times> string) option" where
  "parse_digits s =
     (let d = takeWhile is_digit s in if d = [] then None else Some (d, dropWhile is_digit s))"

definition parse_int :: "string \<Rightarrow> (string \<times> string) option" where
  "parse_int s =
     (case s of
        c # t \<Rightarrow> if c = CHR ''0'' then Some ([c], t) else parse_digits s
      | [] \<Rightarrow> None)"

definition parse_frac :: "string \<Rightarrow> (string \<times> string) option" where
  "parse_frac s =
     (case s of
        c # t \<Rightarrow> if c = CHR ''.'' then map_option (\<lambda>(d, r). (c # d, r)) (parse_digits t)
                 else Some ([], s)
      | [] \<Rightarrow> Some ([], s))"

definition parse_exp :: "string \<Rightarrow> (string \<times> string) option" where
  "parse_exp s =
     (case s of
        c # t \<Rightarrow>
          if c = CHR ''e'' \<or> c = CHR ''E'' then
            (case t of
               g # u \<Rightarrow> if g = CHR ''+'' \<or> g = CHR ''-''
                         then map_option (\<lambda>(d, r). (c # g # d, r)) (parse_digits u)
                         else map_option (\<lambda>(d, r). (c # d, r)) (parse_digits t)
             | [] \<Rightarrow> None)
          else Some ([], s)
      | [] \<Rightarrow> Some ([], s))"

text \<open>A number literal: optional minus, integer part, fraction, exponent.\<close>

definition parse_num :: "string \<Rightarrow> (string \<times> string) option" where
  "parse_num s =
     (let (m, t) = (case s of c # t \<Rightarrow> if c = CHR ''-'' then ([c], t) else ([], s) | [] \<Rightarrow> ([], s))
      in case parse_int t of
           None \<Rightarrow> None
         | Some (i, t1) \<Rightarrow>
             (case parse_frac t1 of
                None \<Rightarrow> None
              | Some (f, t2) \<Rightarrow>
                  map_option (\<lambda>(e, t3). (m @ i @ f @ e, t3)) (parse_exp t2)))"

definition parse_lit :: "string \<Rightarrow> json \<Rightarrow> string \<Rightarrow> (json \<times> string) option" where
  "parse_lit l v s = (if take (length l) s = l then Some (v, drop (length l) s) else None)"

fun parse_value :: "nat \<Rightarrow> string \<Rightarrow> (json \<times> string) option"
  and parse_elems :: "nat \<Rightarrow> string \<Rightarrow> (json list \<times> string) option"
  and parse_members :: "nat \<Rightarrow> string \<Rightarrow> ((string \<times> json) list \<times> string) option" where
  "parse_value 0 s = None"
| "parse_value (Suc n) s =
     (case skip_ws s of
        [] \<Rightarrow> None
      | c # t \<Rightarrow>
          if c = QUOTE then map_option (\<lambda>(x, r). (JStr x, r)) (parse_str t)
          else if c = CHR ''['' then
            (if take 1 (skip_ws t) = '']'' then Some (JArr [], drop 1 (skip_ws t))
             else map_option (\<lambda>(x, r). (JArr x, r)) (parse_elems n t))
          else if c = CHR ''{'' then
            (if take 1 (skip_ws t) = ''}'' then Some (JObj [], drop 1 (skip_ws t))
             else map_option (\<lambda>(x, r). (JObj x, r)) (parse_members n t))
          else if c = CHR ''n'' then parse_lit ''ull'' JNull t
          else if c = CHR ''t'' then parse_lit ''rue'' (JBool True) t
          else if c = CHR ''f'' then parse_lit ''alse'' (JBool False) t
          else map_option (\<lambda>(x, r). (JNum x, r)) (parse_num (c # t)))"
| "parse_elems 0 s = None"
| "parse_elems (Suc n) s =
     (case parse_value n s of
        None \<Rightarrow> None
      | Some (v, r) \<Rightarrow>
          (case skip_ws r of
             [] \<Rightarrow> None
           | c # t \<Rightarrow>
               if c = CHR '']'' then Some ([v], t)
               else if c = CHR '','' then map_option (\<lambda>(vs, u). (v # vs, u)) (parse_elems n t)
               else None))"
| "parse_members 0 s = None"
| "parse_members (Suc n) s =
     (case skip_ws s of
        [] \<Rightarrow> None
      | q # s' \<Rightarrow>
          if q \<noteq> QUOTE then None
          else
            (case parse_str s' of
               None \<Rightarrow> None
             | Some (k, r) \<Rightarrow>
                 (case skip_ws r of
                    [] \<Rightarrow> None
                  | d # r' \<Rightarrow>
                      if d \<noteq> CHR '':'' then None
                      else
                        (case parse_value n r' of
                           None \<Rightarrow> None
                         | Some (v, r2) \<Rightarrow>
                             (case skip_ws r2 of
                                [] \<Rightarrow> None
                              | c # t \<Rightarrow>
                                  if c = CHR ''}'' then Some ([(k, v)], t)
                                  else if c = CHR '','' then
                                    map_option (\<lambda>(ms, u). ((k, v) # ms, u)) (parse_members n t)
                                  else None)))))"

text \<open>
  A whole document. Every array, object or value consumes at least one byte for two units of fuel,
  so twice the length is enough.
\<close>

definition json_parse :: "string \<Rightarrow> json option" where
  "json_parse s =
     (case parse_value (2 * length s + 2) s of
        Some (j, r) \<Rightarrow> if skip_ws r = [] then Some j else None
      | None \<Rightarrow> None)"

section \<open>Printing then parsing\<close>

lemma bc_eqI: "bv a = n \<Longrightarrow> bc n = a"
  using bc_bv [of a] by simp

lemma cont_split:
  assumes "cont_byte n"
  obtains y where "n = 128 + y" "y < 64" "n mod 64 = y"
proof -
  from assms have "n = 128 + (n - 128)" "n - 128 < 64" by (auto simp: cont_byte_def)
  then show ?thesis using that [of "n - 128"] field_mod [of "n - 128" 64 2] by simp
qed

lemma second_cont: "second_ok a b \<Longrightarrow> cont_byte b"
  by (auto simp: second_ok_def cont_byte_def split: if_splits)

lemma lead_split:
  assumes "base + x = n" "x < k" "k * q = base"
  shows "n mod k = (x::nat)"
  using assms field_mod [of x k q] by (simp add: mult.commute)

lemma encode_rune_2:
  assumes "lead_width (bv a) = 2" and s: "second_ok (bv a) (bv b)"
  shows "encode_rune (bv a mod 32 * 64 + bv b mod 64) = [a, b]"
proof -
  obtain y where y: "bv b = 128 + y" "y < 64" "bv b mod 64 = y"
    by (rule cont_split [OF second_cont [OF s]])
  from assms(1) have a: "bv a = 192 + (bv a - 192)" "bv a - 192 < 32" "2 \<le> bv a - 192"
    by (auto simp: lead_width_def split: if_splits)
  define x where "x = bv a - 192"
  have x: "bv a = 192 + x" "x < 32" "2 \<le> x" "bv a mod 32 = x"
    using a lead_split [of 192 x "bv a" 32 6] by (auto simp: x_def)
  have "(x * 64 + y) div 64 = x" "(x * 64 + y) mod 64 = y" "128 \<le> x * 64 + y" "x * 64 + y < 2048"
    using x y by (simp_all add: field_div field_mod)
  moreover have "bc (192 + x) = a" "bc (128 + y) = b" using x y by (auto intro: bc_eqI)
  ultimately show ?thesis using x y by (simp add: encode_rune_def)
qed

lemma encode_rune_3:
  assumes "lead_width (bv a) = 3" and s: "second_ok (bv a) (bv b)" and "cont_byte (bv d)"
  shows "encode_rune (bv a mod 16 * 4096 + bv b mod 64 * 64 + bv d mod 64) = [a, b, d]"
proof -
  obtain y where y: "bv b = 128 + y" "y < 64" "bv b mod 64 = y"
    by (rule cont_split [OF second_cont [OF s]])
  obtain z where z: "bv d = 128 + z" "z < 64" "bv d mod 64 = z"
    by (rule cont_split [OF assms(3)])
  from assms(1) have a: "bv a = 224 + (bv a - 224)" "bv a - 224 < 16"
    by (auto simp: lead_width_def split: if_splits)
  define x where "x = bv a - 224"
  have x: "bv a = 224 + x" "x < 16" "bv a mod 16 = x"
    using a lead_split [of 224 x "bv a" 16 14] by (auto simp: x_def)
  have lim: "x = 0 \<Longrightarrow> 32 \<le> y" "x = 13 \<Longrightarrow> y < 32"
    using s x y by (auto simp: second_ok_def)
  define r where "r = (x * 64 + y) * 64 + z"
  have "r div 64 = x * 64 + y" "r mod 64 = z"
    using z by (simp_all only: r_def field_div field_mod)
  moreover have "(x * 64 + y) div 64 = x" "(x * 64 + y) mod 64 = y"
    using y by (simp_all only: field_div field_mod)
  moreover have "r div 4096 = r div 64 div 64" by (simp add: div_mult2_eq [symmetric])
  ultimately have "r div 4096 = x" "r div 64 mod 64 = y" "r mod 64 = z" by simp_all
  moreover have "2048 \<le> r" using lim(1) unfolding r_def by (cases "x = 0") auto
  moreover have "r < 65536" using x(2) y(2) z(2) unfolding r_def by (simp add: add_mult_distrib)
  moreover have "\<not> (55296 \<le> r \<and> r \<le> 57343)"
  proof -
    have "x \<le> 12 \<or> x = 13 \<or> 14 \<le> x" by linarith
    then show ?thesis using lim(2) y z unfolding r_def by auto
  qed
  moreover have "bc (224 + x) = a" "bc (128 + y) = b" "bc (128 + z) = d"
    using x y z by (auto intro: bc_eqI)
  moreover have "bv a mod 16 * 4096 + bv b mod 64 * 64 + bv d mod 64 = r"
    using x y z by (simp add: r_def)
  ultimately show ?thesis by (auto simp: encode_rune_def)
qed

lemma encode_rune_4:
  assumes "lead_width (bv a) = 4" and s: "second_ok (bv a) (bv b)"
    and "cont_byte (bv d)" and "cont_byte (bv e)"
  shows "encode_rune (bv a mod 8 * 262144 + bv b mod 64 * 4096 + bv d mod 64 * 64 + bv e mod 64)
    = [a, b, d, e]"
proof -
  obtain y where y: "bv b = 128 + y" "y < 64" "bv b mod 64 = y"
    by (rule cont_split [OF second_cont [OF s]])
  obtain z where z: "bv d = 128 + z" "z < 64" "bv d mod 64 = z"
    by (rule cont_split [OF assms(3)])
  obtain u where u: "bv e = 128 + u" "u < 64" "bv e mod 64 = u"
    by (rule cont_split [OF assms(4)])
  from assms(1) have a: "bv a = 240 + (bv a - 240)" "bv a - 240 < 5"
    by (auto simp: lead_width_def split: if_splits)
  define x where "x = bv a - 240"
  have x: "bv a = 240 + x" "x < 5" "bv a mod 8 = x"
    using a lead_split [of 240 x "bv a" 8 30] by (auto simp: x_def)
  have lim: "x = 0 \<Longrightarrow> 16 \<le> y" "x = 4 \<Longrightarrow> y < 16"
    using s x y by (auto simp: second_ok_def)
  define r where "r = ((x * 64 + y) * 64 + z) * 64 + u"
  have "r div 64 = (x * 64 + y) * 64 + z" "r mod 64 = u"
    using u by (simp_all only: r_def field_div field_mod)
  moreover have "((x * 64 + y) * 64 + z) div 64 = x * 64 + y" "((x * 64 + y) * 64 + z) mod 64 = z"
    using z by (simp_all only: field_div field_mod)
  moreover have "(x * 64 + y) div 64 = x" "(x * 64 + y) mod 64 = y"
    using y by (simp_all only: field_div field_mod)
  moreover have "r div 4096 = r div 64 div 64" "r div 262144 = r div 64 div 64 div 64"
    by (simp_all add: div_mult2_eq [symmetric])
  ultimately have "r div 262144 = x" "r div 4096 mod 64 = y" "r div 64 mod 64 = z" "r mod 64 = u"
    by simp_all
  moreover have "65536 \<le> r" using lim(1) unfolding r_def by (cases "x = 0") auto
  moreover have "r \<le> 1114111" using lim(2) x y z u unfolding r_def by (cases "x = 4") auto
  moreover have "bc (240 + x) = a" "bc (128 + y) = b" "bc (128 + z) = d" "bc (128 + u) = e"
    using x y z u by (auto intro: bc_eqI)
  moreover have "bv a mod 8 * 262144 + bv b mod 64 * 4096 + bv d mod 64 * 64 + bv e mod 64 = r"
    using x y z u by (simp add: r_def)
  ultimately show ?thesis by (simp add: encode_rune_def)
qed

lemma encode_rune_1: "lead_width (bv a) = 1 \<Longrightarrow> encode_rune (bv a) = [a]"
  by (auto simp: lead_width_def encode_rune_def split: if_splits)

lemma encode_rune_utf8:
  assumes "utf8_step c = Some (r, length c)"
  shows "encode_rune r = c"
proof (cases c)
  case (Cons a t)
  from assms consider "lead_width (bv a) = 1" | "lead_width (bv a) = 2" | "lead_width (bv a) = 3"
    | "lead_width (bv a) = 4"
    by (auto simp: Cons utf8_step_Cons split: if_splits)
  then show ?thesis
    using assms
    by cases
      (auto simp: Cons utf8_step_Cons encode_rune_1 encode_rune_2 encode_rune_3 encode_rune_4
        simp del: One_nat_def split: list.splits if_splits)
qed (use assms in simp)

text \<open>An escaped ASCII byte is read back as itself, whatever follows.\<close>

lemma parse_str_esc_ascii:
  assumes "bv c < 128"
  shows "parse_str (esc_ascii h c @ u) = map_option (\<lambda>(x, v). (c # x, v)) (parse_str u)"
proof -
  have sp: "bv QUOTE = 34" "bv BACKSLASH = 92" by (simp_all add: bv_def)
  have enc: "encode_rune (bv c) = [c]"
    using assms by (simp add: encode_rune_def)
  consider "c = QUOTE \<or> c = BACKSLASH" | "bv c \<in> {8, 12, 10, 13, 9}"
    | "c \<noteq> QUOTE" "c \<noteq> BACKSLASH" "bv c \<notin> {8, 12, 10, 13, 9}" "bv c < 32 \<or> h \<and> bv c \<in> {60, 62, 38}"
    | "c \<noteq> QUOTE" "c \<noteq> BACKSLASH" "32 \<le> bv c" "\<not> (h \<and> bv c \<in> {60, 62, 38})"
    by (metis not_less)
  then show ?thesis
  proof cases
    case 1
    then show ?thesis using enc
      by (auto simp: esc_ascii_def parse_str.simps [of "BACKSLASH # _"] parse_escape_def)
  next
    case 2
    then have "c \<noteq> QUOTE" "c \<noteq> BACKSLASH" using sp by auto
    with 2 enc show ?thesis
      by (auto simp: esc_ascii_def parse_str.simps [of "BACKSLASH # _"] parse_escape_def)
  next
    case 3
    have "16 * (bv c div 16) + bv c mod 16 = bv c" by simp
    moreover have "hex_val (CHR ''0'') = Some 0" by (simp add: hex_val_def bv_def)
    ultimately have "hex4 (CHR ''0'' # CHR ''0'' # hex_digit (bv c div 16) # hex_digit (bv c mod 16) # u)
        = Some (bv c)"
      by (simp add: hex4_def)
    with 3 enc assms show ?thesis
      by (auto simp: esc_ascii_def parse_str.simps [of "BACKSLASH # _"] parse_escape_def)
  next
    case 4
    then have "bv c \<notin> {8, 12, 10, 13, 9}" by auto
    with 4 assms show ?thesis
      by (auto simp: esc_ascii_def parse_str.simps [of "c # _"])
  qed
qed

lemma json_escape_Nil [simp]: "json_escape h [] = []"
  by (simp add: json_escape.simps)

lemma json_escape_ascii: "bv c < 128 \<Longrightarrow> json_escape h (c # s) = esc_ascii h c @ json_escape h s"
  by (simp add: json_escape.simps [of h "c # s"])

lemma parse_str_u202: 
  assumes "d \<in> {CHR ''8'', CHR ''9''}" and "k = (if d = CHR ''8'' then 8232 else 8233)"
  shows "parse_str (BACKSLASH # CHR ''u'' # CHR ''2'' # CHR ''0'' # CHR ''2'' # d # u)
    = map_option (\<lambda>(x, v). (encode_rune k @ x, v)) (parse_str u)"
proof -
  have "hex4 (CHR ''2'' # CHR ''0'' # CHR ''2'' # d # u) = Some k"
    using assms by (auto simp: hex4_def hex_val_def bv_def)
  with assms show ?thesis
    by (auto simp: parse_str.simps [of "BACKSLASH # _"] parse_escape_def)
qed

lemma parse_str_json_escape:
  assumes "ValidString s"
  shows "parse_str (json_escape h s @ QUOTE # rest) = Some (s, rest)"
  using assms
proof (induction rule: ValidString_induct)
  case Nil
  show ?case by (simp add: parse_str.simps [of "QUOTE # _"])
next
  case (chunk c t)
  then obtain r where st: "utf8_step c = Some (r, length c)" by (auto simp: chunk_def)
  then obtain a c' where c: "c = a # c'" by (cases c) auto
  show ?case
  proof (cases "bv a < 128")
    case True
    with st have "c = [a]" by (simp add: c)
    with True chunk.IH show ?thesis
      by (simp add: json_escape_ascii parse_str_esc_ascii)
  next
    case False
    have st': "utf8_step (c @ v) = Some (r, length c)" for v
      using st by (rule utf8_step_append)
    have enc: "encode_rune r = c" using st by (rule encode_rune_utf8)
    have e: "json_escape h (c @ t) =
       (if r = 8232 then [BACKSLASH, CHR ''u'', CHR ''2'', CHR ''0'', CHR ''2'', CHR ''8'']
        else if r = 8233 then [BACKSLASH, CHR ''u'', CHR ''2'', CHR ''0'', CHR ''2'', CHR ''9'']
        else c) @ json_escape h t"
      using False st' [of t] by (simp add: json_escape.simps [of h "a # c' @ t"] c)
    from False have "a \<noteq> QUOTE" "a \<noteq> BACKSLASH" by (auto simp: bv_def)
    then have plain: "parse_str (c @ u) = map_option (\<lambda>(x, v). (c @ x, v)) (parse_str u)" for u
      using False st' [of u] by (auto simp: parse_str.simps [of "a # c' @ u"] c)
    show ?thesis
      using chunk.IH enc by (auto simp: e plain parse_str_u202)
  qed
qed

section \<open>Round trip of documents\<close>

text \<open>
  Well-formed documents: their strings are valid UTF-8 and their numbers are decimal integers, the
  only ones the program prints.
\<close>

fun json_wf :: "json \<Rightarrow> bool" where
  "json_wf JNull = True"
| "json_wf (JBool b) = True"
| "json_wf (JNum n) = (\<exists>i. n = show_int i)"
| "json_wf (JStr s) = ValidString s"
| "json_wf (JArr xs) = (\<forall>x \<in> set xs. json_wf x)"
| "json_wf (JObj ms) = (\<forall>m \<in> set ms. ValidString (fst m) \<and> json_wf (snd m))"

text \<open>What may follow a number so that its end is seen: nothing that continues it.\<close>

definition num_stop :: "string \<Rightarrow> bool" where
  "num_stop r \<longleftrightarrow> (case r of [] \<Rightarrow> True
     | c # _ \<Rightarrow> \<not> is_digit c \<and> c \<noteq> CHR ''.'' \<and> c \<noteq> CHR ''e'' \<and> c \<noteq> CHR ''E'')"

lemma num_stop_simps [simp]: "num_stop []" "num_stop (CHR '','' # s)" "num_stop (CHR '']'' # s)"
  "num_stop (CHR ''}'' # s)"
  by (simp_all add: num_stop_def is_digit_def bv_def)

lemma takeWhile_digits:
  assumes "list_all is_digit d" "num_stop r"
  shows "takeWhile is_digit (d @ r) = d" "dropWhile is_digit (d @ r) = r"
  using assms by (induction d) (auto simp: num_stop_def split: list.splits)

lemma parse_int_show:
  assumes "num_stop r"
  shows "parse_int (show_nat n @ r) = Some (show_nat n, r)"
proof (cases "n = 0")
  case True
  then have "show_nat n = ''0''"
    by (simp add: show_nat.simps) (rule bc_eqI, simp add: bv_def)
  then show ?thesis by (simp add: parse_int_def)
next
  case False
  then have "hd (show_nat n) \<noteq> CHR ''0''" by (simp add: show_nat_hd)
  then show ?thesis
    using takeWhile_digits [OF show_nat_digits assms, of n]
    by (cases "show_nat n") (auto simp: parse_int_def parse_digits_def)
qed

lemma parse_frac_stop: "num_stop r \<Longrightarrow> parse_frac r = Some ([], r)"
  and parse_exp_stop: "num_stop r \<Longrightarrow> parse_exp r = Some ([], r)"
  by (auto simp: parse_frac_def parse_exp_def num_stop_def split: list.splits)

lemma parse_num_show:
  assumes "num_stop r"
  shows "parse_num (show_int i @ r) = Some (show_int i, r)"
proof (cases "i < 0")
  case True
  then show ?thesis
    using assms by (simp add: parse_num_def show_int_def parse_int_show parse_frac_stop parse_exp_stop)
next
  case False
  obtain c t where ct: "show_nat (nat i) = c # t" by (cases "show_nat (nat i)") auto
  with show_nat_hd_digit [of "nat i"] have "c \<noteq> CHR ''-''" by (auto dest: digit_not_minus)
  with False ct parse_int_show [OF assms, of "nat i"] show ?thesis
    using assms by (simp add: parse_num_def show_int_def parse_frac_stop parse_exp_stop)
qed

text \<open>The first byte of a printed value tells the parser what it is.\<close>

lemma show_int_first:
  obtains c t where "show_int i = c # t" and "is_digit c \<or> c = CHR ''-''"
proof (cases "show_int i")
  case Nil
  then show ?thesis by (simp add: show_int_def split: if_splits)
next
  case (Cons c t)
  then have "is_digit c \<or> c = CHR ''-''"
    using show_nat_hd_digit by (auto simp: show_int_def split: if_splits) (metis list.sel(1))
  with Cons that show ?thesis by blast
qed

lemma parse_value_num:
  assumes "num_stop r"
  shows "parse_value (Suc n) (show_int i @ r) = Some (JNum (show_int i), r)"
proof -
  obtain c t where ct: "show_int i = c # t" and c: "is_digit c \<or> c = CHR ''-''"
    by (rule show_int_first)
  then have "\<not> json_ws c" "c \<noteq> QUOTE" "c \<noteq> CHR ''[''" "c \<noteq> CHR ''{''" "c \<noteq> CHR ''n''"
    "c \<noteq> CHR ''t''" "c \<noteq> CHR ''f''"
    by (auto simp: is_digit_def json_ws_def bv_def)
  with parse_num_show [OF assms, of i] ct show ?thesis by simp
qed

lemma json_ws_simps [simp]:
  "\<not> json_ws QUOTE" "\<not> json_ws (CHR '','')" "\<not> json_ws (CHR '']'')" "\<not> json_ws (CHR ''}'')"
  "\<not> json_ws (CHR '':'')" "\<not> json_ws (CHR ''['')" "\<not> json_ws (CHR ''{'')"
  "\<not> json_ws (CHR ''n'')" "\<not> json_ws (CHR ''t'')" "\<not> json_ws (CHR ''f'')"
  by (simp_all add: json_ws_def bv_def)

text \<open>A printed value starts with neither a closing bracket nor white space.\<close>

lemma json_print_first:
  assumes "json_wf j"
  shows "\<exists>c t. json_print h j = c # t \<and> c \<noteq> CHR '']'' \<and> \<not> json_ws c"
proof (cases j)
  case (JNum x)
  with assms obtain i where "x = show_int i" by auto
  moreover obtain c t where "show_int i = c # t" "is_digit c \<or> c = CHR ''-''" by (rule show_int_first)
  ultimately show ?thesis using JNum by (auto simp: is_digit_def json_ws_def bv_def)
qed (auto simp: json_string_def json_ws_def bv_def)

text \<open>The fuel a document needs; it is at most the length of its printed form.\<close>

fun jcost :: "json \<Rightarrow> nat" where
  "jcost (JArr xs) = Suc (sum_list (map (\<lambda>x. Suc (jcost x)) xs))"
| "jcost (JObj ms) = Suc (sum_list (map (\<lambda>m. Suc (jcost (snd m))) ms))"
| "jcost _ = 1"

lemma parse_elems_print:
  assumes "xs \<noteq> []" and "\<forall>x \<in> set xs. json_wf x"
    and "\<And>x n r. x \<in> set xs \<Longrightarrow> jcost x \<le> n \<Longrightarrow> num_stop r \<Longrightarrow>
           parse_value n (json_print h x @ r) = Some (x, r)"
    and "sum_list (map (\<lambda>x. Suc (jcost x)) xs) \<le> n"
  shows "parse_elems n (comma_join (map (json_print h) xs) @ CHR '']'' # r) = Some (xs, r)"
  using assms
proof (induction xs arbitrary: n rule: list_nonempty_induct)
  case (single x)
  then obtain k where n: "n = Suc k" and "jcost x \<le> k" by (cases n) auto
  with single.prems show ?case by simp
next
  case (cons x xs)
  then obtain k where n: "n = Suc k" and k: "jcost x \<le> k"
      "sum_list (map (\<lambda>x. Suc (jcost x)) xs) \<le> k" by (cases n) auto
  have IH: "parse_elems k (comma_join (map (json_print h) xs) @ CHR '']'' # r) = Some (xs, r)"
    using cons.prems k(2) by (intro cons.IH) auto
  obtain y ys where "xs = y # ys" using cons.hyps by (cases xs) auto
  with IH n k(1) cons.prems(2) show ?case by simp
qed

lemma parse_members_print:
  assumes "ms \<noteq> []" and "\<forall>m \<in> set ms. ValidString (fst m)"
    and "\<And>m n r. m \<in> set ms \<Longrightarrow> jcost (snd m) \<le> n \<Longrightarrow> num_stop r \<Longrightarrow>
           parse_value n (json_print h (snd m) @ r) = Some (snd m, r)"
    and "sum_list (map (\<lambda>m. Suc (jcost (snd m))) ms) \<le> n"
  shows "parse_members n
      (comma_join (map (\<lambda>(k, v). json_string h k @ CHR '':'' # json_print h v) ms) @ CHR ''}'' # r)
    = Some (ms, r)"
  using assms
proof (induction ms arbitrary: n rule: list_nonempty_induct)
  case (single m)
  obtain k v where m: "m = (k, v)" by (cases m)
  from single obtain f where n: "n = Suc f" and "jcost v \<le> f" by (cases n) (auto simp: m)
  with single.prems show ?case
    by (simp add: m json_string_def parse_str_json_escape)
next
  case (cons m ms)
  obtain k v where m: "m = (k, v)" by (cases m)
  from cons obtain f where n: "n = Suc f" and f: "jcost v \<le> f"
      "sum_list (map (\<lambda>m. Suc (jcost (snd m))) ms) \<le> f" by (cases n) (auto simp: m)
  have IH: "parse_members f
      (comma_join (map (\<lambda>(k, v). json_string h k @ CHR '':'' # json_print h v) ms) @ CHR ''}'' # r)
    = Some (ms, r)"
    using cons.prems f(2) by (intro cons.IH) auto
  obtain y ys where "ms = y # ys" using cons.hyps by (cases ms) auto
  moreover have "parse_value f (json_print h v @ CHR '','' # u) = Some (v, CHR '','' # u)" for u
    using cons.prems(2) [of m f] f(1) by (simp add: m)
  ultimately show ?case using IH n cons.prems(1)
    by (simp add: m json_string_def parse_str_json_escape)
qed

lemma comma_join_first:
  "xs \<noteq> [] \<Longrightarrow> hd xs = c # t \<Longrightarrow> \<exists>u. comma_join xs = c # u"
  by (cases xs rule: comma_join.cases) auto

lemma parse_value_print:
  "json_wf j \<Longrightarrow> jcost j \<le> n \<Longrightarrow> num_stop r \<Longrightarrow> parse_value n (json_print h j @ r) = Some (j, r)"
proof (induction j arbitrary: n r)
  case JNull
  then obtain k where "n = Suc k" by (cases n) auto
  then show ?case by (simp add: parse_lit_def)
next
  case (JBool b)
  then obtain k where "n = Suc k" by (cases n) auto
  then show ?case by (simp add: parse_lit_def)
next
  case (JNum x)
  then obtain k where "n = Suc k" by (cases n) auto
  with JNum show ?case by (auto simp: parse_value_num simp del: parse_value.simps)
next
  case (JStr s)
  then obtain k where "n = Suc k" by (cases n) auto
  with JStr show ?case by (simp add: json_string_def parse_str_json_escape)
next
  case (JArr xs)
  then obtain k where n: "n = Suc k" and k: "sum_list (map (\<lambda>x. Suc (jcost x)) xs) \<le> k"
    by (cases n) auto
  show ?case
  proof (cases "xs = []")
    case True
    then show ?thesis by (simp add: n)
  next
    case False
    let ?b = "comma_join (map (json_print h) xs) @ CHR '']'' # r"
    from False JArr.prems(1) have "json_wf (hd xs)" by simp
    then obtain c t where "json_print h (hd xs) = c # t" "c \<noteq> CHR '']''" "\<not> json_ws c"
      using json_print_first by blast
    with False comma_join_first [of "map (json_print h) xs" c t]
    have "take 1 (skip_ws ?b) \<noteq> '']''" by (auto simp: hd_map)
    moreover have "parse_elems k ?b = Some (xs, r)"
      using False JArr k by (intro parse_elems_print) auto
    ultimately show ?thesis by (simp add: n)
  qed
next
  case (JObj ms)
  then obtain k where n: "n = Suc k" and k: "sum_list (map (\<lambda>m. Suc (jcost (snd m))) ms) \<le> k"
    by (cases n) auto
  show ?case
  proof (cases "ms = []")
    case True
    then show ?thesis by (simp add: n)
  next
    case False
    let ?f = "\<lambda>(k, v). json_string h k @ CHR '':'' # json_print h v"
    let ?b = "comma_join (map ?f ms) @ CHR ''}'' # r"
    from False comma_join_first [of "map ?f ms" QUOTE]
    have "take 1 (skip_ws ?b) \<noteq> ''}''" by (cases ms) (auto simp: json_string_def split: prod.splits)
    moreover have "parse_members k ?b = Some (ms, r)"
      using False JObj k
      by (intro parse_members_print) (auto simp: prod_set_defs prod_set_simps)
    ultimately show ?thesis by (simp add: n)
  qed
qed

lemma length_comma_join:
  "xs \<noteq> [] \<Longrightarrow> Suc (length (comma_join xs)) = sum_list (map (\<lambda>x. Suc (length x)) xs)"
  by (induction xs rule: comma_join.induct) auto

lemma jcost_le_length: "json_wf j \<Longrightarrow> jcost j \<le> length (json_print h j)"
proof (induction j)
  case (JNum x)
  then obtain i where "x = show_int i" by auto
  moreover obtain c t where "show_int i = c # t" by (rule show_int_first)
  ultimately show ?case by simp
next
  case (JArr xs)
  have "sum_list (map (\<lambda>x. Suc (jcost x)) xs) \<le> sum_list (map (\<lambda>x. Suc (length (json_print h x))) xs)"
    using JArr by (intro sum_list_mono) auto
  then show ?case using length_comma_join [of "map (json_print h) xs"]
    by (cases "xs = []") (auto simp: o_def)
next
  case (JObj ms)
  let ?f = "\<lambda>(k, v). json_string h k @ CHR '':'' # json_print h v"
  have "sum_list (map (\<lambda>m. Suc (jcost (snd m))) ms) \<le> sum_list (map (\<lambda>m. Suc (length (?f m))) ms)"
    using JObj by (intro sum_list_mono) (force simp: prod_set_defs prod_set_simps)
  then show ?case using length_comma_join [of "map ?f ms"]
    by (cases "ms = []") (auto simp: o_def)
qed (auto simp: json_string_def)

theorem json_parse_print: "json_wf j \<Longrightarrow> json_parse (json_print h j) = Some j"
  using parse_value_print [of j "2 * length (json_print h j) + 2" "[]" h] jcost_le_length [of j h]
  by (simp add: json_parse_def)

lemma json_print_inject:
  "json_wf i \<Longrightarrow> json_wf j \<Longrightarrow> json_print h i = json_print h j \<longleftrightarrow> i = j"
  by (metis json_parse_print option.inject)

section \<open>Fuel\<close>

text \<open>Every parser consumes something, so the fuel of \<open>json_parse\<close> never runs out: with more of it the answer is the same.\<close>

lemma skip_ws_Cons_length: "skip_ws s = c # t \<Longrightarrow> length t < length s"
  using length_dropWhile_le [of json_ws s] by simp

lemma parse_str_shorter: "parse_str s = Some (x, r) \<Longrightarrow> length r < length s"
proof (induction s arbitrary: x rule: measure_induct_rule [where f = length])
  case (less s)
  show ?case
  proof (cases s)
    case (Cons c t)
    have IH: "length r < Suc (length t)" if "parse_str u = Some (y, r)" "length u < Suc (length t)" for u y
      using less.IH [of u y] that Cons by simp
    have w: "length (drop w s) < Suc (length t)" if "utf8_step s = Some (q, w)" for q w
      using utf8_step_width [OF that] Cons by simp
    have e: "length u < Suc (length t)" if "parse_escape t = Some (q, u)" for q u
      using parse_escape_shorter [OF that] by simp
    show ?thesis
      using less.prems [unfolded parse_str.simps [of s]] IH [of t] IH [OF _ w] IH [OF _ e] unfolding Cons
      by (auto simp del: length_drop split: if_splits option.splits prod.splits)
  qed (use less.prems in \<open>simp add: parse_str.simps\<close>)
qed

lemma parse_digits_shorter: "parse_digits s = Some (d, r) \<Longrightarrow> length r < length s"
proof -
  assume p: "parse_digits s = Some (d, r)"
  have "length (takeWhile is_digit s) + length (dropWhile is_digit s) = length s" by (metis length_append takeWhile_dropWhile_id)
  with p have "length d + length r = length s" "d \<noteq> []" by (auto simp: parse_digits_def Let_def split: if_splits)
  then show ?thesis by (cases d) auto
qed

lemma parse_num_shorter: "parse_num s = Some (x, r) \<Longrightarrow> length r < length s"
proof -
  have i: "parse_int t = Some (i, u) \<Longrightarrow> length u < length t" for t i u
    by (auto simp: parse_int_def split: list.splits if_splits dest: parse_digits_shorter)
  have f: "parse_frac t = Some (i, u) \<Longrightarrow> length u \<le> length t" for t i u
    by (auto simp: parse_frac_def split: list.splits if_splits dest!: parse_digits_shorter)
  have e: "parse_exp t = Some (i, u) \<Longrightarrow> length u \<le> length t" for t i u
    by (auto simp: parse_exp_def split: list.splits if_splits dest!: parse_digits_shorter)
  assume "parse_num s = Some (x, r)"
  then show ?thesis
    by (auto simp: parse_num_def Let_def split: list.splits if_splits option.splits prod.splits dest!: i f e)
qed

lemma parse_lit_shorter: "parse_lit l v s = Some (x, r) \<Longrightarrow> length r \<le> length s"
  by (auto simp: parse_lit_def split: if_splits)

lemma parse_shorter:
  "parse_value n s = Some (v, r) \<Longrightarrow> length r < length s"
  "parse_elems n s = Some (vs, r) \<Longrightarrow> length r < length s"
  "parse_members n s = Some (ms, r) \<Longrightarrow> length r < length s"
proof (induction n s and n s and n s arbitrary: v r and vs r and ms r rule: parse_value_parse_elems_parse_members.induct)
  case (2 n s)
  show ?case
  proof (cases "skip_ws s")
    case (Cons c t)
    note t = skip_ws_Cons_length [OF Cons]
    have d: "length (drop 1 (skip_ws t)) < length s" using t length_dropWhile_le [of json_ws t] by simp
    show ?thesis
      using 2(3) 2(1) [OF Cons] 2(2) [OF Cons] t d
      by (auto simp: Cons split: if_splits dest!: parse_str_shorter parse_num_shorter parse_lit_shorter)
  next
    case Nil
    then show ?thesis using 2(3) unfolding parse_value.simps Nil by simp
  qed
next
  case (4 n s)
  obtain v r1 where v: "parse_value n s = Some (v, r1)" using 4(3) by (cases "parse_value n s") auto
  then obtain c t where c: "skip_ws r1 = c # t" using 4(3) unfolding parse_elems.simps v by (cases "skip_ws r1") simp_all
  have "length t < length s" using 4(1) [OF v] skip_ws_Cons_length [OF c] by simp
  moreover have "length r \<le> length t"
    using 4(3) 4(2) [OF v refl c] unfolding parse_elems.simps v option.case prod.case c list.case by (auto split: if_splits)
  ultimately show ?case by simp
next
  case (6 n s)
  obtain s' where s': "skip_ws s = QUOTE # s'" using 6(3) unfolding parse_members.simps by (cases "skip_ws s") (auto split: if_splits)
  obtain k r1 where k: "parse_str s' = Some (k, r1)" using 6(3) unfolding parse_members.simps s' by (cases "parse_str s'") auto
  obtain r2 where r2: "skip_ws r1 = CHR '':'' # r2" using 6(3) unfolding parse_members.simps s' list.case k option.case prod.case
    by (cases "skip_ws r1") (auto split: if_splits)
  obtain v r3 where v: "parse_value n r2 = Some (v, r3)" using 6(3) unfolding parse_members.simps s' list.case k option.case prod.case r2
    by (cases "parse_value n r2") auto
  obtain c t where c: "skip_ws r3 = c # t" using 6(3) unfolding parse_members.simps s' list.case k option.case prod.case r2 v
    by (cases "skip_ws r3") auto
  have "length r3 < length r2" using 6(1) [OF s' _ k refl r2] v by simp
  then have "length t < length s"
    using skip_ws_Cons_length [OF s'] parse_str_shorter [OF k] skip_ws_Cons_length [OF r2] skip_ws_Cons_length [OF c] by simp
  moreover have "length r \<le> length t"
    using 6(3) 6(2) [OF s' _ k refl r2 _ v refl c] unfolding parse_members.simps s' list.case k option.case prod.case r2 v c
    by (auto split: if_splits)
  ultimately show ?case by simp
qed simp_all

text \<open>One more unit of fuel changes nothing once there are two for each byte.\<close>

lemma parse_fuel_step:
  "2 * length s + 2 \<le> n \<Longrightarrow> parse_value (Suc n) s = parse_value n s"
  "2 * length s + 3 \<le> n \<Longrightarrow> parse_elems (Suc n) s = parse_elems n s"
  "2 * length s + 3 \<le> n \<Longrightarrow> parse_members (Suc n) s = parse_members n s"
proof (induction n s and n s and n s rule: parse_value_parse_elems_parse_members.induct)
  case (2 n s)
  show ?case
  proof (cases "skip_ws s")
    case (Cons c t)
    have "2 * length t + 3 \<le> n" using 2(3) skip_ws_Cons_length [OF Cons] by simp
    then show ?thesis
      using 2(1) [OF Cons] 2(2) [OF Cons] unfolding parse_value.simps(2) [of "Suc n" s] parse_value.simps(2) [of n s] Cons list.case by simp
  qed (simp only: parse_value.simps list.case)
next
  case (4 n s)
  have v: "parse_value (Suc n) s = parse_value n s" using 4 by simp
  show ?case
  proof (cases "parse_value n s")
    case (Some p)
    obtain x r where p: "parse_value n s = Some (x, r)" using Some by (cases p) simp
    show ?thesis
    proof (cases "skip_ws r")
      case (Cons c t)
      have "length t < length r" "length r < length s" using skip_ws_Cons_length [OF Cons] parse_shorter(1) [OF p] by simp_all
      then have "2 * length t + 3 \<le> n" using 4(3) by simp
      then show ?thesis
        using 4(2) [OF p refl Cons] unfolding parse_elems.simps(2) [of "Suc n" s] parse_elems.simps(2) [of n s] v p option.case prod.case Cons list.case
        by simp
    qed (simp only: parse_elems.simps v p option.case prod.case list.case)
  qed (simp only: parse_elems.simps v option.case)
next
  case (6 n s)
  show ?case
  proof (cases "skip_ws s")
    case (Cons q s')
    show ?thesis
    proof (cases "q = QUOTE")
      case True
      note s' = Cons [unfolded True]
      show ?thesis
      proof (cases "parse_str s'")
        case (Some kr)
        obtain k r where k: "parse_str s' = Some (k, r)" using Some by (cases kr) simp
        show ?thesis
        proof (cases "skip_ws r")
          case r': (Cons d r')
          have l: "length r' + 3 \<le> length s" using skip_ws_Cons_length [OF s'] parse_str_shorter [OF k] skip_ws_Cons_length [OF r'] by simp
          then have v: "parse_value (Suc n) r' = parse_value n r'" if "d = CHR '':''"
            using 6(1) [OF s' _ k refl r'] 6(3) that by simp
          have m: "parse_members (Suc n) t = parse_members n t" if "d = CHR '':''" "parse_value n r' = Some (x, r2)" "skip_ws r2 = CHR '','' # t" for x r2 t
          proof -
            have "length t < length r'" using skip_ws_Cons_length [OF that(3)] parse_shorter(1) [OF that(2)] by simp
            then show ?thesis using 6(2) [OF s' _ k refl r' _ that(2) refl that(3)] 6(3) l that(1) by simp
          qed
          show ?thesis
            unfolding parse_members.simps(2) [of "Suc n" s] parse_members.simps(2) [of n s] s' list.case k option.case prod.case r'
            using v m
            by (auto simp del: parse_value.simps parse_members.simps dropWhile_eq_Nil_conv split: option.splits list.splits)
        qed (simp only: parse_members.simps s' k option.case prod.case list.case)
      qed (simp only: parse_members.simps s' option.case list.case)
    qed (simp add: Cons)
  qed (simp only: parse_members.simps list.case)
qed simp_all

lemma parse_value_fuel:
  assumes "2 * length s + 2 \<le> n"
  shows "parse_value n s = parse_value (2 * length s + 2) s"
  using assms
proof (induction rule: dec_induct)
  case (step n)
  then show ?case using parse_fuel_step(1) [of s n] by simp
qed simp

end
