(* ===== verification/Go_Crypto.thy ===== *)
theory Go_Crypto
  imports Go_Text
begin

text \<open>
  The cryptographic parts of Go's standard library the program calls, as executable definitions:
  \<open>crypto/sha256\<close> (FIPS 180-4), \<open>crypto/aes\<close> (FIPS 197) with \<open>cipher.NewGCM\<close> (SP 800-38D, 96-bit
  nonces, 128-bit tags), and \<open>encoding/base64\<close>. The facts used by the components are the length of
  a digest, the length of a sealed message and that opening a sealed message returns it; no
  property of the primitives that is only computationally true is assumed anywhere.
\<close>

unbundle bit_operations_syntax

section \<open>SHA-256\<close>

type_synonym w32 = "32 word"

definition sha256_K :: "w32 list" where
  "sha256_K = [
     0x428A2F98, 0x71374491, 0xB5C0FBCF, 0xE9B5DBA5, 0x3956C25B, 0x59F111F1,
     0x923F82A4, 0xAB1C5ED5, 0xD807AA98, 0x12835B01, 0x243185BE, 0x550C7DC3,
     0x72BE5D74, 0x80DEB1FE, 0x9BDC06A7, 0xC19BF174, 0xE49B69C1, 0xEFBE4786,
     0x0FC19DC6, 0x240CA1CC, 0x2DE92C6F, 0x4A7484AA, 0x5CB0A9DC, 0x76F988DA,
     0x983E5152, 0xA831C66D, 0xB00327C8, 0xBF597FC7, 0xC6E00BF3, 0xD5A79147,
     0x06CA6351, 0x14292967, 0x27B70A85, 0x2E1B2138, 0x4D2C6DFC, 0x53380D13,
     0x650A7354, 0x766A0ABB, 0x81C2C92E, 0x92722C85, 0xA2BFE8A1, 0xA81A664B,
     0xC24B8B70, 0xC76C51A3, 0xD192E819, 0xD6990624, 0xF40E3585, 0x106AA070,
     0x19A4C116, 0x1E376C08, 0x2748774C, 0x34B0BCB5, 0x391C0CB3, 0x4ED8AA4A,
     0x5B9CCA4F, 0x682E6FF3, 0x748F82EE, 0x78A5636F, 0x84C87814, 0x8CC70208,
     0x90BEFFFA, 0xA4506CEB, 0xBEF9A3F7, 0xC67178F2]"

definition sha256_H0 :: "w32 list" where
  "sha256_H0 = [
     0x6A09E667, 0xBB67AE85, 0x3C6EF372, 0xA54FF53A,
     0x510E527F, 0x9B05688C, 0x1F83D9AB, 0x5BE0CD19]"

definition Ch :: "w32 \<Rightarrow> w32 \<Rightarrow> w32 \<Rightarrow> w32" where
  "Ch x y z = (x AND y) XOR (NOT x AND z)"

definition Maj :: "w32 \<Rightarrow> w32 \<Rightarrow> w32 \<Rightarrow> w32" where
  "Maj x y z = (x AND y) XOR (x AND z) XOR (y AND z)"

definition Sigma0 :: "w32 \<Rightarrow> w32" where
  "Sigma0 x = word_rotr 2 x XOR word_rotr 13 x XOR word_rotr 22 x"

definition Sigma1 :: "w32 \<Rightarrow> w32" where
  "Sigma1 x = word_rotr 6 x XOR word_rotr 11 x XOR word_rotr 25 x"

definition sigma0 :: "w32 \<Rightarrow> w32" where
  "sigma0 x = word_rotr 7 x XOR word_rotr 18 x XOR drop_bit 3 x"

definition sigma1 :: "w32 \<Rightarrow> w32" where
  "sigma1 x = word_rotr 17 x XOR word_rotr 19 x XOR drop_bit 10 x"

text \<open>Big-endian conversion between bytes and numbers.\<close>

definition be_nat :: "bytes \<Rightarrow> nat" where
  "be_nat bs = foldl (\<lambda>a c. 256 * a + bv c) 0 bs"

fun be_bytes :: "nat \<Rightarrow> nat \<Rightarrow> bytes" where
  "be_bytes 0 n = []"
| "be_bytes (Suc k) n = be_bytes k (n div 256) @ [bc (n mod 256)]"

lemma length_be_bytes [simp]: "length (be_bytes k n) = k"
  by (induction k arbitrary: n) auto

text \<open>The message schedule, newest word first.\<close>

fun sha256_extend :: "nat \<Rightarrow> w32 list \<Rightarrow> w32 list" where
  "sha256_extend 0 ws = ws"
| "sha256_extend (Suc n) ws =
     sha256_extend n ((sigma1 (ws ! 1) + ws ! 6 + sigma0 (ws ! 14) + ws ! 15) # ws)"

fun chunks_of :: "nat \<Rightarrow> nat \<Rightarrow> 'a list \<Rightarrow> 'a list list" where
  "chunks_of 0 k xs = []"
| "chunks_of (Suc n) k xs = take k xs # chunks_of n k (drop k xs)"

definition sha256_schedule :: "bytes \<Rightarrow> w32 list" where
  "sha256_schedule block =
     rev (sha256_extend 48 (rev (map (of_nat \<circ> be_nat) (chunks_of 16 4 block))))"

fun sha256_round :: "w32 list \<Rightarrow> w32 \<times> w32 \<Rightarrow> w32 list" where
  "sha256_round [a, b, c, d, e, f, g, h] (k, w) =
     (let t1 = h + Sigma1 e + Ch e f g + k + w; t2 = Sigma0 a + Maj a b c
      in [t1 + t2, a, b, c, d + t1, e, f, g])"
| "sha256_round st _ = st"

definition sha256_block :: "w32 list \<Rightarrow> bytes \<Rightarrow> w32 list" where
  "sha256_block hs block =
     map2 (+) hs (foldl sha256_round hs (zip sha256_K (sha256_schedule block)))"

definition sha256_pad :: "bytes \<Rightarrow> bytes" where
  "sha256_pad m =
     m @ bc 128 # replicate ((119 - length m mod 64) mod 64) NUL @ be_bytes 8 (8 * length m)"

definition sha256 :: "bytes \<Rightarrow> bytes" where
  "sha256 m =
     (let p = sha256_pad m;
          hs = foldl sha256_block sha256_H0 (chunks_of (length p div 64) 64 p)
      in concat (map (\<lambda>i. be_bytes 4 (unat (hs ! i))) [0..<8]))"

lemma length_sha256 [simp]: "length (sha256 m) = 32"
  by (simp add: sha256_def Let_def length_concat o_def upt_rec)

section \<open>AES\<close>

type_synonym byte = "8 word"

definition aes_sbox :: "nat list" where
  "aes_sbox = [
     99, 124, 119, 123, 242, 107, 111, 197, 48, 1, 103, 43, 254, 215, 171, 118,
     202, 130, 201, 125, 250, 89, 71, 240, 173, 212, 162, 175, 156, 164, 114, 192,
     183, 253, 147, 38, 54, 63, 247, 204, 52, 165, 229, 241, 113, 216, 49, 21,
     4, 199, 35, 195, 24, 150, 5, 154, 7, 18, 128, 226, 235, 39, 178, 117,
     9, 131, 44, 26, 27, 110, 90, 160, 82, 59, 214, 179, 41, 227, 47, 132,
     83, 209, 0, 237, 32, 252, 177, 91, 106, 203, 190, 57, 74, 76, 88, 207,
     208, 239, 170, 251, 67, 77, 51, 133, 69, 249, 2, 127, 80, 60, 159, 168,
     81, 163, 64, 143, 146, 157, 56, 245, 188, 182, 218, 33, 16, 255, 243, 210,
     205, 12, 19, 236, 95, 151, 68, 23, 196, 167, 126, 61, 100, 93, 25, 115,
     96, 129, 79, 220, 34, 42, 144, 136, 70, 238, 184, 20, 222, 94, 11, 219,
     224, 50, 58, 10, 73, 6, 36, 92, 194, 211, 172, 98, 145, 149, 228, 121,
     231, 200, 55, 109, 141, 213, 78, 169, 108, 86, 244, 234, 101, 122, 174, 8,
     186, 120, 37, 46, 28, 166, 180, 198, 232, 221, 116, 31, 75, 189, 139, 138,
     112, 62, 181, 102, 72, 3, 246, 14, 97, 53, 87, 185, 134, 193, 29, 158,
     225, 248, 152, 17, 105, 217, 142, 148, 155, 30, 135, 233, 206, 85, 40, 223,
     140, 161, 137, 13, 191, 230, 66, 104, 65, 153, 45, 15, 176, 84, 187, 22]"

definition sub_byte :: "byte \<Rightarrow> byte" where
  "sub_byte b = of_nat (aes_sbox ! unat b)"

definition xtime :: "byte \<Rightarrow> byte" where
  "xtime b = push_bit 1 b XOR (if bit b 7 then 0x1B else 0)"

definition aes_rcon :: "byte list" where
  "aes_rcon = [0x01, 0x02, 0x04, 0x08, 0x10, 0x20, 0x40, 0x80, 0x1B, 0x36]"

text \<open>The key schedule, newest four-byte word first; \<open>nk\<close> is the number of words of the key.\<close>

fun aes_expand :: "nat \<Rightarrow> nat \<Rightarrow> nat \<Rightarrow> byte list list \<Rightarrow> byte list list" where
  "aes_expand nk 0 i ws = ws"
| "aes_expand nk (Suc n) i ws =
     (let t = hd ws;
          t' = (if i mod nk = 0
                then (let s = map sub_byte (rotate1 t)
                      in (hd s XOR aes_rcon ! (i div nk - 1)) # tl s)
                else if 6 < nk \<and> i mod nk = 4 then map sub_byte t else t)
      in aes_expand nk n (Suc i) (map2 (XOR) (ws ! (nk - 1)) t' # ws))"

text \<open>The round keys, sixteen bytes each; a key of \<open>nk\<close> words has \<open>nk + 7\<close> of them.\<close>

definition aes_round_keys :: "bytes \<Rightarrow> byte list list" where
  "aes_round_keys key =
     (let nk = length key div 4;
          k = map (of_nat \<circ> bv) key;
          ws = rev (aes_expand nk (4 * (nk + 7) - nk) nk (rev (chunks_of nk 4 k)))
      in map concat (chunks_of (nk + 7) 4 ws))"

definition add_round_key :: "byte list \<Rightarrow> byte list \<Rightarrow> byte list" where
  "add_round_key st rk = map (\<lambda>i. st ! i XOR rk ! i) [0..<16]"

definition shift_rows :: "byte list \<Rightarrow> byte list" where
  "shift_rows st = map (\<lambda>i. st ! ((i + 4 * (i mod 4)) mod 16)) [0..<16]"

definition mix_columns :: "byte list \<Rightarrow> byte list" where
  "mix_columns st =
     map (\<lambda>i. let c = 4 * (i div 4); r = i mod 4;
                  x = (\<lambda>k. st ! (c + (r + k) mod 4))
              in xtime (x 0) XOR (xtime (x 1) XOR x 1) XOR x 2 XOR x 3) [0..<16]"

fun aes_rounds :: "byte list \<Rightarrow> byte list list \<Rightarrow> byte list" where
  "aes_rounds st [] = st"
| "aes_rounds st [k] = add_round_key (shift_rows (map sub_byte st)) k"
| "aes_rounds st (k # ks) =
     aes_rounds (add_round_key (mix_columns (shift_rows (map sub_byte st))) k) ks"

definition aes_block :: "byte list list \<Rightarrow> bytes \<Rightarrow> bytes" where
  "aes_block rks blk =
     (let st = aes_rounds (add_round_key (map (of_nat \<circ> bv) blk) (hd rks)) (tl rks)
      in map (\<lambda>i. bc (unat (st ! i))) [0..<16])"

lemma length_aes_block [simp]: "length (aes_block rks blk) = 16"
  by (simp add: aes_block_def Let_def)

section \<open>GCM\<close>

type_synonym w128 = "128 word"

definition ghash_mult :: "w128 \<Rightarrow> w128 \<Rightarrow> w128" where
  "ghash_mult x y =
     fst (foldl (\<lambda>(z, v) i.
            (if bit x (127 - i) then z XOR v else z,
             if bit v 0 then drop_bit 1 v XOR 0xE1000000000000000000000000000000 else drop_bit 1 v))
          (0, y) [0..<128])"

definition pad16 :: "bytes \<Rightarrow> bytes" where
  "pad16 bs = bs @ replicate ((16 - length bs mod 16) mod 16) NUL"

definition ghash :: "w128 \<Rightarrow> bytes \<Rightarrow> bytes \<Rightarrow> bytes" where
  "ghash h ad ct =
     (let d = pad16 ad @ pad16 ct @ be_bytes 8 (8 * length ad) @ be_bytes 8 (8 * length ct)
      in be_bytes 16 (unat
           (foldl (\<lambda>y b. ghash_mult (y XOR of_nat (be_nat b)) h) 0 (chunks_of (length d div 16) 16 d))))"

definition xor_bytes :: "bytes \<Rightarrow> bytes \<Rightarrow> bytes" where
  "xor_bytes = map2 (\<lambda>a b. bc (unat ((of_nat (bv a) :: byte) XOR of_nat (bv b))))"

text \<open>The counter block of a 96-bit nonce and the key stream that starts at counter 2.\<close>

definition ctr_block :: "bytes \<Rightarrow> nat \<Rightarrow> bytes" where
  "ctr_block nonce c = nonce @ be_bytes 4 (c mod 2 ^ 32)"

definition key_stream :: "byte list list \<Rightarrow> bytes \<Rightarrow> nat \<Rightarrow> bytes" where
  "key_stream rks nonce n =
     take n (concat (map (\<lambda>i. aes_block rks (ctr_block nonce (2 + i))) [0..<(n + 15) div 16]))"

definition gcm_tag :: "byte list list \<Rightarrow> bytes \<Rightarrow> bytes \<Rightarrow> bytes \<Rightarrow> bytes" where
  "gcm_tag rks nonce ad ct =
     xor_bytes (aes_block rks (ctr_block nonce 1))
       (ghash (of_nat (be_nat (aes_block rks (replicate 16 NUL)))) ad ct)"

text \<open>\<open>cipher.AEAD.Seal\<close> and \<open>Open\<close>; \<open>NonceSize\<close> is 12 and \<open>Overhead\<close> is 16.\<close>

definition gcm_seal :: "bytes \<Rightarrow> bytes \<Rightarrow> bytes \<Rightarrow> bytes \<Rightarrow> bytes" where
  "gcm_seal key nonce pt ad =
     (let rks = aes_round_keys key; ct = xor_bytes pt (key_stream rks nonce (length pt))
      in ct @ gcm_tag rks nonce ad ct)"

definition gcm_open :: "bytes \<Rightarrow> bytes \<Rightarrow> bytes \<Rightarrow> bytes \<Rightarrow> bytes option" where
  "gcm_open key nonce sealed ad =
     (if length sealed < 16 then None
      else
        let rks = aes_round_keys key;
            ct = take (length sealed - 16) sealed
        in if drop (length sealed - 16) sealed = gcm_tag rks nonce ad ct
           then Some (xor_bytes ct (key_stream rks nonce (length ct)))
           else None)"

lemma length_xor_bytes [simp]: "length (xor_bytes a b) = min (length a) (length b)"
  by (simp add: xor_bytes_def)

lemma length_key_stream [simp]: "length (key_stream rks nonce n) = n"
proof -
  have "n \<le> (n + 15) div 16 * 16" by linarith
  then show ?thesis by (simp add: key_stream_def length_concat o_def sum_list_triv)
qed

lemma length_gcm_tag [simp]: "length (gcm_tag rks nonce ad ct) = 16"
  by (simp add: gcm_tag_def ghash_def Let_def)

lemma length_gcm_seal [simp]: "length (gcm_seal key nonce pt ad) = length pt + 16"
  by (simp add: gcm_seal_def Let_def)

lemma unat_byte_mod [simp]: "unat (w :: byte) mod 256 = unat w"
  using unsigned_less [of w, where 'a = nat] by simp

lemma bc_unat_byte [simp]: "bc (unat (of_nat (bv a) :: byte)) = a"
  by (simp add: unat_of_nat)

lemma xor_byte_twice:
  "bc (unat ((of_nat (bv (bc (unat ((of_nat (bv a) :: byte) XOR of_nat (bv b))))) :: byte) XOR of_nat (bv b))) = a"
  by (simp add: xor.assoc)

lemma xor_bytes_twice: "length a \<le> length b \<Longrightarrow> xor_bytes (xor_bytes a b) b = a"
proof (induction a arbitrary: b)
  case (Cons x xs)
  then obtain y ys where "b = y # ys" by (cases b) auto
  with Cons show ?case by (simp add: xor_bytes_def xor_byte_twice del: bv_bc)
qed (simp add: xor_bytes_def)

theorem gcm_open_seal: "gcm_open key nonce (gcm_seal key nonce pt ad) ad = Some pt"
  by (simp add: gcm_open_def gcm_seal_def Let_def xor_bytes_twice)

section \<open>Base64\<close>

text \<open>
  \<open>base64.RawURLEncoding\<close> (no padding) and \<open>base64.StdEncoding\<close> (padded). Decoding skips carriage
  returns and line feeds and, as Go does outside strict mode, ignores the unused low bits of the
  last digit.
\<close>

definition b64_digit :: "bool \<Rightarrow> nat \<Rightarrow> char" where
  "b64_digit url n =
     (if n < 26 then bc (65 + n) else if n < 52 then bc (71 + n) else if n < 62 then bc (n - 4)
      else if n = 62 then (if url then CHR ''-'' else CHR ''+'') else (if url then CHR ''_'' else CHR ''/''))"

definition b64_val :: "bool \<Rightarrow> char \<Rightarrow> nat option" where
  "b64_val url c =
     (let n = bv c in
      if 65 \<le> n \<and> n \<le> 90 then Some (n - 65) else if 97 \<le> n \<and> n \<le> 122 then Some (n - 71)
      else if 48 \<le> n \<and> n \<le> 57 then Some (n + 4)
      else if c = (if url then CHR ''-'' else CHR ''+'') then Some 62
      else if c = (if url then CHR ''_'' else CHR ''/'') then Some 63 else None)"

fun b64_encode_raw :: "bytes \<Rightarrow> string" where
  "b64_encode_raw [] = []"
| "b64_encode_raw [a] =
     [b64_digit True (bv a div 4), b64_digit True (bv a mod 4 * 16)]"
| "b64_encode_raw [a, b] =
     [b64_digit True (bv a div 4), b64_digit True (bv a mod 4 * 16 + bv b div 16),
      b64_digit True (bv b mod 16 * 4)]"
| "b64_encode_raw (a # b # c # s) =
     b64_digit True (bv a div 4) # b64_digit True (bv a mod 4 * 16 + bv b div 16) #
     b64_digit True (bv b mod 16 * 4 + bv c div 64) # b64_digit True (bv c mod 64) # b64_encode_raw s"

text \<open>The digits of one quantum: one, two or three bytes out of two, three or four digits.\<close>

fun b64_quantum :: "nat list \<Rightarrow> bytes option" where
  "b64_quantum [] = Some []"
| "b64_quantum [a] = None"
| "b64_quantum [a, b] = Some [bc (a * 4 + b div 16)]"
| "b64_quantum [a, b, c] = Some [bc (a * 4 + b div 16), bc (b mod 16 * 16 + c div 4)]"
| "b64_quantum (a # b # c # d # ds) =
     map_option (\<lambda>r. bc (a * 4 + b div 16) # bc (b mod 16 * 16 + c div 4) # bc (c mod 4 * 64 + d) # r)
       (b64_quantum ds)"

fun all_some :: "'a option list \<Rightarrow> 'a list option" where
  "all_some [] = Some []"
| "all_some (None # xs) = None"
| "all_some (Some x # xs) = map_option ((#) x) (all_some xs)"

definition strip_newlines :: "string \<Rightarrow> string" where
  "strip_newlines = filter (\<lambda>c. c \<noteq> CR \<and> c \<noteq> LF)"

definition RawURL_Decode :: "string \<Rightarrow> bytes option" where
  "RawURL_Decode s = Option.bind (all_some (map (b64_val True) (strip_newlines s))) b64_quantum"

definition Std_Decode :: "string \<Rightarrow> bytes option" where
  "Std_Decode s =
     (let t = strip_newlines s; n = length t;
          d = (if 2 \<le> n \<and> drop (n - 2) t = ''=='' then take (n - 2) t
               else if 1 \<le> n \<and> drop (n - 1) t = ''='' then take (n - 1) t else t)
      in if n mod 4 \<noteq> 0 then None
         else Option.bind (all_some (map (b64_val False) d)) b64_quantum)"

lemma b64_val_digit [simp]: "n < 64 \<Longrightarrow> b64_val url (b64_digit url n) = Some n"
  by (auto simp: b64_val_def b64_digit_def Let_def bv_def [of "CHR ''-''"] bv_def [of "CHR ''+''"]
      bv_def [of "CHR ''_''"] bv_def [of "CHR ''/''"] dest: arg_cong [of _ _ bv])

lemma b64_digit_not_newline [simp]: "n < 64 \<Longrightarrow> b64_digit True n \<noteq> CR \<and> b64_digit True n \<noteq> LF"
proof -
  assume "n < 64"
  then have "b64_val True (b64_digit True n) \<noteq> None" by simp
  moreover have "b64_val True CR = None" "b64_val True LF = None"
    by (simp_all add: b64_val_def bv_def Let_def)
  ultimately show ?thesis by metis
qed

lemma bv_bounds [simp]: "bv c div 4 < 64" "bv c mod 4 * 16 < 64" "bv c mod 4 * 16 + bv d div 16 < 64"
  "bv c mod 16 * 4 < 64" "bv c mod 16 * 4 + bv d div 64 < 64"
  using bv_less [of c] bv_less [of d] by linarith+

lemma bv_div_64 [simp]: "bv c div 64 div 4 = 0" "bv c div 64 mod 4 = bv c div 64"
proof -
  have "bv c div 64 < 4" using bv_less [of c] by linarith
  then show "bv c div 64 div 4 = 0" "bv c div 64 mod 4 = bv c div 64" by (rule div_less, rule mod_less)
qed

lemma b64_rejoin:
  "bv a div 4 * 4 + bv a mod 4 * 16 div 16 = bv a"
  "bv a div 4 * 4 + (bv a mod 4 * 16 + bv b div 16) div 16 = bv a"
  "(bv a mod 4 * 16 + bv b div 16) mod 16 * 16 + bv b mod 16 * 4 div 4 = bv b"
  "(bv a mod 4 * 16 + bv b div 16) mod 16 * 16 + (bv b mod 16 * 4 + bv c div 64) div 4 = bv b"
  "(bv b mod 16 * 4 + bv c div 64) mod 4 * 64 + bv c mod 64 = bv c"
proof -
  have c: "bv c div 64 < 4" using bv_less [of c] by linarith
  show "bv a div 4 * 4 + bv a mod 4 * 16 div 16 = bv a" by simp
  show "bv a div 4 * 4 + (bv a mod 4 * 16 + bv b div 16) div 16 = bv a"
    by (simp only: field_div bv_div_16) simp
  show "(bv a mod 4 * 16 + bv b div 16) mod 16 * 16 + bv b mod 16 * 4 div 4 = bv b"
    by (simp only: field_mod bv_div_16) simp
  show "(bv a mod 4 * 16 + bv b div 16) mod 16 * 16 + (bv b mod 16 * 4 + bv c div 64) div 4 = bv b"
    by (simp only: field_mod field_div bv_div_16 c) simp
  show "(bv b mod 16 * 4 + bv c div 64) mod 4 * 64 + bv c mod 64 = bv c"
    by (simp only: field_mod c) simp
qed

theorem RawURL_roundtrip: "RawURL_Decode (b64_encode_raw s) = Some s"
proof -
  have "Option.bind (all_some (map (b64_val True) (strip_newlines (b64_encode_raw s)))) b64_quantum = Some s"
    by (induction s rule: b64_encode_raw.induct)
      (auto simp: strip_newlines_def b64_rejoin bind_eq_Some_conv)
  then show ?thesis by (simp add: RawURL_Decode_def)
qed

lemma b64_encode_raw_inject [simp]: "b64_encode_raw s = b64_encode_raw t \<longleftrightarrow> s = t"
  by (metis RawURL_roundtrip option.inject)

end
