(* ===== verification/Domain.thy ===== *)
theory Domain
  imports Go_JSON Go_Crypto
begin

text \<open>
  Package \<open>internal/domain\<close>: the job record, the job state machine, content normalization and the
  approval hash. The lemmas show what the transition table allows over whole job histories, what a
  normalized text looks like, and that an approval hash binds content, destinations and schedule.
\<close>

section \<open>Types (types.go)\<close>

datatype JobState =
    StateDraft | StateApproved | StateRouting | StatePublishing | StateComplete
  | StatePartial | StateFailed | StateUnknown | StateCancelled

text \<open>The values of \<open>domain.Platform\<close> and \<open>domain.ReceiptState\<close> are strings.\<close>

type_synonym platform = string
type_synonym receipt_state = string

definition PlatformX :: platform where "PlatformX = ''x''"
definition PlatformNostr :: platform where "PlatformNostr = ''nostr''"

definition ReceiptPending :: receipt_state where "ReceiptPending = ''PENDING''"
definition ReceiptSuccess :: receipt_state where "ReceiptSuccess = ''SUCCESS''"
definition ReceiptPartial :: receipt_state where "ReceiptPartial = ''PARTIAL''"
definition ReceiptFailed :: receipt_state where "ReceiptFailed = ''FAILED''"
definition ReceiptUnknown :: receipt_state where "ReceiptUnknown = ''UNKNOWN''"

record PostJob =
  job_id :: string
  EncryptedContent :: "bytes option"
  PayloadHash :: string
  PostToX :: bool
  PostToNostr :: bool
  job_state :: JobState
  ApprovedAt :: "time option"
  ScheduledAt :: "time option"
  CreatedAt :: time
  UpdatedAt :: time
  LastNostrCountry :: string
  ContentDestroyed :: bool

record PlatformReceipt =
  rc_id :: int
  rc_job_id :: string
  rc_platform :: platform
  rc_state :: receipt_state
  rc_external_id :: string
  rc_country_code :: string
  rc_attempt_count :: int
  rc_relay_accepted :: int
  rc_relay_attempted :: int
  rc_safe_error :: string
  rc_created_at :: time

record JobSummary =
  js_id :: string
  js_payload_hash :: string
  js_post_to_x :: bool
  js_post_to_nostr :: bool
  js_state :: JobState
  js_approved_at :: "time option"
  js_scheduled_at :: "time option"
  js_created_at :: time
  js_updated_at :: time
  js_content_destroyed :: bool
  js_receipts :: "PlatformReceipt list"

record AuditEvent =
  ev_id :: int
  ev_job_id :: string
  ev_kind :: string
  ev_detail :: string
  ev_created_at :: time

record EgressHealth =
  eh_endpoint_id :: string
  eh_country :: string
  eh_provider :: string
  eh_healthy :: bool
  eh_fresh_until :: time
  eh_failures :: int

record SystemState =
  EmergencyStopped :: bool
  StopReason :: string
  StopUpdatedAt :: time

text \<open>The nine states are enumerable, so statements about all of them can be decided.\<close>

instantiation JobState :: enum
begin

definition enum_JobState :: "JobState list" where
  "enum_JobState =
     [StateDraft, StateApproved, StateRouting, StatePublishing, StateComplete, StatePartial,
      StateFailed, StateUnknown, StateCancelled]"

definition enum_all_JobState :: "(JobState \<Rightarrow> bool) \<Rightarrow> bool" where
  "enum_all_JobState P \<longleftrightarrow> list_all P enum_class.enum"

definition enum_ex_JobState :: "(JobState \<Rightarrow> bool) \<Rightarrow> bool" where
  "enum_ex_JobState P \<longleftrightarrow> list_ex P enum_class.enum"

instance
proof
  have all: "s \<in> set (enum_class.enum :: JobState list)" for s
    by (cases s) (simp_all add: enum_JobState_def)
  then show "UNIV = set (enum_class.enum :: JobState list)" by auto
  show "distinct (enum_class.enum :: JobState list)" by (simp add: enum_JobState_def)
  show "enum_class.enum_all P \<longleftrightarrow> Ball UNIV P" for P :: "JobState \<Rightarrow> bool"
    using all by (auto simp: enum_all_JobState_def list_all_iff)
  show "enum_class.enum_ex P \<longleftrightarrow> Bex UNIV P" for P :: "JobState \<Rightarrow> bool"
    using all by (auto simp: enum_ex_JobState_def list_ex_iff)
qed

end

section \<open>The job state machine (state.go)\<close>

text \<open>
  The table \<open>transitions\<close>: a missing row is a nil map, whose every lookup is false.
\<close>

fun transitions :: "JobState \<Rightarrow> JobState list" where
  "transitions StateDraft = [StateApproved, StateCancelled]"
| "transitions StateApproved = [StateRouting, StateCancelled]"
| "transitions StateRouting = [StatePublishing, StateFailed, StateCancelled]"
| "transitions StatePublishing = [StateComplete, StatePartial, StateFailed, StateUnknown]"
| "transitions StatePartial = [StatePublishing, StateComplete, StateFailed, StateUnknown]"
| "transitions StateFailed = [StateRouting, StateCancelled]"
| "transitions StateUnknown = [StateComplete, StateFailed, StatePartial]"
| "transitions _ = []"

definition CanTransition :: "JobState \<Rightarrow> JobState \<Rightarrow> bool" where
  "CanTransition from to \<longleftrightarrow> to \<in> set (transitions from)"

definition ValidateTransition :: "JobState \<Rightarrow> JobState \<Rightarrow> go_error + unit" where
  "ValidateTransition from to =
     (if \<not> CanTransition from to then Inl (Sentinel ErrInvalidTransition) else Inr ())"

text \<open>
  A history is the list of states a job goes through, each entered from the one before by an
  allowed transition.
\<close>

inductive history :: "JobState \<Rightarrow> JobState list \<Rightarrow> JobState \<Rightarrow> bool" where
  stay: "history s [s] s"
| enter: "history s h t \<Longrightarrow> CanTransition t u \<Longrightarrow> history s (h @ [u]) u"

inductive_cases historyE: "history s h t"

section \<open>Content and approval (state.go)\<close>

definition NormalizeContent :: "string \<Rightarrow> go_error + string" where
  "NormalizeContent content =
     (let content = replace_crlf content;
          content = replace_cr content
      in if \<not> ValidString content \<or> NUL \<in> set content \<or> TrimSpace content = []
         then Inl (Sentinel ErrInvalidContent)
         else Inr content)"

text \<open>The payload of \<open>ApprovalHash\<close>: its struct in declaration order, as \<open>json.Marshal\<close> prints it.\<close>

definition approval_document :: "string \<Rightarrow> bool \<Rightarrow> bool \<Rightarrow> string \<Rightarrow> json" where
  "approval_document content postToX postToNostr scheduledAt =
     JObj [(''version'', JNum ''1''), (''content'', JStr content), (''post_to_x'', JBool postToX),
           (''post_to_nostr'', JBool postToNostr), (''scheduled_at'', JStr scheduledAt)]"

definition approval_payload :: "string \<Rightarrow> bool \<Rightarrow> bool \<Rightarrow> string \<Rightarrow> bytes" where
  "approval_payload content postToX postToNostr scheduledAt =
     json_print True (approval_document content postToX postToNostr scheduledAt)"

definition ApprovalHash :: "string \<Rightarrow> bool \<Rightarrow> bool \<Rightarrow> string \<Rightarrow> go_error + string" where
  "ApprovalHash content postToX postToNostr scheduledAt =
     (if \<not> postToX \<and> \<not> postToNostr then Inl (Sentinel ErrNoDestination)
      else
        case NormalizeContent content of
          Inl err \<Rightarrow> Inl err
        | Inr normalized \<Rightarrow>
            Inr (hex_encode (sha256 (approval_payload normalized postToX postToNostr scheduledAt))))"

section \<open>Properties of the state machine\<close>

lemma CanTransition_simps [simp]:
  "CanTransition StateDraft u \<longleftrightarrow> u = StateApproved \<or> u = StateCancelled"
  "CanTransition StateApproved u \<longleftrightarrow> u = StateRouting \<or> u = StateCancelled"
  "CanTransition StateRouting u \<longleftrightarrow> u = StatePublishing \<or> u = StateFailed \<or> u = StateCancelled"
  "CanTransition StatePublishing u \<longleftrightarrow>
     u = StateComplete \<or> u = StatePartial \<or> u = StateFailed \<or> u = StateUnknown"
  "CanTransition StatePartial u \<longleftrightarrow>
     u = StatePublishing \<or> u = StateComplete \<or> u = StateFailed \<or> u = StateUnknown"
  "CanTransition StateFailed u \<longleftrightarrow> u = StateRouting \<or> u = StateCancelled"
  "CanTransition StateUnknown u \<longleftrightarrow> u = StateComplete \<or> u = StateFailed \<or> u = StatePartial"
  "CanTransition StateComplete u \<longleftrightarrow> False"
  "CanTransition StateCancelled u \<longleftrightarrow> False"
  by (simp_all add: CanTransition_def)

lemma history_last: "history s h t \<Longrightarrow> h \<noteq> [] \<and> hd h = s \<and> last h = t"
  by (induction rule: history.induct) auto

text \<open>Histories can be checked step by step.\<close>

lemma history_iff:
  "history s h t \<longleftrightarrow> h \<noteq> [] \<and> hd h = s \<and> last h = t \<and> successively CanTransition h"
proof
  show "history s h t \<Longrightarrow> h \<noteq> [] \<and> hd h = s \<and> last h = t \<and> successively CanTransition h"
    by (induction rule: history.induct) (auto simp: successively_append_iff)
  show "h \<noteq> [] \<and> hd h = s \<and> last h = t \<and> successively CanTransition h \<Longrightarrow> history s h t"
  proof (induction h arbitrary: t rule: rev_induct)
    case (snoc u h)
    then show ?case
      by (cases "h = []") (auto simp: successively_append_iff intro: history.intros)
  qed simp
qed

text \<open>
  The history invariant from a draft: any state beyond approval has approval behind it, and any
  state that publishing can lead to has routing behind it as well.
\<close>

lemma draft_history_inv:
  "history StateDraft h t \<Longrightarrow>
     (t \<notin> {StateDraft, StateCancelled} \<longrightarrow> StateApproved \<in> set h) \<and>
     (t \<notin> {StateDraft, StateApproved, StateCancelled} \<longrightarrow> StateRouting \<in> set h)"
proof (induction StateDraft h t rule: history.induct)
  case stay
  show ?case by simp
next
  case (enter h t u)
  then show ?case by (cases t) auto
qed

text \<open>The prefix of a history that ends in a state is a history of that state.\<close>

lemma history_prefix:
  "history s h t \<Longrightarrow> i < length h \<Longrightarrow> history s (take (Suc i) h) (h ! i)"
proof (induction arbitrary: i rule: history.induct)
  case (stay s)
  then show ?case by (auto intro: history.stay)
next
  case (enter s h t u)
  show ?case
  proof (cases "i < length h")
    case True
    with enter show ?thesis by (simp add: nth_append)
  next
    case False
    with enter.prems have "i = length h" by simp
    with enter.hyps show ?thesis by (auto intro: history.enter)
  qed
qed

lemma history_nth_prefix_set:
  assumes "history StateDraft h t" and "i < length h"
    and "h ! i \<notin> {StateDraft, StateCancelled, s}" and "s \<noteq> StateDraft"
    and "\<And>h' t'. history StateDraft h' t' \<Longrightarrow> t' \<notin> {StateDraft, StateCancelled} \<Longrightarrow> t' = h ! i \<Longrightarrow>
           s \<in> set h'"
  obtains j where "j < i" and "h ! j = s"
proof -
  have "history StateDraft (take (Suc i) h) (h ! i)"
    using assms(1,2) by (rule history_prefix)
  with assms have "s \<in> set (take (Suc i) h)" by blast
  then obtain j where "j < Suc i" "j < length h" "h ! j = s"
    by (auto simp: in_set_conv_nth)
  moreover from this assms(3) have "j \<noteq> i" by auto
  ultimately show ?thesis using that by (simp add: less_Suc_eq)
qed

text \<open>
  C1: in every history of a job that starts as a draft, publishing is preceded by routing and
  routing by approval: nothing is published that was not approved first.
\<close>

theorem publishing_needs_approval:
  assumes "history StateDraft h t" and "i < length h" and "h ! i = StatePublishing"
  shows "\<exists>j k. j < k \<and> k < i \<and> h ! j = StateApproved \<and> h ! k = StateRouting"
proof -
  obtain k where k: "k < i" "h ! k = StateRouting"
    using assms by (rule_tac history_nth_prefix_set [of h t i StateRouting])
      (auto dest!: draft_history_inv)
  obtain j where "j < k" "h ! j = StateApproved"
    using assms k by (rule_tac history_nth_prefix_set [of h t k StateApproved])
      (auto dest!: draft_history_inv)
  with k show ?thesis by blast
qed

definition shipped_history :: "JobState list" where
  "shipped_history =
     [StateDraft, StateApproved, StateRouting, StatePublishing, StateUnknown, StatePartial,
      StatePublishing]"

lemma shipped_history: "history StateDraft shipped_history StatePublishing"
  by (simp add: history_iff shipped_history_def)

theorem publishing_needs_approval_witness:
  "\<exists>j k. j < k \<and> k < (6::nat) \<and> shipped_history ! j = StateApproved \<and> shipped_history ! k = StateRouting"
  using publishing_needs_approval [OF shipped_history, of 6] by (simp add: shipped_history_def)

text \<open>What lies between an ambiguous or published state and a later one.\<close>

lemma unknown_history_inv:
  "history StateUnknown h t \<Longrightarrow> t \<noteq> StateUnknown \<Longrightarrow> t \<noteq> StateComplete \<Longrightarrow> StateFailed \<in> set h \<or> StatePartial \<in> set h"
proof (induction StateUnknown h t rule: history.induct)
  case (enter h t u)
  then show ?case by (cases t) auto
qed simp

lemma publishing_history_inv:
  "history StatePublishing h t \<Longrightarrow>
   t \<notin> {StatePublishing, StateComplete, StatePartial, StateUnknown} \<Longrightarrow> StateFailed \<in> set h"
proof (induction StatePublishing h t rule: history.induct)
  case (enter h t u)
  then show ?case by (cases t) auto
qed simp

text \<open>
  C2: no blind resend and no hidden success. A job in UNKNOWN is published again only after it was
  resolved to FAILED or PARTIAL, and a job that began publishing is cancelled only after FAILED.
\<close>

theorem ambiguous_never_resent:
  "(history StateUnknown h StatePublishing \<longrightarrow> StateFailed \<in> set h \<or> StatePartial \<in> set h) \<and>
   (history StatePublishing h StateCancelled \<longrightarrow> StateFailed \<in> set h)"
  by (simp add: unknown_history_inv publishing_history_inv)

theorem ambiguous_never_resent_witness:
  "history StateUnknown [StateUnknown, StatePartial, StatePublishing] StatePublishing \<and>
   (StateFailed \<in> set [StateUnknown, StatePartial, StatePublishing] \<or> StatePartial \<in> set [StateUnknown, StatePartial, StatePublishing]) \<and>
   history StatePublishing [StatePublishing, StateFailed, StateCancelled] StateCancelled \<and>
   StateFailed \<in> set [StatePublishing, StateFailed, StateCancelled]"
proof -
  have "history StateUnknown [StateUnknown, StatePartial, StatePublishing] StatePublishing"
    "history StatePublishing [StatePublishing, StateFailed, StateCancelled] StateCancelled"
    by (simp_all add: history_iff)
  then show ?thesis
    using ambiguous_never_resent [of "[StateUnknown, StatePartial, StatePublishing]"]
      ambiguous_never_resent [of "[StatePublishing, StateFailed, StateCancelled]"] by blast
qed

text \<open>
  Exactly COMPLETE and CANCELLED are final, and every state can still reach one of them, so no
  job is stuck.
\<close>

theorem final_states:
  "((\<forall>u. \<not> CanTransition s u) = (s \<in> {StateComplete, StateCancelled})) \<and>
   (\<exists>h t. history s h t \<and> t \<in> {StateComplete, StateCancelled})"
proof -
  have one: "history s [s, u] u" if "CanTransition s u" for u
    using history.enter [OF history.stay that] by simp
  have "(\<forall>u. \<not> CanTransition s u) = (s \<in> {StateComplete, StateCancelled})"
    by (cases s) auto
  moreover have "\<exists>h t. history s h t \<and> t \<in> {StateComplete, StateCancelled}"
  proof (cases "s \<in> {StateComplete, StateCancelled}")
    case True
    then show ?thesis by (blast intro: history.stay)
  next
    case False
    then have "CanTransition s StateComplete \<or> CanTransition s StateCancelled" by (cases s) auto
    then show ?thesis by (blast intro: one)
  qed
  ultimately show ?thesis by blast
qed

section \<open>Properties of normalization\<close>

lemma replace_crlf_no_cr: "CR \<notin> set s \<Longrightarrow> replace_crlf s = s"
  by (induction s rule: replace_crlf.induct) auto

lemma replace_cr_no_cr: "CR \<notin> set (replace_cr s)"
  by (auto simp: replace_cr_def)

lemma replace_cr_id: "CR \<notin> set s \<Longrightarrow> replace_cr s = s"
  by (induction s) (auto simp: replace_cr_def)

text \<open>The text with its line ends converted, as a single pass: the reference for normalization.\<close>

fun unix_lines :: "string \<Rightarrow> string" where
  "unix_lines [] = []"
| "unix_lines (c # s) =
     (if c = CR then (case s of d # t \<Rightarrow> if d = LF then LF # unix_lines t else LF # unix_lines s | [] \<Rightarrow> [LF])
      else c # unix_lines s)"

lemma normalize_unix_lines: "replace_cr (replace_crlf s) = unix_lines s"
  by (induction s rule: replace_crlf.induct) (auto simp: replace_cr_def split: list.splits)

lemma NormalizeContent_Inr:
  "NormalizeContent c = Inr d \<longleftrightarrow>
     d = unix_lines c \<and> ValidString d \<and> NUL \<notin> set d \<and> \<not> list_all IsSpace (runes d)"
  by (auto simp: NormalizeContent_def Let_def normalize_unix_lines TrimSpace_eq_Nil)

lemma unix_lines_no_cr: "CR \<notin> set (unix_lines s)"
  using replace_cr_no_cr normalize_unix_lines by metis

lemma unix_lines_id: "CR \<notin> set s \<Longrightarrow> unix_lines s = s"
  by (simp add: normalize_unix_lines [symmetric] replace_crlf_no_cr replace_cr_id)

lemma NormalizeContent_idem: "NormalizeContent c = Inr d \<Longrightarrow> NormalizeContent d = Inr d"
  using unix_lines_no_cr unix_lines_id by (auto simp: NormalizeContent_Inr)

text \<open>
  C3: normalization is a single-pass conversion of CRLF and CR to LF followed by validation; its
  result is valid UTF-8 without CR or NUL, is not blank, and normalizes to itself.
\<close>

theorem normalize_content_correct:
  "NormalizeContent content =
     (let d = unix_lines content
      in if ValidString d \<and> NUL \<notin> set d \<and> \<not> list_all IsSpace (runes d)
         then Inr d else Inl (Sentinel ErrInvalidContent)) \<and>
   CR \<notin> set (unix_lines content) \<and>
   (\<forall>d. NormalizeContent content = Inr d \<longrightarrow> NormalizeContent d = Inr d)"
proof (intro conjI allI impI)
  show "NormalizeContent content =
     (let d = unix_lines content
      in if ValidString d \<and> NUL \<notin> set d \<and> \<not> list_all IsSpace (runes d)
         then Inr d else Inl (Sentinel ErrInvalidContent))"
    by (auto simp: NormalizeContent_def Let_def normalize_unix_lines TrimSpace_eq_Nil)
  show "CR \<notin> set (unix_lines content)" by (rule unix_lines_no_cr)
  show "NormalizeContent d = Inr d" if "NormalizeContent content = Inr d" for d
    using that by (rule NormalizeContent_idem)
qed

definition sample_post :: string where
  "sample_post = [CHR ''h'', CHR ''i'', CR, LF, CHR ''!'']"

lemma normalize_sample: "NormalizeContent sample_post = Inr [CHR ''h'', CHR ''i'', LF, CHR ''!'']"
  by (simp add: NormalizeContent_Inr sample_post_def) (simp add: bv_def runes_ascii ascii_def IsSpace_def)

theorem normalize_content_correct_witness:
  "NormalizeContent [CHR ''h'', CHR ''i'', LF, CHR ''!''] = Inr [CHR ''h'', CHR ''i'', LF, CHR ''!'']"
  using normalize_content_correct [of sample_post] normalize_sample by blast

section \<open>Properties of the approval hash\<close>

lemma json_wf_approval: "ValidString c \<Longrightarrow> ValidString t \<Longrightarrow> json_wf (approval_document c x n t)"
proof -
  have "show_int 1 = ''1''" by (simp add: show_int_def show_nat.simps) (rule bc_eqI, simp add: bv_def)
  then have "\<exists>i. ''1'' = show_int i" by metis
  moreover have "ValidString ''version''" "ValidString ''content''" "ValidString ''post_to_x''"
    "ValidString ''post_to_nostr''" "ValidString ''scheduled_at''"
    by (simp_all add: ascii_ValidString ascii_def bv_def)
  ultimately show "ValidString c \<Longrightarrow> ValidString t \<Longrightarrow> ?thesis" by (simp add: approval_document_def)
qed

lemma approval_payload_inject:
  assumes "ValidString c" "ValidString t" "ValidString c'" "ValidString t'"
  shows "approval_payload c x n t = approval_payload c' x' n' t' \<longleftrightarrow> c = c' \<and> x = x' \<and> n = n' \<and> t = t'"
proof -
  have "approval_payload c x n t = approval_payload c' x' n' t' \<longleftrightarrow>
      approval_document c x n t = approval_document c' x' n' t'"
    unfolding approval_payload_def using assms by (intro json_print_inject json_wf_approval)
  then show ?thesis by (auto simp: approval_document_def)
qed

lemma ApprovalHash_Inr:
  "ApprovalHash c x n t = Inr h \<longleftrightarrow>
     (x \<or> n) \<and> (\<exists>d. NormalizeContent c = Inr d \<and> h = hex_encode (sha256 (approval_payload d x n t)))"
  by (auto simp: ApprovalHash_def split: sum.splits)

text \<open>
  C4: the approval hash binds the normalized content, both destination flags and the schedule. Two
  requests with the same hash agree on all four, unless their two encoded payloads are different
  byte strings with the same SHA-256 digest.
\<close>

theorem approval_hash_binds:
  assumes "ApprovalHash c x n t = Inr h" and "ApprovalHash c' x' n' t' = Inr h"
    and "ValidString t" and "ValidString t'"
  shows "(NormalizeContent c = NormalizeContent c' \<and> x = x' \<and> n = n' \<and> t = t') \<or>
    (\<exists>d d'. NormalizeContent c = Inr d \<and> NormalizeContent c' = Inr d' \<and>
       approval_payload d x n t \<noteq> approval_payload d' x' n' t' \<and>
       sha256 (approval_payload d x n t) = sha256 (approval_payload d' x' n' t'))"
proof -
  from assms(1,2) obtain d d' where d: "NormalizeContent c = Inr d" "NormalizeContent c' = Inr d'"
      and eq: "sha256 (approval_payload d x n t) = sha256 (approval_payload d' x' n' t')"
    by (auto simp: ApprovalHash_Inr)
  then have "ValidString d" "ValidString d'" by (auto simp: NormalizeContent_Inr)
  with assms(3,4) have "approval_payload d x n t = approval_payload d' x' n' t' \<longleftrightarrow>
      d = d' \<and> x = x' \<and> n = n' \<and> t = t'"
    by (simp add: approval_payload_inject)
  with d eq show ?thesis by auto
qed

text \<open>Two spellings of one line end give the same hash, and the hash is 64 hexadecimal digits.\<close>

theorem approval_hash_binds_witness:
  "\<exists>h. ApprovalHash sample_post True False [] = Inr h \<and>
       ApprovalHash [CHR ''h'', CHR ''i'', LF, CHR ''!''] True False [] = Inr h \<and>
       NormalizeContent sample_post = NormalizeContent [CHR ''h'', CHR ''i'', LF, CHR ''!'']"
proof -
  let ?c = "[CHR ''h'', CHR ''i'', LF, CHR ''!'']"
  have n: "NormalizeContent ?c = Inr ?c"
    using normalize_sample by (rule NormalizeContent_idem)
  obtain h where h: "ApprovalHash sample_post True False [] = Inr h" "ApprovalHash ?c True False [] = Inr h"
    using normalize_sample n by (auto simp: ApprovalHash_def)
  from approval_hash_binds [OF h] show ?thesis using h normalize_sample n by auto
qed

lemma ApprovalHash_shape: "ApprovalHash c x n t = Inr h \<Longrightarrow> length h = 64 \<and> to_lower h = h"
  by (auto simp: ApprovalHash_Inr)

end
