(* ===== verification/Secure.thy ===== *)
theory Secure
  imports Go_Crypto
begin

text \<open>
  Package \<open>internal/secure\<close>: envelope encryption. A fresh data key encrypts the plaintext, the master
  key encrypts the data key, and both layers authenticate the same associated data. The lemmas show
  that what was sealed opens, exactly which byte strings open, and that the last layer's tag is
  determined by the rest of the envelope. (The \<open>zero\<close> calls that wipe keys from memory have no
  effect on the values modelled here.)
\<close>

section \<open>Definitions (envelope.go)\<close>

definition keySize :: nat where "keySize = 32"
definition nonceSize :: nat where "nonceSize = 12"
definition overhead :: nat where "overhead = 16"

lemmas sizes [simp] = keySize_def nonceSize_def overhead_def

definition envelopeVersion :: char where "envelopeVersion = CHR 0x01"

record Envelope =
  master :: bytes

definition NewEnvelope :: "bytes \<Rightarrow> go_error + Envelope" where
  "NewEnvelope key =
     (if length key \<noteq> keySize
      then Inl (Errorf ''master key must be %d bytes'' [ArgI (int keySize)] None)
      else Inr \<lparr>master = key\<rparr>)"

definition DecodeMasterKey :: "string \<Rightarrow> go_error + bytes" where
  "DecodeMasterKey value =
     (let key = (case RawURL_Decode value of None \<Rightarrow> Std_Decode value | Some k \<Rightarrow> Some k)
      in case key of
           Some k \<Rightarrow>
             if length k \<noteq> keySize
             then Inl (Errorf ''IVPN_MASTER_KEY must be base64 encoding of %d random bytes''
                         [ArgI (int keySize)] None)
             else Inr k
         | None \<Rightarrow> Inl (Errorf ''IVPN_MASTER_KEY must be base64 encoding of %d random bytes''
                         [ArgI (int keySize)] None))"

definition GenerateMasterKey :: "('z world_scheme, string) act" where
  "GenerateMasterKey = ebind (ReadFull keySize) (\<lambda>key. ok (b64_encode_raw key))"

text \<open>\<open>newAEAD\<close>: \<open>aes.NewCipher\<close> takes keys of 16, 24 or 32 bytes; the AEAD is represented by its key.\<close>

definition newAEAD :: "bytes \<Rightarrow> go_error + bytes" where
  "newAEAD key =
     (if length key \<in> {16, 24, 32} then Inr key
      else Inl (Errorf ''crypto/aes: invalid key size %d'' [ArgI (int (length key))] None))"

definition seal :: "bytes \<Rightarrow> bytes \<Rightarrow> bytes \<Rightarrow> ('z world_scheme, bytes \<times> bytes) act" where
  "seal key plaintext associatedData =
     ebind (lift (newAEAD key)) (\<lambda>aead.
     ebind (ReadFull nonceSize) (\<lambda>nonce.
     ok (gcm_seal aead nonce plaintext associatedData, nonce)))"

definition Seal :: "Envelope \<Rightarrow> bytes \<Rightarrow> bytes \<Rightarrow> ('z world_scheme, bytes) act" where
  "Seal e plaintext associatedData =
     ebind (ReadFull keySize) (\<lambda>dataKey.
     ebind (seal (master e) dataKey associatedData) (\<lambda>(wrappedKey, keyNonce).
     ebind (seal dataKey plaintext associatedData) (\<lambda>(ciphertext, dataNonce).
     ok (envelopeVersion # keyNonce @ wrappedKey @ dataNonce @ ciphertext))))"

definition slice :: "nat \<Rightarrow> nat \<Rightarrow> 'a list \<Rightarrow> 'a list" where
  "slice i n xs = take n (drop i xs)"

definition Open :: "Envelope \<Rightarrow> bytes \<Rightarrow> bytes \<Rightarrow> go_error + bytes" where
  "Open e envelope associatedData =
     (case newAEAD (master e) of
        Inl err \<Rightarrow> Inl err
      | Inr masterAEAD \<Rightarrow>
          let keyNonceSize = nonceSize;
              wrappedKeySize = keySize + overhead;
              minimum = 1 + keyNonceSize + wrappedKeySize + keyNonceSize + overhead
          in if length envelope < minimum \<or> envelope ! 0 \<noteq> envelopeVersion
             then Inl (Sentinel ErrInvalidEnvelope)
             else
               let keyNonce = slice 1 keyNonceSize envelope;
                   wrappedKey = slice (1 + keyNonceSize) wrappedKeySize envelope;
                   dataNonce = slice (1 + keyNonceSize + wrappedKeySize) keyNonceSize envelope;
                   ciphertext = drop (1 + keyNonceSize + wrappedKeySize + keyNonceSize) envelope
               in case gcm_open masterAEAD keyNonce wrappedKey associatedData of
                    None \<Rightarrow> Inl (Sentinel ErrInvalidEnvelope)
                  | Some dataKey \<Rightarrow>
                      (case newAEAD dataKey of
                         Inl err \<Rightarrow> Inl err
                       | Inr dataAEAD \<Rightarrow>
                           (case gcm_open dataAEAD dataNonce ciphertext associatedData of
                              None \<Rightarrow> Inl (Sentinel ErrInvalidEnvelope)
                            | Some plaintext \<Rightarrow> Inr plaintext)))"

section \<open>Facts\<close>

text \<open>The invariant \<open>NewEnvelope\<close> establishes and nothing changes.\<close>

definition envelope_ok :: "Envelope \<Rightarrow> bool" where
  "envelope_ok e \<longleftrightarrow> length (master e) = keySize"

lemma NewEnvelope_ok: "NewEnvelope key = Inr e \<Longrightarrow> envelope_ok e \<and> master e = key"
  by (auto simp: NewEnvelope_def envelope_ok_def split: if_splits)

lemma newAEAD_32 [simp]: "length key = 32 \<Longrightarrow> newAEAD key = Inr key"
  by (simp add: newAEAD_def)

lemma gcm_open_length: "gcm_open key nonce c ad = Some p \<Longrightarrow> length p + 16 = length c"
  by (auto simp: gcm_open_def Let_def split: if_splits)

lemma keeps_seal [intro]: "ambient_free g \<Longrightarrow> keeps g (seal k p ad)"
  unfolding seal_def by (intro keeps_ebind keeps_lift keeps_ReadFull keeps_ok)

lemma keeps_Seal [intro]: "ambient_free g \<Longrightarrow> keeps g (Seal e p ad)"
  unfolding Seal_def by (auto intro!: keeps_ebind keeps_seal keeps_ReadFull)

text \<open>Sealing needs 56 random bytes: the data key and two nonces.\<close>

lemma Seal_success:
  assumes "envelope_ok e" and "56 \<le> length (entropy w)"
  shows "Seal e pt ad w =
    (let r = entropy w; dk = take 32 r; kn = take 12 (drop 32 r); dn = take 12 (drop 44 r)
     in (Inr (envelopeVersion # kn @ gcm_seal (master e) kn dk ad @ dn @ gcm_seal dk dn pt ad),
         w\<lparr>entropy := drop 56 r\<rparr>))"
  using assms by (simp add: Seal_def seal_def envelope_ok_def Let_def)

lemma Seal_needs_entropy:
  assumes "Seal e pt ad w = (Inr env, w')" and "envelope_ok e"
  shows "56 \<le> length (entropy w)"
  using assms
  by (auto simp: Seal_def seal_def envelope_ok_def ebind_eq_Inr ReadFull_eq_Inr newAEAD_def
      split: if_splits prod.splits)

lemma Seal_Inr:
  assumes "Seal e pt ad w = (Inr env, w')" and "envelope_ok e"
  obtains dk kn dn where "length dk = 32" "length kn = 12" "length dn = 12"
    and "env = envelopeVersion # kn @ gcm_seal (master e) kn dk ad @ dn @ gcm_seal dk dn pt ad"
    and "w' = w\<lparr>entropy := drop 56 (entropy w)\<rparr>" and "56 \<le> length (entropy w)"
proof -
  have enough: "56 \<le> length (entropy w)" using assms by (rule Seal_needs_entropy)
  show thesis
    using assms(1) that [of "take 32 (entropy w)" "take 12 (drop 32 (entropy w))"
        "take 12 (drop 44 (entropy w))"] enough
    by (simp add: Seal_success [OF assms(2) enough] Let_def)
qed

lemma Open_split:
  assumes "envelope_ok e" and "length kn = 12" "length wk = 48" "length dn = 12" "16 \<le> length c"
  shows "Open e (envelopeVersion # kn @ wk @ dn @ c) ad =
    (case gcm_open (master e) kn wk ad of
       None \<Rightarrow> Inl (Sentinel ErrInvalidEnvelope)
     | Some dk \<Rightarrow>
         (case gcm_open dk dn c ad of
            None \<Rightarrow> Inl (Sentinel ErrInvalidEnvelope) | Some pt \<Rightarrow> Inr pt))"
proof (cases "gcm_open (master e) kn wk ad")
  case None
  with assms show ?thesis by (simp add: Open_def envelope_ok_def Let_def slice_def)
next
  case (Some dk)
  then have "length dk = 32" using gcm_open_length [OF Some] assms(3) by simp
  with Some assms show ?thesis
    by (simp add: Open_def envelope_ok_def Let_def slice_def split: option.splits)
qed

lemma Open_Seal: "Seal e pt ad w = (Inr env, w') \<Longrightarrow> envelope_ok e \<Longrightarrow> Open e env ad = Inr pt"
  by (erule (1) Seal_Inr) (simp add: Open_split gcm_open_seal)

text \<open>Whatever the key, what was sealed opens: a key that cannot open cannot seal either.\<close>

lemma Open_Seal_any:
  assumes "Seal e pt ad w = (Inr env, w')"
  shows "Open e env ad = Inr pt"
proof -
  define dk kn dn where "dk = take 32 (entropy w)" and "kn = take 12 (drop 32 (entropy w))" and "dn = take 12 (drop 44 (entropy w))"
  then have k: "newAEAD (master e) = Inr (master e)" "length dk = 32" "length kn = 12" "length dn = 12"
      and env: "env = envelopeVersion # kn @ gcm_seal (master e) kn dk ad @ dn @ gcm_seal dk dn pt ad"
    using assms by (auto simp: Seal_def seal_def ebind_eq_Inr ReadFull_eq_Inr newAEAD_def split: if_splits)
  show ?thesis unfolding env using k by (simp add: Open_def Let_def slice_def gcm_open_seal)
qed

lemma Seal_nonempty: "Seal e pt ad w = (Inr env, w') \<Longrightarrow> envelope_ok e \<Longrightarrow> env \<noteq> []"
  by (erule (1) Seal_Inr) simp

text \<open>A byte string of at least the minimal length splits into the five parts of an envelope.\<close>

lemma envelope_parts:
  assumes "89 \<le> length env"
  obtains v kn wk dn c where "env = v # kn @ wk @ dn @ c"
    and "length kn = 12" "length wk = 48" "length dn = 12" "16 \<le> length c"
proof -
  obtain v r where e: "env = v # r" using assms by (cases env) auto
  have "r = take 12 r @ take 48 (drop 12 r) @ take 12 (drop 60 r) @ drop 72 r"
    using append_take_drop_id [of 12 r] append_take_drop_id [of 48 "drop 12 r"]
      append_take_drop_id [of 12 "drop 60 r"] by simp
  then show ?thesis
    using that [of v "take 12 r" "take 48 (drop 12 r)" "take 12 (drop 60 r)" "drop 72 r"] assms e by simp
qed

lemma Open_short: "length env < 89 \<Longrightarrow> envelope_ok e \<Longrightarrow> Open e env ad = Inl (Sentinel ErrInvalidEnvelope)"
  by (simp add: Open_def envelope_ok_def)

lemma Open_version:
  "env \<noteq> [] \<Longrightarrow> hd env \<noteq> envelopeVersion \<Longrightarrow> envelope_ok e \<Longrightarrow>
   Open e env ad = Inl (Sentinel ErrInvalidEnvelope)"
  by (simp add: Open_def envelope_ok_def hd_conv_nth Let_def)

lemma gcm_open_tag:
  "length t = 16 \<Longrightarrow>
   gcm_open key nonce (c @ t) ad =
     (if t = gcm_tag (aes_round_keys key) nonce ad c
      then Some (xor_bytes c (key_stream (aes_round_keys key) nonce (length c))) else None)"
  by (simp add: gcm_open_def Let_def)

section \<open>Properties\<close>

text \<open>
  C5: sealing succeeds whenever the random source delivers 56 more bytes; the envelope is 89 bytes
  longer than the plaintext, and opening it under the same associated data gives the plaintext back.
\<close>

theorem seal_open_roundtrip:
  assumes "NewEnvelope key = Inr e" and "56 \<le> length (entropy w)"
  shows "\<exists>env w'. Seal e pt ad w = (Inr env, w') \<and> length env = 89 + length pt \<and>
     entropy w' = drop 56 (entropy w) \<and> Open e env ad = Inr pt"
proof -
  have e: "envelope_ok e" using NewEnvelope_ok assms(1) by blast
  obtain env w' where s: "Seal e pt ad w = (Inr env, w')"
    using Seal_success [OF e assms(2)] by (simp add: Let_def)
  then have "length env = 89 + length pt \<and> entropy w' = drop 56 (entropy w)"
    by (rule Seal_Inr [OF _ e]) simp
  with s Open_Seal [OF s e] show ?thesis by blast
qed

definition sample_world :: world where
  "sample_world = \<lparr>entropy = replicate 64 CHR 0x07, clock = (\<lambda>_. 0), ticks = 0\<rparr>"

theorem seal_open_roundtrip_witness:
  "\<exists>env w'. Seal \<lparr>master = replicate 32 CHR 0x01\<rparr> ''post'' ''job'' sample_world = (Inr env, w') \<and>
     length env = 93 \<and> Open \<lparr>master = replicate 32 CHR 0x01\<rparr> env ''job'' = Inr ''post''"
  using seal_open_roundtrip [of "replicate 32 CHR 0x01" "\<lparr>master = replicate 32 CHR 0x01\<rparr>"
      sample_world "''post''" "''job''"]
  by (auto simp: NewEnvelope_def sample_world_def)

text \<open>
  C6: exactly the well-formed envelopes open. \<open>Open\<close> returns a plaintext if and only if the bytes are
  the version byte, a 12-byte nonce, a 48-byte wrapped key the master key authenticates, a second
  nonce and a ciphertext the unwrapped data key authenticates, both under the same associated data;
  every other input is the one error \<open>ErrInvalidEnvelope\<close>.
\<close>

theorem open_exact:
  assumes "NewEnvelope key = Inr e"
  shows "(Open e env ad = Inr pt) =
      (\<exists>kn wk dn c dk. env = envelopeVersion # kn @ wk @ dn @ c \<and>
         length kn = 12 \<and> length wk = 48 \<and> length dn = 12 \<and>
         gcm_open key kn wk ad = Some dk \<and> gcm_open dk dn c ad = Some pt) \<and>
    (\<forall>err. Open e env ad = Inl err \<longrightarrow> err = Sentinel ErrInvalidEnvelope)"
proof -
  have e: "envelope_ok e" and k: "master e = key" using NewEnvelope_ok assms by blast+
  have fwd: "Open e (envelopeVersion # kn @ wk @ dn @ c) ad = Inr pt"
    if "length kn = 12" "length wk = 48" "length dn = 12"
      and "gcm_open key kn wk ad = Some dk" and "gcm_open dk dn c ad = Some pt" for kn wk dn c dk
    using that gcm_open_length [OF that(5)] by (simp add: Open_split [OF e] k)
  show ?thesis
  proof (cases "89 \<le> length env \<and> hd env = envelopeVersion")
    case True
    then obtain kn wk dn c where env: "env = envelopeVersion # kn @ wk @ dn @ c"
        and l: "length kn = 12" "length wk = 48" "length dn = 12" "16 \<le> length c"
      using envelope_parts by (metis list.sel(1))
    have "Open e env ad = Inr pt \<Longrightarrow>
        \<exists>dk. gcm_open key kn wk ad = Some dk \<and> gcm_open dk dn c ad = Some pt"
      and "Open e env ad = Inl err \<Longrightarrow> err = Sentinel ErrInvalidEnvelope" for err
      using Open_split [OF e l, of ad] by (auto simp: env k split: option.splits)
    then show ?thesis using fwd env l by blast
  next
    case False
    then have "Open e env ad = Inl (Sentinel ErrInvalidEnvelope)"
      using Open_short [OF _ e] Open_version [OF _ _ e] by (cases env) force+
    then show ?thesis using fwd by fastforce
  qed
qed

theorem open_exact_witness:
  "NewEnvelope (replicate 32 CHR 0x01) = Inr \<lparr>master = replicate 32 CHR 0x01\<rparr> \<and>
   Open \<lparr>master = replicate 32 CHR 0x01\<rparr> (replicate 89 CHR 0x02) [] = Inl (Sentinel ErrInvalidEnvelope)"
  (is "?n \<and> ?o")
proof -
  have n: ?n by (simp add: NewEnvelope_def)
  have "Open \<lparr>master = replicate 32 CHR 0x01\<rparr> (replicate 89 CHR 0x02) [] \<noteq> Inr pt" for pt
  proof
    assume "Open \<lparr>master = replicate 32 CHR 0x01\<rparr> (replicate 89 CHR 0x02) [] = Inr pt"
    then obtain r where "replicate 89 (CHR 0x02) = envelopeVersion # r"
      using open_exact [OF n] by blast
    then show False by (simp add: envelopeVersion_def numeral_eq_Suc)
  qed
  then show ?thesis using n open_exact [OF n] by (metis sum.exhaust)
qed

text \<open>
  The authentication tag is determined by the rest of the envelope and by the associated data,
  so changing only the last 16 bytes of an envelope that opens always makes it fail to open.
\<close>

theorem tampered_tag_rejected:
  assumes "NewEnvelope key = Inr e" and "Open e (p @ t) ad = Inr pt"
    and "length t = 16" and "length t' = 16" and "t' \<noteq> t"
  shows "Open e (p @ t') ad = Inl (Sentinel ErrInvalidEnvelope)"
proof -
  have e: "envelope_ok e" using NewEnvelope_ok assms(1) by blast
  have "89 \<le> length (p @ t)" using assms(2) Open_short [OF _ e, of "p @ t" ad] by force
  then obtain v kn wk dn c where p: "p @ t = v # kn @ wk @ dn @ c" and
      l: "length kn = 12" "length wk = 48" "length dn = 12" "16 \<le> length c"
    by (rule envelope_parts)
  let ?c = "take (length c - 16) c"
  have "p = take (length (p @ t) - 16) (p @ t)" using assms(3) by simp
  also have "\<dots> = v # kn @ wk @ dn @ ?c" unfolding p using l by (simp add: take_Cons')
  finally have p': "p = v # kn @ wk @ dn @ ?c" .
  then have c: "c = ?c @ t" using p by simp
  have v: "v = envelopeVersion"
    using assms(2) Open_version [OF _ _ e] p by (metis Inl_Inr_False list.discI list.sel(1))
  show ?thesis
    using assms(2-5) l gcm_open_tag [of t _ dn ?c] gcm_open_tag [of t' _ dn ?c]
      Open_split [OF e l(1-3), of "?c @ t" ad] Open_split [OF e l(1-3), of "?c @ t'" ad]
    unfolding p' v by (auto split: option.splits if_splits)
qed

theorem tampered_tag_rejected_witness:
  "\<exists>p t. length t = 16 \<and> Open \<lparr>master = replicate 32 CHR 0x01\<rparr> (p @ t) ''job'' = Inr ''post'' \<and>
     (\<forall>t'. length t' = 16 \<and> t' \<noteq> t \<longrightarrow>
        Open \<lparr>master = replicate 32 CHR 0x01\<rparr> (p @ t') ''job'' = Inl (Sentinel ErrInvalidEnvelope))"
proof -
  let ?e = "\<lparr>master = replicate 32 CHR 0x01\<rparr> :: Envelope"
  have n: "NewEnvelope (replicate 32 CHR 0x01) = Inr ?e" by (simp add: NewEnvelope_def)
  then have e: "envelope_ok ?e" using NewEnvelope_ok by blast
  obtain env w' where s: "Seal ?e ''post'' ''job'' sample_world = (Inr env, w')"
    using Seal_success [OF e, of sample_world] by (simp add: Let_def sample_world_def)
  define t where "t = drop (length env - 16) env"
  have "16 \<le> length env" by (rule Seal_Inr [OF s e]) simp
  then have "env = take (length env - 16) env @ t" "length t = 16" by (simp_all add: t_def)
  with Open_Seal [OF s e] tampered_tag_rejected [OF n] show ?thesis by metis
qed

text \<open>
  A generated master key is accepted: the printed key decodes to the 32 random bytes it was made
  from, and these make an envelope. A key of any other length is refused, by \<open>NewEnvelope\<close> and by
  \<open>DecodeMasterKey\<close>.
\<close>

lemma DecodeMasterKey_length: "DecodeMasterKey value = Inr k \<Longrightarrow> length k = 32"
  by (auto simp: DecodeMasterKey_def Let_def split: option.splits if_splits)

theorem generated_key_usable:
  assumes "32 \<le> length (entropy w)"
  shows "(\<exists>text w' e. GenerateMasterKey w = (Inr text, w') \<and>
      DecodeMasterKey text = Inr (take 32 (entropy w)) \<and>
      NewEnvelope (take 32 (entropy w)) = Inr e \<and> master e = take 32 (entropy w)) \<and>
    (\<forall>value k. DecodeMasterKey value = Inr k \<longrightarrow> (\<exists>e. NewEnvelope k = Inr e)) \<and>
    (\<forall>k. length k \<noteq> 32 \<longrightarrow> (\<exists>err. NewEnvelope k = Inl err))"
  using assms DecodeMasterKey_length
  by (simp add: GenerateMasterKey_def DecodeMasterKey_def RawURL_roundtrip NewEnvelope_def)

theorem generated_key_usable_witness:
  "\<exists>text w'. GenerateMasterKey sample_world = (Inr text, w') \<and>
     DecodeMasterKey text = Inr (replicate 32 CHR 0x07)"
  using generated_key_usable [of sample_world] by (auto simp: sample_world_def)

end
