(* ===== verification/Egress_Registry.thy ===== *)
theory Egress_Registry
  imports Go_Text "HOL-Library.AList" "HOL-Library.Sublist" "HOL-Library.Multiset"
begin

text \<open>
  Package \<open>internal/egress\<close>, part one: endpoint metadata and its validation (types.go), the built-in
  catalog (catalog.go), the endpoint registry (registry.go) and the health monitor (health.go). The
  lemmas show that a registry holds valid endpoints under their own identifiers, that probing
  changes health only, and when exactly an endpoint is quarantined.
\<close>

section \<open>Identifiers and endpoints (types.go)\<close>

type_synonym EndpointID = string

definition EgressPlatformX :: string where "EgressPlatformX = ''x''"
definition EgressPlatformNostr :: string where "EgressPlatformNostr = ''nostr''"

definition Platform_Validate :: "string \<Rightarrow> go_error + unit" where
  "Platform_Validate p =
     (if p = EgressPlatformX \<or> p = EgressPlatformNostr then Inr ()
      else Inl (Errorf ''unsupported platform %q'' [ArgS p] None))"

text \<open>The character classes of the three patterns, all of which are ASCII.\<close>

definition between :: "char \<Rightarrow> char \<Rightarrow> char \<Rightarrow> bool" where
  "between a z c \<longleftrightarrow> bv a \<le> bv c \<and> bv c \<le> bv z"

definition lower_digit :: "char \<Rightarrow> bool" where
  "lower_digit c \<longleftrightarrow> between CHR ''a'' CHR ''z'' c \<or> between CHR ''0'' CHR ''9'' c"

definition alnum :: "char \<Rightarrow> bool" where
  "alnum c \<longleftrightarrow> between CHR ''A'' CHR ''Z'' c \<or> lower_digit c"

definition endpointIDPattern :: "string \<Rightarrow> bool" where
  "endpointIDPattern s =
     (case s of [] \<Rightarrow> False
      | c # t \<Rightarrow> lower_digit c \<and> list_all (\<lambda>d. lower_digit d \<or> d = CHR ''-'') t \<and>
                2 \<le> length t \<and> length t \<le> 63)"

definition jobIDPattern :: "string \<Rightarrow> bool" where
  "jobIDPattern s =
     (case s of [] \<Rightarrow> False
      | c # t \<Rightarrow> alnum c \<and> list_all (\<lambda>d. alnum d \<or> d = CHR ''_'' \<or> d = CHR ''-'') t \<and>
                7 \<le> length t \<and> length t \<le> 127)"

definition countryCodePattern :: "string \<Rightarrow> bool" where
  "countryCodePattern s \<longleftrightarrow> length s = 2 \<and> list_all (between CHR ''A'' CHR ''Z'') s"

definition endpointIDMessage :: string where
  "endpointIDMessage = ''endpoint ID must be 3-64 lowercase letters, digits, or hyphens''"

definition EndpointID_Validate :: "EndpointID \<Rightarrow> go_error + unit" where
  "EndpointID_Validate eid =
     (if \<not> endpointIDPattern eid then Inl (ErrorsNew endpointIDMessage) else Inr ())"

definition ValidateJobID :: "string \<Rightarrow> go_error + unit" where
  "ValidateJobID jid =
     (if \<not> jobIDPattern jid then Inl (ErrorsNew ''job ID must be 8-128 URL-safe characters'')
      else Inr ())"

record Endpoint =
  ep_id :: EndpointID
  CountryCode :: string
  Provider :: string
  Region :: string

definition Endpoint_Validate :: "Endpoint \<Rightarrow> go_error + unit" where
  "Endpoint_Validate e =
     (case EndpointID_Validate (ep_id e) of
        Inl err \<Rightarrow> Inl (Errorf ''endpoint: %w'' [] (Some err))
      | Inr _ \<Rightarrow>
          if \<not> countryCodePattern (CountryCode e) \<or> CountryCode e \<noteq> to_upper (CountryCode e)
          then Inl (ErrorsNew ''country code must be an uppercase ISO 3166-1 alpha-2 code'')
          else if \<not> (Provider e = ''aws'' \<or> Provider e = ''gcp'')
          then Inl (Errorf ''provider %q is not registered'' [ArgS (Provider e)] None)
          else if TrimSpace (Region e) = [] \<or> 64 < length (Region e)
          then Inl (ErrorsNew ''region must be 1-64 characters'')
          else Inr ())"

record Health =
  Healthy :: bool
  Quarantined :: bool
  CheckedAt :: time
  Failures :: "32 word"

text \<open>The zero \<open>Health{}\<close>.\<close>

definition zero_Health :: Health where
  "zero_Health = \<lparr>Healthy = False, Quarantined = False, CheckedAt = zero_time, Failures = 0\<rparr>"

definition Eligible :: "Health \<Rightarrow> time \<Rightarrow> duration \<Rightarrow> bool" where
  "Eligible h nw maxAge =
     (if \<not> Healthy h \<or> Quarantined h \<or> IsZero (CheckedAt h) then False
      else if maxAge \<le> 0 then False
      else (let age = time_sub nw (CheckedAt h) in age \<ge> 0 \<and> age \<le> maxAge))"

section \<open>The built-in catalog (catalog.go)\<close>

definition DefaultEndpointCatalog :: "Endpoint list" where
  "DefaultEndpointCatalog =
     [\<lparr>ep_id = ''aws-fr-1'', CountryCode = ''FR'', Provider = ''aws'', Region = ''eu-west-3''\<rparr>,
      \<lparr>ep_id = ''gcp-fr-1'', CountryCode = ''FR'', Provider = ''gcp'', Region = ''europe-west9''\<rparr>,
      \<lparr>ep_id = ''aws-de-1'', CountryCode = ''DE'', Provider = ''aws'', Region = ''eu-central-1''\<rparr>,
      \<lparr>ep_id = ''gcp-de-1'', CountryCode = ''DE'', Provider = ''gcp'', Region = ''europe-west3''\<rparr>,
      \<lparr>ep_id = ''aws-gb-1'', CountryCode = ''GB'', Provider = ''aws'', Region = ''eu-west-2''\<rparr>,
      \<lparr>ep_id = ''gcp-gb-1'', CountryCode = ''GB'', Provider = ''gcp'', Region = ''europe-west2''\<rparr>,
      \<lparr>ep_id = ''aws-se-1'', CountryCode = ''SE'', Provider = ''aws'', Region = ''eu-north-1''\<rparr>,
      \<lparr>ep_id = ''gcp-se-1'', CountryCode = ''SE'', Provider = ''gcp'', Region = ''europe-north2''\<rparr>,
      \<lparr>ep_id = ''aws-ch-1'', CountryCode = ''CH'', Provider = ''aws'', Region = ''eu-central-2''\<rparr>,
      \<lparr>ep_id = ''gcp-ch-1'', CountryCode = ''CH'', Provider = ''gcp'', Region = ''europe-west6''\<rparr>]"

section \<open>The registry (registry.go)\<close>

record endpointRecord =
  Endpoint_of :: Endpoint
  Health_of :: Health

text \<open>
  The Go map \<open>records\<close> is an association list with distinct keys; its order is the unspecified
  iteration order of the map, so what is proved holds for every order. The mutex serialises the
  operations, each of which is one step here.
\<close>

record Registry =
  records :: "(EndpointID \<times> endpointRecord) list"

fun register :: "(EndpointID \<times> endpointRecord) list \<Rightarrow> Endpoint list \<Rightarrow>
    go_error + (EndpointID \<times> endpointRecord) list" where
  "register recs [] = Inr recs"
| "register recs (endpoint # rest) =
     (case Endpoint_Validate endpoint of
        Inl err \<Rightarrow> Inl err
      | Inr _ \<Rightarrow>
          if map_of recs (ep_id endpoint) \<noteq> None
          then Inl (Errorf ''duplicate endpoint ID %q'' [ArgS (ep_id endpoint)] None)
          else register
            (AList.update (ep_id endpoint) \<lparr>Endpoint_of = endpoint, Health_of = zero_Health\<rparr> recs) rest)"

definition NewRegistry :: "Endpoint list \<Rightarrow> go_error + Registry" where
  "NewRegistry endpoints =
     (case register [] endpoints of
        Inl err \<Rightarrow> Inl err
      | Inr recs \<Rightarrow>
          if length recs = 0 then Inl (ErrorsNew ''endpoint registry cannot be empty'')
          else Inr \<lparr>records = recs\<rparr>)"

definition unknown_endpoint :: "EndpointID \<Rightarrow> go_error" where
  "unknown_endpoint eid = Errorf ''%w: %q'' [ArgS eid] (Some (Sentinel ErrUnknownEndpoint))"

definition Resolve :: "Registry \<Rightarrow> EndpointID \<Rightarrow> go_error + (Endpoint \<times> Health)" where
  "Resolve r eid =
     (case EndpointID_Validate eid of
        Inl err \<Rightarrow> Inl (Errorf ''%w: %v'' [ArgS endpointIDMessage] (Some (Sentinel ErrUnknownEndpoint)))
      | Inr _ \<Rightarrow>
          (case map_of (records r) eid of
             None \<Rightarrow> Inl (unknown_endpoint eid)
           | Some record \<Rightarrow> Inr (Endpoint_of record, Health_of record)))"

definition SetHealth :: "EndpointID \<Rightarrow> Health \<Rightarrow> (Registry, unit) act" where
  "SetHealth eid health r =
     (case map_of (records r) eid of
        None \<Rightarrow> (Inl (unknown_endpoint eid), r)
      | Some record \<Rightarrow>
          (Inr (), r\<lparr>records := AList.update eid (record\<lparr>Health_of := health\<rparr>) (records r)\<rparr>))"

text \<open>What the body of \<open>MarkProbe\<close> does to the health of the record it found.\<close>

definition mark_health :: "bool \<Rightarrow> time \<Rightarrow> Health \<Rightarrow> Health" where
  "mark_health healthy nw h =
     (let h = h\<lparr>CheckedAt := nw, Healthy := healthy\<rparr>
      in if healthy then h\<lparr>Failures := 0\<rparr>
         else (let h = h\<lparr>Failures := Failures h + 1\<rparr>
               in if Failures h \<ge> 3 then h\<lparr>Quarantined := True\<rparr> else h))"

definition MarkProbe :: "EndpointID \<Rightarrow> bool \<Rightarrow> time \<Rightarrow> (Registry, unit) act" where
  "MarkProbe eid healthy nw r =
     (case map_of (records r) eid of
        None \<Rightarrow> (Inl (unknown_endpoint eid), r)
      | Some record \<Rightarrow>
          (Inr (), r\<lparr>records :=
             AList.update eid (record\<lparr>Health_of := mark_health healthy nw (Health_of record)\<rparr>) (records r)\<rparr>))"

definition Snapshot :: "Registry \<Rightarrow> (Endpoint \<times> Health) list" where
  "Snapshot r =
     sort_key (\<lambda>item. ep_id (fst item))
       (map (\<lambda>(_, record). (Endpoint_of record, Health_of record)) (records r))"

section \<open>Probes and the monitor (health.go)\<close>

record ProbeReport =
  pr_endpoint :: EndpointID
  pr_checked_at :: time
  Reachable :: bool
  StaticIPMatch :: bool
  CountryMatch :: bool
  DNSLeak :: bool
  RouteLeak :: bool
  TLSValid :: bool

definition hardFailure :: "ProbeReport \<Rightarrow> bool" where
  "hardFailure p \<longleftrightarrow>
     \<not> StaticIPMatch p \<or> \<not> CountryMatch p \<or> DNSLeak p \<or> RouteLeak p \<or> \<not> TLSValid p"

definition probe_health :: "ProbeReport \<Rightarrow> Health \<Rightarrow> Health" where
  "probe_health report h =
     (let h = h\<lparr>CheckedAt := pr_checked_at report\<rparr>
      in if hardFailure report then
           h\<lparr>Healthy := False, Failures := Failures h + 1, Quarantined := True\<rparr>
         else if \<not> Reachable report then
           (let h = h\<lparr>Healthy := False, Failures := Failures h + 1\<rparr>
            in if Failures h \<ge> 3 then h\<lparr>Quarantined := True\<rparr> else h)
         else if \<not> Quarantined h then h\<lparr>Healthy := True, Failures := 0\<rparr>
         else h)"

definition ApplyProbe :: "ProbeReport \<Rightarrow> (Registry, unit) act" where
  "ApplyProbe report r =
     (if IsZero (pr_checked_at report) then (Inl (ErrorsNew ''probe timestamp is required''), r)
      else
        case map_of (records r) (pr_endpoint report) of
          None \<Rightarrow> (Inl (unknown_endpoint (pr_endpoint report)), r)
        | Some record \<Rightarrow>
            (Inr (), r\<lparr>records :=
               AList.update (pr_endpoint report)
                 (record\<lparr>Health_of := probe_health report (Health_of record)\<rparr>) (records r)\<rparr>))"

text \<open>The monitor runs in a world with a clock and the registry it updates.\<close>

record egress_world = world +
  registry :: Registry

definition on_registry :: "(Registry, 'a) act \<Rightarrow> ('z egress_world_scheme, 'a) act" where
  "on_registry m w = (let (res, r) = m (registry w) in (res, w\<lparr>registry := r\<rparr>))"

text \<open>
  \<open>EndpointProber\<close> is an interface without an implementation in the repository: the monitor takes the
  prober as an argument.
\<close>

type_synonym 'w prober = "Endpoint \<Rightarrow> ('w, ProbeReport) act"

record 'w HealthMonitor =
  Prober :: "'w prober option"
  Interval :: duration

definition probe_one :: "'z egress_world_scheme prober \<Rightarrow> Endpoint \<Rightarrow> ('z egress_world_scheme, unit) act" where
  "probe_one prober endpoint w =
     (case prober endpoint w of
        (Inl err, w') \<Rightarrow>
          (ebind now (\<lambda>nw. ignore_err (on_registry (MarkProbe (ep_id endpoint) False nw)))) w'
      | (Inr report, w') \<Rightarrow>
          ignore_err (on_registry (ApplyProbe (report\<lparr>pr_endpoint := ep_id endpoint\<rparr>))) w')"

fun probe_each :: "'z egress_world_scheme prober \<Rightarrow> Endpoint list \<Rightarrow> ('z egress_world_scheme, unit) act" where
  "probe_each prober [] = ok ()"
| "probe_each prober (e # es) = ebind (probe_one prober e) (\<lambda>_. probe_each prober es)"

definition probeAll :: "'z egress_world_scheme HealthMonitor \<Rightarrow> ('z egress_world_scheme, unit) act" where
  "probeAll m w =
     (case Prober m of
        None \<Rightarrow> (Inr (), w)
      | Some prober \<Rightarrow> probe_each prober (map fst (Snapshot (registry w))) w)"

text \<open>
  \<open>Run\<close> refuses a nil prober before it calls \<open>probeAll\<close>; the registry is the one of the world and never
  nil. The loop of \<open>Run\<close>: \<open>wakes\<close> counts how often the timer wins the \<open>select\<close> before the context is done,
  and \<open>ctxErr\<close> is the error the context then reports.
\<close>

fun run_loop :: "'z egress_world_scheme HealthMonitor \<Rightarrow> nat \<Rightarrow> go_error \<Rightarrow> ('z egress_world_scheme, unit) act" where
  "run_loop m 0 ctxErr = ebind (probeAll m) (\<lambda>_. fail ctxErr)"
| "run_loop m (Suc wakes) ctxErr = ebind (probeAll m) (\<lambda>_. run_loop m wakes ctxErr)"

definition Run :: "'z egress_world_scheme HealthMonitor \<Rightarrow> nat \<Rightarrow> go_error \<Rightarrow> ('z egress_world_scheme, unit) act" where
  "Run m wakes ctxErr =
     (if Prober m = None then fail (ErrorsNew ''registry and prober are required'')
      else if Interval m \<noteq> 60 * Second
      then fail (ErrorsNew ''health interval must be exactly 60 seconds'')
      else run_loop m wakes ctxErr)"

section \<open>Facts: what the registry holds\<close>

definition registry_inv :: "Registry \<Rightarrow> bool" where
  "registry_inv r \<longleftrightarrow> records r \<noteq> [] \<and> distinct (map fst (records r)) \<and>
     (\<forall>(k, record) \<in> set (records r).
        ep_id (Endpoint_of record) = k \<and> Endpoint_Validate (Endpoint_of record) = Inr ())"

definition health_at :: "Registry \<Rightarrow> EndpointID \<Rightarrow> Health option" where
  "health_at r eid = map_option Health_of (map_of (records r) eid)"

definition endpoint_at :: "Registry \<Rightarrow> EndpointID \<Rightarrow> Endpoint option" where
  "endpoint_at r eid = map_option Endpoint_of (map_of (records r) eid)"

definition fresh_record :: "Endpoint \<Rightarrow> EndpointID \<times> endpointRecord" where
  "fresh_record e = (ep_id e, \<lparr>Endpoint_of = e, Health_of = zero_Health\<rparr>)"

lemma map_fst_fresh [simp]: "map fst (map fresh_record es) = map ep_id es"
  by (simp add: fresh_record_def comp_def)

lemma update_new: "k \<notin> fst ` set al \<Longrightarrow> AList.update k v al = al @ [(k, v)]"
  by (induction al) (auto simp: fst_def split: prod.splits)

lemma set_alist_update: "set (AList.update k v al) \<subseteq> insert (k, v) (set al)"
  by (induction al) auto

lemma register_Inr:
  "register recs es = Inr recs' \<longleftrightarrow>
     list_all (\<lambda>e. Endpoint_Validate e = Inr ()) es \<and> distinct (map ep_id es) \<and>
     fst ` set recs \<inter> ep_id ` set es = {} \<and> recs' = recs @ map fresh_record es"
proof (induction es arbitrary: recs)
  case (Cons e es)
  have new: "map_of recs (ep_id e) \<noteq> None \<longleftrightarrow> ep_id e \<in> fst ` set recs"
    by (simp add: map_of_eq_None_iff)
  show ?case
    using Cons update_new [of "ep_id e" recs] new
    by (auto simp: fresh_record_def split: sum.splits)
qed auto

lemma NewRegistry_Inr:
  "NewRegistry es = Inr r \<longleftrightarrow>
     es \<noteq> [] \<and> list_all (\<lambda>e. Endpoint_Validate e = Inr ()) es \<and> distinct (map ep_id es) \<and>
     r = \<lparr>records = map fresh_record es\<rparr>"
proof (cases "register [] es")
  case (Inl err)
  then show ?thesis using register_Inr [of "[]" es "map fresh_record es"] by (auto simp: NewRegistry_def)
next
  case (Inr recs)
  then show ?thesis using register_Inr [of "[]" es recs] by (auto simp: NewRegistry_def)
qed

lemma NewRegistry_inv: "NewRegistry es = Inr r \<Longrightarrow> registry_inv r"
  by (auto simp: NewRegistry_Inr registry_inv_def fresh_record_def list_all_iff comp_def)

lemma registry_inv_lookup:
  "registry_inv r \<Longrightarrow> map_of (records r) k = Some record \<Longrightarrow>
     ep_id (Endpoint_of record) = k \<and> Endpoint_Validate (Endpoint_of record) = Inr ()"
  by (auto simp: registry_inv_def dest: map_of_SomeD)

lemma EndpointID_Validate_Inr [simp]: "EndpointID_Validate e = Inr () \<longleftrightarrow> endpointIDPattern e"
  by (simp add: EndpointID_Validate_def)

lemma Endpoint_Validate_id: "Endpoint_Validate e = Inr () \<Longrightarrow> endpointIDPattern (ep_id e)"
  by (auto simp: Endpoint_Validate_def EndpointID_Validate_def split: if_splits)

lemma endpointRecord_eq: "(rd :: endpointRecord) = rd' \<longleftrightarrow> Endpoint_of rd = Endpoint_of rd' \<and> Health_of rd = Health_of rd'"
  by (cases rd, cases rd') simp

lemma endpointRecord_eta [simp]: "\<lparr>Endpoint_of = Endpoint_of rd, Health_of = Health_of rd\<rparr> = rd"
  by simp

text \<open>Resolving is the map lookup: in a registry only well-formed identifiers are keys.\<close>

lemma Resolve_lookup:
  "registry_inv r \<Longrightarrow>
   Resolve r k = Inr (e, h) \<longleftrightarrow> map_of (records r) k = Some \<lparr>Endpoint_of = e, Health_of = h\<rparr>"
  using registry_inv_lookup [of r k] Endpoint_Validate_id [of "Endpoint_of (the (map_of (records r) k))"]
  by (cases "map_of (records r) k")
    (auto simp: Resolve_def EndpointID_Validate_def endpointRecord_eq)

lemma set_Snapshot:
  "set (Snapshot r) = {(Endpoint_of record, Health_of record) | record. record \<in> snd ` set (records r)}"
  by (force simp: Snapshot_def)

lemma length_Snapshot [simp]: "length (Snapshot r) = length (records r)"
  by (simp add: Snapshot_def)

lemma Snapshot_Resolve:
  assumes "registry_inv r"
  shows "(e, h) \<in> set (Snapshot r) \<longleftrightarrow> Resolve r (ep_id e) = Inr (e, h)"
proof
  assume "(e, h) \<in> set (Snapshot r)"
  then obtain k rd where "(k, rd) \<in> set (records r)" "e = Endpoint_of rd" "h = Health_of rd"
    by (auto simp: set_Snapshot)
  with assms show "Resolve r (ep_id e) = Inr (e, h)"
    by (auto simp: Resolve_lookup registry_inv_def)
next
  assume "Resolve r (ep_id e) = Inr (e, h)"
  then have "(ep_id e, \<lparr>Endpoint_of = e, Health_of = h\<rparr>) \<in> set (records r)"
    using assms by (auto simp: Resolve_lookup dest: map_of_SomeD)
  then show "(e, h) \<in> set (Snapshot r)" by (force simp: set_Snapshot)
qed

lemma map_sort_key: "map f (sort_key f xs) = sort (map f xs)"
  by (rule properties_for_sort [symmetric]) simp_all

lemma Snapshot_ids:
  assumes "registry_inv r"
  shows "map (ep_id \<circ> fst) (Snapshot r) = sort (map fst (records r))"
    and "distinct (map (ep_id \<circ> fst) (Snapshot r))"
proof -
  have ids: "map (ep_id \<circ> fst) (map (\<lambda>(_, record). (Endpoint_of record, Health_of record)) (records r))
      = map fst (records r)"
    using assms by (auto simp: registry_inv_def)
  then have "map (ep_id \<circ> fst) (Snapshot r) = sort (map fst (records r))"
    using map_sort_key [of "ep_id \<circ> fst" "map (\<lambda>(_, record). (Endpoint_of record, Health_of record)) (records r)"]
    unfolding ids by (simp add: Snapshot_def comp_def)
  then show "map (ep_id \<circ> fst) (Snapshot r) = sort (map fst (records r))"
    and "distinct (map (ep_id \<circ> fst) (Snapshot r))"
    using assms by (simp_all add: registry_inv_def)
qed

section \<open>Facts: operations that update the health of one endpoint\<close>

text \<open>
  The contract \<open>SetHealth\<close>, \<open>MarkProbe\<close> and \<open>ApplyProbe\<close> share: an accepted update of a registered
  endpoint changes the health of that endpoint by \<open>effect\<close> and nothing else; any other is an error that
  changes nothing.
\<close>

locale health_update =
  fixes upd :: "'p \<Rightarrow> (Registry, unit) act"
    and accepted :: "'p \<Rightarrow> bool"
    and target :: "'p \<Rightarrow> EndpointID"
    and effect :: "'p \<Rightarrow> Health \<Rightarrow> Health"
  assumes upd_known: "accepted p \<Longrightarrow> map_of (records r) (target p) = Some rd \<Longrightarrow>
      upd p r = (Inr (), r\<lparr>records := AList.update (target p) (rd\<lparr>Health_of := effect p (Health_of rd)\<rparr>) (records r)\<rparr>)"
    and upd_other: "\<not> accepted p \<or> map_of (records r) (target p) = None \<Longrightarrow> \<exists>err. upd p r = (Inl err, r)"
begin

definition run :: "'p list \<Rightarrow> Registry \<Rightarrow> Registry" where
  "run ps r = fold (\<lambda>p r. snd (upd p r)) ps r"

lemma upd_cases:
  obtains (known) rd where "accepted p" "map_of (records r) (target p) = Some rd"
      "snd (upd p r) = r\<lparr>records := AList.update (target p) (rd\<lparr>Health_of := effect p (Health_of rd)\<rparr>) (records r)\<rparr>"
  | (other) "\<not> accepted p \<or> map_of (records r) (target p) = None" "snd (upd p r) = r"
  using upd_known upd_other by (metis not_None_eq snd_conv)

lemma health_upd:
  "health_at (snd (upd p r)) k = map_option (if accepted p \<and> target p = k then effect p else id) (health_at r k)"
  by (cases rule: upd_cases [of p r]) (auto simp: health_at_def update_conv' option.map_id)

lemma endpoint_upd: "endpoint_at (snd (upd p r)) k = endpoint_at r k"
  by (cases rule: upd_cases [of p r]) (auto simp: endpoint_at_def update_conv')

lemma keys_upd: "map fst (records (snd (upd p r))) = map fst (records r)"
  by (cases rule: upd_cases [of p r]) (force simp: update_keys dest: map_of_SomeD)+

lemma inv_upd:
  assumes "registry_inv r"
  shows "registry_inv (snd (upd p r))"
proof (cases rule: upd_cases [of p r])
  case (known rd)
  define rd' where "rd' = rd\<lparr>Health_of := effect p (Health_of rd)\<rparr>"
  have recs: "records (snd (upd p r)) = AList.update (target p) rd' (records r)"
    using known by (simp add: rd'_def)
  have good: "ep_id (Endpoint_of rd') = target p" "Endpoint_Validate (Endpoint_of rd') = Inr ()"
    using registry_inv_lookup [OF assms known(2)] by (simp_all add: rd'_def)
  have "ep_id (Endpoint_of x) = k \<and> Endpoint_Validate (Endpoint_of x) = Inr ()"
    if "(k, x) \<in> set (records (snd (upd p r)))" for k x
  proof -
    have "(k, x) = (target p, rd') \<or> (k, x) \<in> set (records r)"
      using that set_alist_update [of "target p" rd' "records r"] unfolding recs by blast
    then show ?thesis using good assms by (auto simp: registry_inv_def)
  qed
  moreover have "records (snd (upd p r)) \<noteq> []" "distinct (map fst (records (snd (upd p r))))"
    using keys_upd [of p r] assms unfolding registry_inv_def by (metis list.map_disc_iff, simp)
  ultimately show ?thesis unfolding registry_inv_def by blast
qed (use assms in simp)

lemma run_Nil [simp]: "run [] r = r" and run_Cons [simp]: "run (p # ps) r = run ps (snd (upd p r))"
  by (simp_all add: run_def)

lemma health_run:
  "health_at (run ps r) k =
     map_option (\<lambda>h. fold effect (filter (\<lambda>p. accepted p \<and> target p = k) ps) h) (health_at r k)"
  by (induction ps arbitrary: r) (auto simp: health_upd option.map_comp comp_def option.map_ident option.map_id)

lemma endpoint_run: "endpoint_at (run ps r) k = endpoint_at r k"
  by (induction ps arbitrary: r) (auto simp: endpoint_upd)

lemma inv_run: "registry_inv r \<Longrightarrow> registry_inv (run ps r)"
  by (induction ps arbitrary: r) (auto simp: inv_upd)

end

text \<open>A probe is a health update that never lifts a quarantine.\<close>

locale probe_op = health_update +
  assumes sticky: "Quarantined h \<Longrightarrow> Quarantined (effect p h)"
begin

lemma fold_sticky: "Quarantined h \<Longrightarrow> Quarantined (fold effect ps h)"
  by (induction ps arbitrary: h) (auto simp: sticky)

lemma run_sticky:
  "health_at r k = Some h \<Longrightarrow> Quarantined h \<Longrightarrow> \<exists>h'. health_at (run ps r) k = Some h' \<and> Quarantined h'"
  by (simp add: health_run fold_sticky)

end

interpretation set_health: health_update "\<lambda>(k, h). SetHealth k h" "\<lambda>_. True" fst "\<lambda>p _. snd p"
  by unfold_locales (auto simp: SetHealth_def)

interpretation mark_probe: probe_op "\<lambda>(k, b, t). MarkProbe k b t" "\<lambda>_. True" fst
    "\<lambda>(k, b, t). mark_health b t"
  by unfold_locales (auto simp: MarkProbe_def mark_health_def Let_def)

interpretation apply_probe: probe_op ApplyProbe "\<lambda>p. \<not> IsZero (pr_checked_at p)" pr_endpoint probe_health
  by unfold_locales (auto simp: ApplyProbe_def probe_health_def Let_def)

section \<open>Facts: the outcome history of an endpoint\<close>

text \<open>
  Probes arrive as calls of \<open>MarkProbe\<close> and of \<open>ApplyProbe\<close> in any order. Abstractly a probe is one of
  three outcomes, and an endpoint's health is a function of its outcome history.
\<close>

datatype probe_event = Mark EndpointID bool time | Report ProbeReport

fun apply_event :: "probe_event \<Rightarrow> (Registry, unit) act" where
  "apply_event (Mark k b t) = MarkProbe k b t"
| "apply_event (Report p) = ApplyProbe p"

fun event_ok :: "probe_event \<Rightarrow> bool" where
  "event_ok (Mark k b t) = True"
| "event_ok (Report p) = (\<not> IsZero (pr_checked_at p))"

fun event_target :: "probe_event \<Rightarrow> EndpointID" where
  "event_target (Mark k b t) = k"
| "event_target (Report p) = pr_endpoint p"

fun event_time :: "probe_event \<Rightarrow> time" where
  "event_time (Mark k b t) = t"
| "event_time (Report p) = pr_checked_at p"

fun event_effect :: "probe_event \<Rightarrow> Health \<Rightarrow> Health" where
  "event_effect (Mark k b t) = mark_health b t"
| "event_effect (Report p) = probe_health p"

interpretation events: probe_op apply_event event_ok event_target event_effect
proof
  fix p r rd
  show "event_ok p \<Longrightarrow> map_of (records r) (event_target p) = Some rd \<Longrightarrow>
      apply_event p r = (Inr (), r\<lparr>records := AList.update (event_target p)
        (rd\<lparr>Health_of := event_effect p (Health_of rd)\<rparr>) (records r)\<rparr>)"
    by (cases p) (auto simp: ApplyProbe_def MarkProbe_def)
  show "\<not> event_ok p \<or> map_of (records r) (event_target p) = None \<Longrightarrow> \<exists>err. apply_event p r = (Inl err, r)"
    by (cases p) (auto simp: ApplyProbe_def MarkProbe_def)
  show "Quarantined h \<Longrightarrow> Quarantined (event_effect p h)" for h
    using apply_probe.sticky by (cases p) (auto simp: mark_health_def Let_def)
qed

datatype outcome = Up | Soft | Hard

fun outcome_of :: "probe_event \<Rightarrow> outcome" where
  "outcome_of (Mark k b t) = (if b then Up else Soft)"
| "outcome_of (Report p) = (if hardFailure p then Hard else if \<not> Reachable p then Soft else Up)"

text \<open>The specification of quarantine: a hard failure, or three soft failures in a row.\<close>

definition quarantine_spec :: "outcome list \<Rightarrow> bool" where
  "quarantine_spec os \<longleftrightarrow> Hard \<in> set os \<or> sublist [Soft, Soft, Soft] os"

definition softs :: "outcome list \<Rightarrow> nat" where
  "softs os = length (takeWhile (\<lambda>o'. o' = Soft) (rev os))"

lemma softs_simps [simp]:
  "softs [] = 0" "softs (os @ [Up]) = 0" "softs (os @ [Hard]) = 0" "softs (os @ [Soft]) = Suc (softs os)"
  by (simp_all add: softs_def)

lemma quarantine_snoc [simp]:
  "\<not> quarantine_spec []"
  "quarantine_spec (os @ [Hard])"
  "quarantine_spec (os @ [Up]) \<longleftrightarrow> quarantine_spec os"
  "quarantine_spec (os @ [Soft]) \<longleftrightarrow> quarantine_spec os \<or> 2 \<le> softs os"
proof -
  have two: "2 \<le> softs os \<longleftrightarrow> suffix [Soft, Soft] os"
    by (cases os rule: rev_cases; cases "butlast os" rule: rev_cases)
      (auto simp: softs_def suffix_def)
  show "quarantine_spec (os @ [Soft]) \<longleftrightarrow> quarantine_spec os \<or> 2 \<le> softs os"
    unfolding two using snoc_suffix_snoc [of "[Soft, Soft]" Soft os Soft]
    by (auto simp: quarantine_spec_def sublist_snoc)
qed (auto simp: quarantine_spec_def sublist_snoc suffix_def)

lemma event_effect_simps:
  "outcome_of p = Up \<Longrightarrow> \<not> Quarantined h \<Longrightarrow>
     event_effect p h = \<lparr>Healthy = True, Quarantined = False, CheckedAt = event_time p, Failures = 0\<rparr>"
  "outcome_of p = Hard \<Longrightarrow> Quarantined (event_effect p h) \<and> \<not> Healthy (event_effect p h)"
  "outcome_of p = Soft \<Longrightarrow> event_effect p h =
     \<lparr>Healthy = False, Quarantined = Quarantined h \<or> 3 \<le> Failures h + 1, CheckedAt = event_time p,
      Failures = Failures h + 1\<rparr>"
  by (cases p; auto simp: mark_health_def probe_health_def Let_def split: if_splits)+

lemma event_time_effect: "CheckedAt (event_effect p h) = event_time p"
  by (cases p) (auto simp: mark_health_def probe_health_def Let_def)

lemma three_le_word: "n < 3 \<Longrightarrow> (3 :: 32 word) \<le> word_of_nat n + 1 \<longleftrightarrow> 2 \<le> n"
proof -
  assume "n < 3"
  then have "n = 0 \<or> n = 1 \<or> n = 2" by auto
  then show ?thesis by (auto simp: word_le_nat_alt)
qed

text \<open>The refinement, by induction on the history: the counter never wraps before quarantine.\<close>

lemma history_health:
  fixes ps :: "probe_event list"
  defines "h \<equiv> fold event_effect ps zero_Health" and "os \<equiv> map outcome_of ps"
  shows "Quarantined h = quarantine_spec os \<and>
    (\<not> Quarantined h \<longrightarrow> softs os < 3 \<and> Failures h = word_of_nat (softs os) \<and>
       Healthy h = (os \<noteq> [] \<and> last os = Up))"
  unfolding h_def os_def
proof (induction ps rule: rev_induct)
  case Nil
  then show ?case by (simp add: zero_Health_def)
next
  case (snoc p ps)
  let ?h = "fold event_effect ps zero_Health"
  show ?case
  proof (cases "outcome_of p")
    case Up
    then show ?thesis using snoc events.sticky [of ?h p]
      by (cases "Quarantined ?h") (simp_all add: event_effect_simps)
  next
    case Soft
    then show ?thesis using snoc
      by (cases "Quarantined ?h") (auto simp: event_effect_simps three_le_word)
  next
    case Hard
    then show ?thesis by (simp add: event_effect_simps)
  qed
qed

text \<open>Endpoints whose every probe has the same outcome.\<close>

lemma softs_replicate: "softs (replicate n Soft) = n"
  by (simp add: softs_def)

lemma quarantine_replicate:
  "quarantine_spec (replicate n oc) \<longleftrightarrow> oc = Hard \<and> 0 < n \<or> oc = Soft \<and> 3 \<le> n"
proof (induction n)
  case (Suc n)
  have "replicate (Suc n) oc = replicate n oc @ [oc]" by (simp add: replicate_append_same)
  with Suc show ?case by (cases oc) (auto simp: softs_replicate)
qed simp

lemma steady_health:
  assumes "map outcome_of evs = replicate (Suc n) oc"
  shows "Healthy (fold event_effect evs zero_Health) = (oc = Up)"
    and "Quarantined (fold event_effect evs zero_Health) = (oc = Hard \<or> oc = Soft \<and> 2 \<le> n)"
proof -
  have q: "quarantine_spec (map outcome_of evs) = (oc = Hard \<or> oc = Soft \<and> 2 \<le> n)"
    unfolding assms quarantine_replicate by auto
  then show "Quarantined (fold event_effect evs zero_Health) = (oc = Hard \<or> oc = Soft \<and> 2 \<le> n)"
    using history_health [of evs] by simp
  obtain p ps where evs: "evs = ps @ [p]" using assms by (cases evs rule: rev_cases) auto
  then have "outcome_of p = oc" using assms by (metis last_map last_replicate last_snoc map_is_Nil_conv nat.distinct(1) snoc_eq_iff_butlast)
  then show "Healthy (fold event_effect evs zero_Health) = (oc = Up)"
    using history_health [of evs] q assms event_effect_simps(2,3) [of p] evs
    by (cases oc) auto
qed

section \<open>Facts: the monitor\<close>

text \<open>What a probe of one endpoint amounts to, given what the prober returned.\<close>

definition result_outcome :: "go_error + ProbeReport \<Rightarrow> outcome \<Rightarrow> bool" where
  "result_outcome res oc =
     (case res of Inl _ \<Rightarrow> oc = Soft
      | Inr rep \<Rightarrow> \<not> IsZero (pr_checked_at rep) \<and> oc = outcome_of (Report rep))"

lemma on_registry_simps [simp]:
  "registry (snd (on_registry m w)) = snd (m (registry w))"
  by (simp add: on_registry_def split: prod.splits)

lemma probe_one_event:
  assumes "keeps registry (prober e)"
  shows "\<exists>ev w'. probe_one prober e w = (Inr (), w') \<and> event_target ev = ep_id e \<and>
     registry w' = snd (apply_event ev (registry w)) \<and>
     (\<forall>oc. result_outcome (fst (prober e w)) oc \<longrightarrow> event_ok ev \<and> outcome_of ev = oc)"
proof (cases "prober e w")
  case (Pair res w1)
  with assms have r: "registry w1 = registry w" by (rule keepsD)
  show ?thesis
  proof (cases res)
    case (Inl err)
    with Pair r show ?thesis
      by (intro exI [of _ "Mark (ep_id e) False (clock w1 (ticks w1))"])
        (simp add: probe_one_def result_outcome_def)
  next
    case (Inr rep)
    with Pair r show ?thesis
      by (intro exI [of _ "Report (rep\<lparr>pr_endpoint := ep_id e\<rparr>)"])
        (auto simp: probe_one_def result_outcome_def hardFailure_def)
  qed
qed

lemma Snapshot_endpoints:
  assumes "registry_inv r"
  shows "e \<in> fst ` set (Snapshot r) \<longleftrightarrow> endpoint_at r (ep_id e) = Some e"
proof -
  have "e \<in> fst ` set (Snapshot r) \<longleftrightarrow> (\<exists>h. (e, h) \<in> set (Snapshot r))" by force
  also have "\<dots> \<longleftrightarrow> (\<exists>rd. map_of (records r) (ep_id e) = Some rd \<and> Endpoint_of rd = e)"
    by (simp add: Snapshot_Resolve [OF assms] Resolve_lookup [OF assms])
      (metis endpointRecord.select_convs(1) endpointRecord_eta)
  finally show ?thesis by (simp add: endpoint_at_def)
qed

lemma fresh_registry_at:
  assumes "NewRegistry es = Inr r" and "e \<in> set es"
  shows "health_at r (ep_id e) = Some zero_Health" and "endpoint_at r (ep_id e) = Some e"
proof -
  have "map_of (records r) (ep_id e) = Some \<lparr>Endpoint_of = e, Health_of = zero_Health\<rparr>"
    using assms NewRegistry_inv [OF assms(1)]
    by (simp add: NewRegistry_Inr registry_inv_def fresh_record_def)
  then show "health_at r (ep_id e) = Some zero_Health" and "endpoint_at r (ep_id e) = Some e"
    by (simp_all add: health_at_def endpoint_at_def)
qed

lemma Resolve_at:
  "registry_inv r \<Longrightarrow> endpoint_at r k = Some e \<Longrightarrow> health_at r k = Some h \<Longrightarrow> Resolve r k = Inr (e, h)"
  by (auto simp: Resolve_lookup health_at_def endpoint_at_def)

lemma probe_each_frame:
  assumes "\<And>e. keeps registry (prober e)"
  shows "\<exists>w'. probe_each prober es w = (Inr (), w') \<and>
     (\<forall>k. k \<notin> ep_id ` set es \<longrightarrow> health_at (registry w') k = health_at (registry w) k) \<and>
     (\<forall>k. endpoint_at (registry w') k = endpoint_at (registry w) k) \<and>
     (registry_inv (registry w) \<longrightarrow> registry_inv (registry w'))"
proof (induction es arbitrary: w)
  case (Cons e es)
  obtain ev w1 where "probe_one prober e w = (Inr (), w1)" "event_target ev = ep_id e"
      "registry w1 = snd (apply_event ev (registry w))"
    using probe_one_event [of prober e w] assms by blast
  moreover obtain w2 where "probe_each prober es w1 = (Inr (), w2)"
      "\<forall>k. k \<notin> ep_id ` set es \<longrightarrow> health_at (registry w2) k = health_at (registry w1) k"
      "\<forall>k. endpoint_at (registry w2) k = endpoint_at (registry w1) k"
      "registry_inv (registry w1) \<longrightarrow> registry_inv (registry w2)"
    using Cons by blast
  ultimately show ?case
    by (auto simp: events.health_upd events.endpoint_upd events.inv_upd option.map_id)
qed simp

lemma probe_each_target:
  assumes "\<And>e. keeps registry (prober e)" and "\<And>w. result_outcome (fst (prober e w)) oc"
    and "e \<in> set es" "distinct (map ep_id es)"
  shows "\<exists>ev w'. probe_each prober es w = (Inr (), w') \<and> outcome_of ev = oc \<and>
     health_at (registry w') (ep_id e) = map_option (event_effect ev) (health_at (registry w) (ep_id e))"
  using assms(3,4)
proof (induction es arbitrary: w)
  case (Cons a es)
  obtain ev w1 where one: "probe_one prober a w = (Inr (), w1)" "event_target ev = ep_id a"
      "registry w1 = snd (apply_event ev (registry w))"
      "\<forall>oc. result_outcome (fst (prober a w)) oc \<longrightarrow> event_ok ev \<and> outcome_of ev = oc"
    using probe_one_event [of prober a w] assms(1) by blast
  show ?case
  proof (cases "e = a")
    case True
    then have "event_ok ev" "outcome_of ev = oc" using one(4) assms(2) by blast+
    moreover have "ep_id e \<notin> ep_id ` set es" using Cons.prems True by auto
    ultimately show ?thesis
      using one True probe_each_frame [of prober es w1] assms(1)
      by (auto simp: events.health_upd intro!: exI [of _ ev])
  next
    case False
    then have "ep_id a \<noteq> ep_id e" using Cons.prems by (auto simp: image_iff)
    then show ?thesis
      using one False Cons.IH [of w1] Cons.prems by (auto simp: events.health_upd option.map_id)
  qed
qed simp

text \<open>One round probes every registered endpoint exactly once.\<close>

lemma probeAll_round:
  assumes p: "Prober m = Some prober" "\<And>e. keeps registry (prober e)"
    and e: "\<And>w. result_outcome (fst (prober e w)) oc"
    and r: "registry_inv (registry w)" "endpoint_at (registry w) (ep_id e) = Some e"
  shows "\<exists>ev w'. probeAll m w = (Inr (), w') \<and> outcome_of ev = oc \<and>
     health_at (registry w') (ep_id e) = map_option (event_effect ev) (health_at (registry w) (ep_id e)) \<and>
     registry_inv (registry w') \<and> endpoint_at (registry w') (ep_id e) = Some e"
proof -
  let ?es = "map fst (Snapshot (registry w))"
  have "e \<in> set ?es" "distinct (map ep_id ?es)"
    using r Snapshot_endpoints Snapshot_ids(2) by (auto simp: comp_def)
  with probe_each_target [of prober e oc ?es w] probe_each_frame [of prober ?es w] p e r
  show ?thesis by (auto simp: probeAll_def)
qed

lemma run_loop_rounds:
  assumes p: "Prober m = Some prober" "\<And>e. keeps registry (prober e)"
    and e: "\<And>w. result_outcome (fst (prober e w)) oc"
    and r: "registry_inv (registry w)" "endpoint_at (registry w) (ep_id e) = Some e"
  shows "\<exists>evs w'. run_loop m wakes ctxErr w = (Inl ctxErr, w') \<and>
     map outcome_of evs = replicate (Suc wakes) oc \<and>
     health_at (registry w') (ep_id e) = map_option (fold event_effect evs) (health_at (registry w) (ep_id e)) \<and>
     registry_inv (registry w') \<and> endpoint_at (registry w') (ep_id e) = Some e"
  using r
proof (induction wakes arbitrary: w)
  case 0
  then obtain ev w' where "probeAll m w = (Inr (), w')" "outcome_of ev = oc"
     "health_at (registry w') (ep_id e) = map_option (event_effect ev) (health_at (registry w) (ep_id e))"
     "registry_inv (registry w')" "endpoint_at (registry w') (ep_id e) = Some e"
    using probeAll_round [OF p e] by blast
  then show ?case by (auto intro!: exI [of _ "[ev]"])
next
  case (Suc n)
  then obtain ev w1 where one: "probeAll m w = (Inr (), w1)" "outcome_of ev = oc"
     "health_at (registry w1) (ep_id e) = map_option (event_effect ev) (health_at (registry w) (ep_id e))"
     "registry_inv (registry w1)" "endpoint_at (registry w1) (ep_id e) = Some e"
    using probeAll_round [OF p e] by blast
  then obtain evs w' where "run_loop m n ctxErr w1 = (Inl ctxErr, w')"
     "map outcome_of evs = replicate (Suc n) oc"
     "health_at (registry w') (ep_id e) = map_option (fold event_effect evs) (health_at (registry w1) (ep_id e))"
     "registry_inv (registry w')" "endpoint_at (registry w') (ep_id e) = Some e"
    using Suc.IH by blast
  with one show ?case by (auto simp: option.map_comp comp_def intro!: exI [of _ "ev # evs"])
qed

text \<open>Validation of a concrete endpoint.\<close>

lemmas validate_simps = Endpoint_Validate_def EndpointID_Validate_def endpointIDPattern_def
  countryCodePattern_def lower_digit_def between_def to_upper_def TrimSpace_ascii ascii_def IsSpace_def bv_def

lemma catalog_valid: "list_all (\<lambda>e. Endpoint_Validate e = Inr ()) DefaultEndpointCatalog"
  unfolding DefaultEndpointCatalog_def by (simp add: validate_simps)

lemma catalog_distinct: "distinct (map ep_id DefaultEndpointCatalog)"
  by (simp add: DefaultEndpointCatalog_def)

section \<open>Properties\<close>

text \<open>
  A registry is created exactly from a non-empty list of valid endpoints with distinct
  identifiers; it then holds these endpoints and no others, all of them unprobed, so that none is
  eligible before its first probe.
\<close>

theorem new_registry_exact:
  "((\<exists>r. NewRegistry es = Inr r) \<longleftrightarrow>
      es \<noteq> [] \<and> list_all (\<lambda>e. Endpoint_Validate e = Inr ()) es \<and> distinct (map ep_id es)) \<and>
   (\<forall>r. NewRegistry es = Inr r \<longrightarrow>
      (\<forall>k e h. Resolve r k = Inr (e, h) \<longleftrightarrow> e \<in> set es \<and> ep_id e = k \<and> h = zero_Health) \<and>
      (\<forall>nw maxAge. \<not> Eligible zero_Health nw maxAge))"
proof (intro conjI allI impI)
  show "(\<exists>r. NewRegistry es = Inr r) \<longleftrightarrow>
      es \<noteq> [] \<and> list_all (\<lambda>e. Endpoint_Validate e = Inr ()) es \<and> distinct (map ep_id es)"
    by (auto simp: NewRegistry_Inr)
next
  fix r k e h
  assume r: "NewRegistry es = Inr r"
  then have d: "records r = map fresh_record es" "distinct (map fst (map fresh_record es))"
    unfolding map_fst_fresh by (auto simp: NewRegistry_Inr)
  have "Resolve r k = Inr (e, h) \<longleftrightarrow> (k, \<lparr>Endpoint_of = e, Health_of = h\<rparr>) \<in> set (records r)"
    using d by (simp add: Resolve_lookup NewRegistry_inv [OF r] del: map_fst_fresh)
  then show "Resolve r k = Inr (e, h) \<longleftrightarrow> e \<in> set es \<and> ep_id e = k \<and> h = zero_Health"
    by (auto simp: d fresh_record_def)
qed (simp add: Eligible_def zero_Health_def)

definition one_endpoint :: "Endpoint list" where
  "one_endpoint = [\<lparr>ep_id = ''aws-fr-1'', CountryCode = ''FR'', Provider = ''aws'', Region = ''eu-west-3''\<rparr>]"

lemma NewRegistry_one: "NewRegistry one_endpoint = Inr \<lparr>records = map fresh_record one_endpoint\<rparr>"
  using catalog_valid by (simp add: NewRegistry_Inr one_endpoint_def DefaultEndpointCatalog_def)

theorem new_registry_exact_witness:
  "\<exists>r. NewRegistry one_endpoint = Inr r \<and> Resolve r ''aws-fr-1'' = Inr (hd one_endpoint, zero_Health)"
  using new_registry_exact [of one_endpoint] NewRegistry_one by (simp add: one_endpoint_def)

text \<open>
  A snapshot lists each registered endpoint once, in the order of the identifiers, whatever the
  iteration order of the underlying map, and agrees with \<open>Resolve\<close>.
\<close>

theorem snapshot_deterministic:
  assumes "registry_inv r"
  shows "sorted (map (\<lambda>item. ep_id (fst item)) (Snapshot r)) \<and>
    distinct (map (\<lambda>item. ep_id (fst item)) (Snapshot r)) \<and>
    (\<forall>e h. (e, h) \<in> set (Snapshot r) \<longleftrightarrow> Resolve r (ep_id e) = Inr (e, h)) \<and>
    (\<forall>r'. mset (records r') = mset (records r) \<longrightarrow> Snapshot r' = Snapshot r)"
proof (intro conjI allI impI)
  show d: "distinct (map (\<lambda>item. ep_id (fst item)) (Snapshot r))"
    using Snapshot_ids(2) [OF assms] by (simp add: comp_def)
  show "(e, h) \<in> set (Snapshot r) \<longleftrightarrow> Resolve r (ep_id e) = Inr (e, h)" for e h
    using assms by (rule Snapshot_Resolve)
  show "Snapshot r' = Snapshot r" if m: "mset (records r') = mset (records r)" for r'
  proof -
    let ?xs = "\<lambda>r. map (\<lambda>(_, record). (Endpoint_of record, Health_of record)) (records r)"
    have "mset (?xs r') = mset (Snapshot r)" using m by (simp add: Snapshot_def)
    then have "mset (?xs r') = mset (Snapshot r)" "set (?xs r') = set (Snapshot r)"
      using mset_eq_setD by blast+
    moreover have "inj_on (\<lambda>item. ep_id (fst item)) (set (Snapshot r))"
      using d by (simp add: distinct_map)
    moreover have "sorted (map (\<lambda>item. ep_id (fst item)) (Snapshot r))" by (simp add: Snapshot_def)
    ultimately show ?thesis
      unfolding Snapshot_def [of r'] by (intro sort_key_inj_key_eq) simp_all
  qed
qed (simp add: Snapshot_def)

theorem snapshot_deterministic_witness:
  "registry_inv \<lparr>records = map fresh_record one_endpoint\<rparr> \<and>
   (hd one_endpoint, zero_Health) \<in> set (Snapshot \<lparr>records = map fresh_record one_endpoint\<rparr>)"
proof -
  have i: "registry_inv \<lparr>records = map fresh_record one_endpoint\<rparr>"
    using NewRegistry_one by (rule NewRegistry_inv)
  moreover have "Resolve \<lparr>records = map fresh_record one_endpoint\<rparr> (ep_id (hd one_endpoint)) =
      Inr (hd one_endpoint, zero_Health)"
    by (simp add: Resolve_lookup [OF i]) (simp add: one_endpoint_def fresh_record_def)
  ultimately show ?thesis using snapshot_deterministic [OF i] by blast
qed

text \<open>
  C7: quarantine and eligibility of an endpoint are functions of its own probe history, in whatever
  order probes of other endpoints are interleaved: it is quarantined exactly if it had a hard
  failure or three soft failures in a row, and it is eligible exactly if it is not quarantined, its
  last probe succeeded and that probe is at most \<open>maxAge\<close> old and not in the future. The 32-bit
  failure counter cannot wrap before the endpoint is quarantined.
\<close>

theorem quarantine_exact:
  fixes ps :: "probe_event list"
  assumes "NewRegistry es = Inr r" and "e \<in> set es" and "0 < maxAge" and "maxAge < 2 ^ 63 - 1"
  defines "own \<equiv> filter (\<lambda>p. event_ok p \<and> event_target p = ep_id e) ps"
  shows "\<exists>h. Resolve (fold (\<lambda>p r. snd (apply_event p r)) ps r) (ep_id e) = Inr (e, h) \<and>
     Quarantined h = quarantine_spec (map outcome_of own) \<and>
     Eligible h nw maxAge =
       (own \<noteq> [] \<and> outcome_of (last own) = Up \<and> \<not> quarantine_spec (map outcome_of own) \<and>
        \<not> IsZero (event_time (last own)) \<and>
        event_time (last own) \<le> nw \<and> nw - event_time (last own) \<le> maxAge)"
proof -
  let ?r = "events.run ps r" and ?h = "fold event_effect own zero_Health"
  have inv: "registry_inv r" using assms(1) by (rule NewRegistry_inv)
  from fresh_registry_at [OF assms(1,2)]
  have "health_at ?r (ep_id e) = Some ?h" "endpoint_at ?r (ep_id e) = Some e"
    by (simp_all add: events.health_run events.endpoint_run own_def)
  then have res: "Resolve ?r (ep_id e) = Inr (e, ?h)"
    using events.inv_run [OF inv, of ps] by (simp add: Resolve_at)
  have "CheckedAt ?h = event_time (last own)" if "own \<noteq> []"
    using that by (cases own rule: rev_cases) (simp_all add: event_time_effect)
  then have "Eligible ?h nw maxAge =
       (own \<noteq> [] \<and> outcome_of (last own) = Up \<and> \<not> quarantine_spec (map outcome_of own) \<and>
        \<not> IsZero (event_time (last own)) \<and>
        event_time (last own) \<le> nw \<and> nw - event_time (last own) \<le> maxAge)"
    using history_health [of own] assms(3,4)
    by (auto simp: Eligible_def Let_def last_map time_sub_le)
  with res history_health [of own] show ?thesis unfolding events.run_def by blast
qed

theorem quarantine_exact_witness:
  "\<exists>h. Resolve (fold (\<lambda>p r. snd (apply_event p r))
         [Mark ''aws-fr-1'' False 1, Mark ''aws-fr-1'' False 2, Mark ''aws-fr-1'' False 3,
          Mark ''aws-fr-1'' True 4] \<lparr>records = map fresh_record one_endpoint\<rparr>) ''aws-fr-1''
       = Inr (hd one_endpoint, h) \<and> Quarantined h \<and> \<not> Eligible h 5 (90 * Second)"
  using quarantine_exact [OF NewRegistry_one, of "hd one_endpoint" "90 * Second"
      "[Mark ''aws-fr-1'' False 1, Mark ''aws-fr-1'' False 2, Mark ''aws-fr-1'' False 3, Mark ''aws-fr-1'' True 4]" 5]
  by (auto simp: one_endpoint_def quarantine_spec_def sublist_Cons_right)

text \<open>
  C8: the health monitor. Given the 60 second interval and a prober that leaves the registry alone,
  \<open>Run\<close> returns the context's error, and an endpoint whose probes always have the same outcome is
  healthy exactly if that outcome is success, and quarantined exactly if it is a leak or mismatch,
  or if it is unreachability in at least three rounds (two timer wakes).
\<close>

theorem monitor_rounds:
  assumes "NewRegistry es = Inr (registry w)" and "e \<in> set es"
    and "Prober m = Some prober" and "Interval m = 60 * Second"
    and "\<And>a. keeps registry (prober a)" and "\<And>w. result_outcome (fst (prober e w)) oc"
  shows "\<exists>w' h. Run m wakes ctxErr w = (Inl ctxErr, w') \<and>
     Resolve (registry w') (ep_id e) = Inr (e, h) \<and>
     Healthy h = (oc = Up) \<and> Quarantined h = (oc = Hard \<or> oc = Soft \<and> 2 \<le> wakes)"
proof -
  have inv: "registry_inv (registry w)" using assms(1) by (rule NewRegistry_inv)
  note at = fresh_registry_at [OF assms(1,2)]
  obtain evs w' where loop: "run_loop m wakes ctxErr w = (Inl ctxErr, w')"
      "map outcome_of evs = replicate (Suc wakes) oc"
      "health_at (registry w') (ep_id e) = map_option (fold event_effect evs) (health_at (registry w) (ep_id e))"
      "registry_inv (registry w')" "endpoint_at (registry w') (ep_id e) = Some e"
    using run_loop_rounds [OF assms(3,5,6) inv at(2)] by blast
  let ?h = "fold event_effect evs zero_Health"
  have "Resolve (registry w') (ep_id e) = Inr (e, ?h)"
    using loop at(1) by (simp add: Resolve_at)
  moreover have "Healthy ?h = (oc = Up)" "Quarantined ?h = (oc = Hard \<or> oc = Soft \<and> 2 \<le> wakes)"
    using steady_health [OF loop(2)] by auto
  ultimately show ?thesis using loop(1) assms(3,4) by (auto simp: Run_def)
qed

definition sample_monitor :: "unit egress_world_ext world_scheme HealthMonitor" where
  "sample_monitor = \<lparr>Prober = Some (\<lambda>_. fail (ErrorsNew ''timeout'')), Interval = 60 * Second\<rparr>"

definition sample_egress :: egress_world where
  "sample_egress = \<lparr>entropy = replicate 64 CHR 0x07, clock = (\<lambda>n. int n), ticks = 0,
     registry = \<lparr>records = map fresh_record one_endpoint\<rparr>\<rparr>"

theorem monitor_rounds_witness:
  "\<exists>w' h. Run sample_monitor 2 (Sentinel ErrCanceled) sample_egress = (Inl (Sentinel ErrCanceled), w') \<and>
     Resolve (registry w') ''aws-fr-1'' = Inr (hd one_endpoint, h) \<and> \<not> Healthy h \<and> Quarantined h"
  using monitor_rounds [of one_endpoint sample_egress "hd one_endpoint" sample_monitor
      "\<lambda>_. fail (ErrorsNew ''timeout'')" Soft 2 "Sentinel ErrCanceled"] NewRegistry_one
  by (auto simp: sample_egress_def sample_monitor_def one_endpoint_def result_outcome_def)

end
