(* ===== verification/Egress_Selector.thy ===== *)
theory Egress_Selector
  imports Egress_Registry Go_Crypto
begin

text \<open>
  Package \<open>internal/egress\<close>, part two: the selection of an endpoint for a dispatch (selector.go). The
  lemmas show which endpoints a lease can name, that the rejection sampling of \<open>randomIndex\<close> is in
  range and unbiased, and that selection fails only for the reasons the code states.
\<close>

section \<open>Definitions (selector.go)\<close>

text \<open>\<open>AllowedCountries\<close> is a Go map used as a set: its distinct keys, in some iteration order.\<close>

record SelectionPolicy =
  AllowedCountries :: "string list"
  MinHealthyCountries :: int
  MaxHealthAge :: duration
  LeaseTTL :: duration
  StableXEndpointID :: EndpointID

definition DefaultSelectionPolicy :: SelectionPolicy where
  "DefaultSelectionPolicy =
     \<lparr>AllowedCountries = [''FR'', ''DE'', ''GB'', ''SE'', ''CH''], MinHealthyCountries = 3,
      MaxHealthAge = 90 * Second, LeaseTTL = 5 * Minute, StableXEndpointID = ''aws-fr-1''\<rparr>"

text \<open>
  A selector holds its policy; the registry it points to is the one of the world, which probes may
  change between two selections, and its random source is the world's.
\<close>

record Selector =
  policy :: SelectionPolicy

definition NewSelector :: "Registry option \<Rightarrow> SelectionPolicy \<Rightarrow> go_error + Selector" where
  "NewSelector reg p =
     (case reg of
        None \<Rightarrow> Inl (ErrorsNew ''registry is required'')
      | Some r \<Rightarrow>
          if MinHealthyCountries p < 3
          then Inl (ErrorsNew ''minimum healthy countries cannot be less than 3'')
          else if MaxHealthAge p \<le> 0 \<or> LeaseTTL p \<le> 0
          then Inl (ErrorsNew ''health age and lease TTL must be positive'')
          else if int (length (AllowedCountries p)) < MinHealthyCountries p
          then Inl (ErrorsNew ''allowed country set is smaller than minimum healthy countries'')
          else (case find (\<lambda>c. \<not> countryCodePattern c) (AllowedCountries p) of
                  Some c \<Rightarrow> Inl (Errorf ''invalid allowed country code %q'' [ArgS c] None)
                | None \<Rightarrow>
                    (case Resolve r (StableXEndpointID p) of
                       Inl err \<Rightarrow> Inl (Errorf ''stable X endpoint: %w'' [] (Some err))
                     | Inr _ \<Rightarrow> Inr \<lparr>policy = p\<rparr>)))"

record EgressLease =
  ls_id :: string
  ls_job_id :: string
  ls_platform :: string
  ls_endpoint :: EndpointID
  ls_country :: string
  IssuedAt :: time
  ExpiresAt :: time

text \<open>
  \<open>crypto/rand.Int\<close>: as many bytes as \<open>max - 1\<close> needs, the surplus bits of the first one cleared, and a
  new draw while the number is not below \<open>max\<close>.
\<close>

fun BitLen :: "nat \<Rightarrow> nat" where
  "BitLen n = (if n = 0 then 0 else Suc (BitLen (n div 2)))"

declare BitLen.simps [simp del]

definition candidate :: "nat \<Rightarrow> bytes \<Rightarrow> nat" where
  "candidate bitLen bs =
     (let b = (if bitLen mod 8 = 0 then 8 else bitLen mod 8)
      in be_nat (bc (bv (hd bs) mod 2 ^ b) # tl bs))"

function draw :: "nat \<Rightarrow> nat \<Rightarrow> ('z world_scheme, nat) act" where
  "draw bitLen mx w =
     (let k = (bitLen + 7) div 8
      in case ReadFull k w of
           (Inl err, w') \<Rightarrow> (Inl err, w')
         | (Inr bs, w') \<Rightarrow>
             if k = 0 then (Inr 0, w')
             else if candidate bitLen bs < mx then (Inr (candidate bitLen bs), w')
             else draw bitLen mx w')"
  by pat_completeness auto
termination
  by (relation "measure (\<lambda>(bitLen, mx, w). length (entropy w))")
    (auto dest!: sym [of "(Inr _, _)"] simp: ReadFull_eq_Inr)

declare draw.simps [simp del]

definition rand_Int :: "nat \<Rightarrow> ('z world_scheme, nat) act" where
  "rand_Int mx = (let bitLen = BitLen (mx - 1) in if bitLen = 0 then ok 0 else draw bitLen mx)"

definition randomIndex :: "nat \<Rightarrow> ('z world_scheme, nat) act" where
  "randomIndex len =
     (if len \<le> 0 then fail (ErrorsNew ''cannot sample an empty set'') else rand_Int len)"

definition newLease :: "Selector \<Rightarrow> string \<Rightarrow> string \<Rightarrow> Endpoint \<Rightarrow> time \<Rightarrow> ('z world_scheme, EgressLease) act" where
  "newLease s jobID platform endpoint nw =
     ebind (wrap_err (\<lambda>err. Errorf ''create lease ID: %w'' [] (Some err)) (ReadFull 16)) (\<lambda>raw.
     ok \<lparr>ls_id = hex_encode raw, ls_job_id = jobID, ls_platform = platform,
         ls_endpoint = ep_id endpoint, ls_country = CountryCode endpoint,
         IssuedAt = nw, ExpiresAt = nw + LeaseTTL (policy s)\<rparr>)"

definition selectStableX :: "Selector \<Rightarrow> string \<Rightarrow> time \<Rightarrow> ('z egress_world_scheme, EgressLease) act" where
  "selectStableX s jobID nw w =
     (case Resolve (registry w) (StableXEndpointID (policy s)) of
        Inl err \<Rightarrow> (Inl err, w)
      | Inr (endpoint, health) \<Rightarrow>
          if CountryCode endpoint \<noteq> ''FR''
          then (Inl (ErrorsNew ''stable X endpoint must be in FR''), w)
          else if \<not> Eligible health nw (MaxHealthAge (policy s))
          then (Inl (Sentinel ErrEndpointNotHealthy), w)
          else newLease s jobID EgressPlatformX endpoint nw w)"

text \<open>The Go map \<open>byCountry\<close>, filled in snapshot order; a missing key reads as the nil slice.\<close>

definition slice_at :: "(string \<times> Endpoint list) list \<Rightarrow> string \<Rightarrow> Endpoint list" where
  "slice_at m c = (case map_of m c of None \<Rightarrow> [] | Some es \<Rightarrow> es)"

fun group_by_country :: "SelectionPolicy \<Rightarrow> time \<Rightarrow> (string \<times> Endpoint list) list \<Rightarrow>
    (Endpoint \<times> Health) list \<Rightarrow> (string \<times> Endpoint list) list" where
  "group_by_country p nw m [] = m"
| "group_by_country p nw m ((endpoint, health) # items) =
     (if CountryCode endpoint \<notin> set (AllowedCountries p) then group_by_country p nw m items
      else if \<not> Eligible health nw (MaxHealthAge p) then group_by_country p nw m items
      else group_by_country p nw
        (AList.update (CountryCode endpoint) (slice_at m (CountryCode endpoint) @ [endpoint]) m) items)"

definition Select :: "Selector \<Rightarrow> string \<Rightarrow> string \<Rightarrow> string \<Rightarrow> time \<Rightarrow>
    ('z egress_world_scheme, EgressLease) act" where
  "Select s jobID platform previousCountry nw =
     ebind (lift (ValidateJobID jobID)) (\<lambda>_.
     ebind (lift (Platform_Validate platform)) (\<lambda>_.
     ebind (ensure (previousCountry = [] \<or> countryCodePattern previousCountry)
              (Errorf ''invalid previous country code %q'' [ArgS previousCountry] None)) (\<lambda>_.
     ebind (ensure (previousCountry = [] \<or> previousCountry \<in> set (AllowedCountries (policy s)))
              (Errorf ''previous country %q is outside the allowed pool'' [ArgS previousCountry] None)) (\<lambda>_.
     if platform = EgressPlatformX then selectStableX s jobID nw
     else (\<lambda>w.
       let byCountry = group_by_country (policy s) nw [] (Snapshot (registry w))
       in (if int (length byCountry) < MinHealthyCountries (policy s)
           then fail (Errorf ''%w: got %d, require %d''
                  [ArgI (int (length byCountry)), ArgI (MinHealthyCountries (policy s))]
                  (Some (Sentinel ErrInsufficientCountries)))
           else
             let countries = filter (\<lambda>c. c \<noteq> previousCountry) (map fst byCountry)
             in if length countries = 0 then fail (Sentinel ErrNoEligibleAlternate)
                else
                  let countries = sort countries
                  in ebind (wrap_err (\<lambda>err. Errorf ''select country: %w'' [] (Some err))
                              (randomIndex (length countries))) (\<lambda>countryIndex.
                     let country = countries ! countryIndex;
                         endpoints = sort_key ep_id (slice_at byCountry country)
                     in ebind (wrap_err (\<lambda>err. Errorf ''select endpoint: %w'' [] (Some err))
                                 (randomIndex (length endpoints))) (\<lambda>endpointIndex.
                        newLease s jobID platform (endpoints ! endpointIndex) nw))) w)))))"

section \<open>Facts: random indices\<close>

lemma BitLen_bound: "n < 2 ^ BitLen n"
proof (induction n rule: BitLen.induct)
  case (1 n)
  then show ?case by (subst BitLen.simps) (cases "n = 0"; simp; linarith)
qed

lemma be_nat_Cons: "be_nat (c # t) = bv c * 256 ^ length t + be_nat t"
proof -
  have "foldl (\<lambda>a c. 256 * a + bv c) a t = a * 256 ^ length t + foldl (\<lambda>a c. 256 * a + bv c) 0 t" for a
    by (induction t rule: rev_induct) (simp_all add: algebra_simps)
  from this [of "bv c"] show ?thesis by (simp add: be_nat_def)
qed

lemma be_nat_bound: "be_nat bs < 256 ^ length bs"
proof (induction bs)
  case (Cons c t)
  have "bv c + 1 \<le> 256" using bv_less [of c] by linarith
  from mult_le_mono1 [OF this, of "256 ^ length t"]
  have "bv c * 256 ^ length t + 256 ^ length t \<le> 256 * 256 ^ length t" by (simp add: algebra_simps)
  with Cons show ?case unfolding be_nat_Cons length_Cons power_Suc by linarith
qed (simp add: be_nat_def)

lemma top_bits: "(x mod 2 ^ b) * 256 ^ n + y = (x * 256 ^ n + y) mod (2 ^ (b + 8 * n) :: nat)"
  if "y < 256 ^ n"
proof -
  have "(2 :: nat) ^ (b + 8 * n) = 256 ^ n * 2 ^ b" by (simp add: power_add power_mult)
  then show ?thesis using that by (simp add: mod_mult2_eq add.commute)
qed

lemma byte_count:
  assumes "0 < (bitLen :: nat)"
  shows "bitLen = (if bitLen mod 8 = 0 then 8 else bitLen mod 8) + 8 * ((bitLen + 7) div 8 - 1)"
proof -
  obtain q m where b: "bitLen = 8 * q + m" "m < 8"
    using mult_div_mod_eq [of 8 bitLen] mod_less_divisor [of 8 bitLen] by (metis zero_less_numeral)
  show ?thesis
  proof (cases m)
    case 0
    then show ?thesis using b assms by (cases q) simp_all
  next
    case (Suc i)
    then have "bitLen + 7 = 8 * (q + 1) + i" using b by simp
    then show ?thesis using b Suc by simp
  qed
qed

text \<open>Clearing the surplus bits is reduction modulo the power of two.\<close>

lemma candidate_mod:
  assumes "0 < bitLen" and "length bs = (bitLen + 7) div 8"
  shows "candidate bitLen bs = be_nat bs mod 2 ^ bitLen"
proof -
  obtain c t where bs: "bs = c # t" using assms by (cases bs) auto
  define b where "b = (if bitLen mod 8 = 0 then 8 else bitLen mod 8)"
  have len: "bitLen = b + 8 * length t" using byte_count [OF assms(1)] assms(2) by (simp add: bs b_def)
  have "bv c mod 2 ^ b < 256" by (rule le_less_trans [OF mod_less_eq_dividend bv_less])
  then have "candidate bitLen bs = (bv c mod 2 ^ b) * 256 ^ length t + be_nat t"
    by (simp add: candidate_def bs be_nat_Cons flip: b_def)
  also have "\<dots> = be_nat bs mod 2 ^ bitLen"
    using top_bits [OF be_nat_bound, of "bv c" b t] by (simp add: bs be_nat_Cons len)
  finally show ?thesis .
qed

definition entropy_error :: "go_error \<Rightarrow> bool" where
  "entropy_error e \<longleftrightarrow> errors_Is e ErrEOF \<or> errors_Is e ErrUnexpectedEOF"

lemma ReadFull_Inl: "ReadFull n w = (Inl e, w') \<Longrightarrow> entropy_error e"
  by (auto simp: ReadFull_def entropy_error_def split: if_splits)

text \<open>What is true of every single read is true of the loop.\<close>

lemma draw_induct:
  assumes "\<And>w e w'. ReadFull ((bitLen + 7) div 8) w = (Inl e, w') \<Longrightarrow> P w (Inl e, w')"
    and "\<And>w bs w' i. ReadFull ((bitLen + 7) div 8) w = (Inr bs, w') \<Longrightarrow> i < mx \<or> i = 0 \<Longrightarrow> P w (Inr i, w')"
    and "\<And>w bs w' z. ReadFull ((bitLen + 7) div 8) w = (Inr bs, w') \<Longrightarrow> P w' z \<Longrightarrow> P w z"
  shows "P w (draw bitLen mx w)"
proof (induction "length (entropy w)" arbitrary: w rule: less_induct)
  case less
  obtain res w' where r: "ReadFull ((bitLen + 7) div 8) w = (res, w')" by fastforce
  show ?case
  proof (cases res)
    case (Inl e)
    then show ?thesis using r assms(1) by (simp add: draw.simps Let_def)
  next
    case (Inr bs)
    show ?thesis
    proof (cases "(bitLen + 7) div 8 = 0 \<or> candidate bitLen bs < mx")
      case True
      then show ?thesis using r Inr assms(2) by (auto simp: draw.simps [of bitLen mx w] Let_def)
    next
      case False
      then have "draw bitLen mx w = draw bitLen mx w'"
        using r Inr by (simp add: draw.simps [of bitLen mx w] Let_def)
      moreover have "length (entropy w') < length (entropy w)"
        using False r Inr by (auto simp: ReadFull_eq_Inr)
      ultimately show ?thesis using less assms(3) r Inr by metis
    qed
  qed
qed

lemma draw_range: "draw bitLen mx w = (Inr i, w') \<Longrightarrow> 0 < mx \<Longrightarrow> i < mx"
proof -
  have "\<forall>i w'. draw bitLen mx w = (Inr i, w') \<longrightarrow> i < mx \<or> i = 0"
    by (rule draw_induct [where P = "\<lambda>w z. \<forall>i w'. z = (Inr i, w') \<longrightarrow> i < mx \<or> i = 0"]) auto
  then show "draw bitLen mx w = (Inr i, w') \<Longrightarrow> 0 < mx \<Longrightarrow> i < mx" by blast
qed

lemma draw_error: "draw bitLen mx w = (Inl e, w') \<Longrightarrow> entropy_error e"
proof -
  have "\<forall>e w'. draw bitLen mx w = (Inl e, w') \<longrightarrow> entropy_error e"
    by (rule draw_induct [where P = "\<lambda>w z. \<forall>e w'. z = (Inl e, w') \<longrightarrow> entropy_error e"])
      (auto dest: ReadFull_Inl)
  then show "draw bitLen mx w = (Inl e, w') \<Longrightarrow> entropy_error e" by blast
qed

lemma keeps_draw: "ambient_free g \<Longrightarrow> g (snd (draw bitLen mx w)) = g w"
  by (rule draw_induct [where P = "\<lambda>w z. g (snd z) = g w"])
    (auto dest: keepsD [OF keeps_ReadFull [of g]])

lemma randomIndex_range: "randomIndex n w = (Inr i, w') \<Longrightarrow> i < n"
  by (auto simp: randomIndex_def rand_Int_def Let_def dest: draw_range split: if_splits)

lemma randomIndex_error: "randomIndex n w = (Inl e, w') \<Longrightarrow> 0 < n \<Longrightarrow> entropy_error e"
  by (auto simp: randomIndex_def rand_Int_def Let_def dest: draw_error split: if_splits)

lemma keeps_randomIndex [intro]: "ambient_free g \<Longrightarrow> keeps g (randomIndex n)"
  by (auto simp: keeps_def randomIndex_def rand_Int_def Let_def keeps_draw)

section \<open>Facts: the candidates of a selection\<close>

text \<open>The endpoints the policy allows and the health check passes, in snapshot order.\<close>

definition passing :: "SelectionPolicy \<Rightarrow> time \<Rightarrow> (Endpoint \<times> Health) list \<Rightarrow> Endpoint list" where
  "passing p nw items =
     map fst (filter (\<lambda>(e, h). CountryCode e \<in> set (AllowedCountries p) \<and> Eligible h nw (MaxHealthAge p)) items)"

abbreviation eligible_endpoints :: "SelectionPolicy \<Rightarrow> time \<Rightarrow> Registry \<Rightarrow> Endpoint list" where
  "eligible_endpoints p nw r \<equiv> passing p nw (Snapshot r)"

lemma passing_simps [simp]:
  "passing p nw [] = []"
  "passing p nw ((e, h) # items) =
     (if CountryCode e \<in> set (AllowedCountries p) \<and> Eligible h nw (MaxHealthAge p)
      then e # passing p nw items else passing p nw items)"
  by (simp_all add: passing_def)

lemma slice_at_update [simp]:
  "slice_at (AList.update c es m) d = (if c = d then es else slice_at m d)"
  by (simp add: slice_at_def update_conv')

lemma slice_at_group:
  "slice_at (group_by_country p nw m items) c = slice_at m c @ filter (\<lambda>e. CountryCode e = c) (passing p nw items)"
  by (induction p nw m items rule: group_by_country.induct) auto

lemma keys_group:
  "fst ` set (group_by_country p nw m items) = fst ` set m \<union> CountryCode ` set (passing p nw items)"
  by (induction p nw m items rule: group_by_country.induct) (auto simp: dom_update)

lemma distinct_group:
  "distinct (map fst m) \<Longrightarrow> distinct (map fst (group_by_country p nw m items))"
  by (induction p nw m items rule: group_by_country.induct) (auto simp: distinct_update)

text \<open>The candidate countries of a selection, and how many there are.\<close>

definition eligible_countries :: "SelectionPolicy \<Rightarrow> time \<Rightarrow> Registry \<Rightarrow> string set" where
  "eligible_countries p nw r = CountryCode ` set (eligible_endpoints p nw r)"

lemma group_countries:
  fixes p nw r
  defines "g \<equiv> group_by_country p nw [] (Snapshot r)"
  shows "set (map fst g) = eligible_countries p nw r" and "length g = card (eligible_countries p nw r)"
    and "slice_at g c = filter (\<lambda>e. CountryCode e = c) (eligible_endpoints p nw r)"
proof -
  show keys: "set (map fst g) = eligible_countries p nw r"
    by (simp add: g_def keys_group eligible_countries_def)
  have "distinct (map fst g)" by (simp add: g_def distinct_group)
  then show "length g = card (eligible_countries p nw r)"
    using distinct_card keys by fastforce
  show "slice_at g c = filter (\<lambda>e. CountryCode e = c) (eligible_endpoints p nw r)"
    by (simp add: g_def slice_at_group) (simp add: slice_at_def)
qed

text \<open>An eligible endpoint is registered, in an allowed country, and passes the health check.\<close>

lemma eligible_endpoint:
  assumes "registry_inv r"
  shows "e \<in> set (eligible_endpoints p nw r) \<longleftrightarrow>
    CountryCode e \<in> set (AllowedCountries p) \<and>
    (\<exists>h. Resolve r (ep_id e) = Inr (e, h) \<and> Eligible h nw (MaxHealthAge p))"
proof -
  have "e \<in> set (eligible_endpoints p nw r) \<longleftrightarrow>
    CountryCode e \<in> set (AllowedCountries p) \<and> (\<exists>h. (e, h) \<in> set (Snapshot r) \<and> Eligible h nw (MaxHealthAge p))"
    by (force simp: passing_def)
  then show ?thesis by (simp add: Snapshot_Resolve [OF assms])
qed

lemma newLease_Inr:
  "newLease s jobID platform e nw w = (Inr l, w') \<longleftrightarrow>
     16 \<le> length (entropy w) \<and> w' = w\<lparr>entropy := drop 16 (entropy w)\<rparr> \<and>
     l = \<lparr>ls_id = hex_encode (take 16 (entropy w)), ls_job_id = jobID, ls_platform = platform,
          ls_endpoint = ep_id e, ls_country = CountryCode e, IssuedAt = nw,
          ExpiresAt = nw + LeaseTTL (policy s)\<rparr>"
  by (auto simp: newLease_def ebind_eq_Inr ReadFull_eq_Inr)

lemma newLease_error: "newLease s jobID platform e nw w = (Inl err, w') \<Longrightarrow> entropy_error err"
  by (auto simp: newLease_def ebind_eq_Inl wrap_err_eq_Inl entropy_error_def dest!: ReadFull_Inl)

lemma keeps_newLease [intro]: "ambient_free g \<Longrightarrow> keeps g (newLease s jobID platform e nw)"
  unfolding newLease_def by (intro keeps_ebind keeps_wrap_err keeps_ReadFull keeps_ok)

definition alternates :: "SelectionPolicy \<Rightarrow> time \<Rightarrow> Registry \<Rightarrow> string \<Rightarrow> string list" where
  "alternates p nw r prev = sorted_list_of_set (eligible_countries p nw r - {prev})"

definition endpoints_in :: "SelectionPolicy \<Rightarrow> time \<Rightarrow> Registry \<Rightarrow> string \<Rightarrow> Endpoint list" where
  "endpoints_in p nw r c = sort_key ep_id (filter (\<lambda>e. CountryCode e = c) (eligible_endpoints p nw r))"

definition select_nostr :: "Selector \<Rightarrow> string \<Rightarrow> string \<Rightarrow> time \<Rightarrow> Registry \<Rightarrow> ('z egress_world_scheme, EgressLease) act" where
  "select_nostr s jobID prev nw r =
     (let p = policy s; n = int (card (eligible_countries p nw r)); cs = alternates p nw r prev
      in if n < MinHealthyCountries p
         then fail (Errorf ''%w: got %d, require %d'' [ArgI n, ArgI (MinHealthyCountries p)]
                     (Some (Sentinel ErrInsufficientCountries)))
         else if cs = [] then fail (Sentinel ErrNoEligibleAlternate)
         else ebind (wrap_err (\<lambda>err. Errorf ''select country: %w'' [] (Some err)) (randomIndex (length cs))) (\<lambda>i.
              ebind (wrap_err (\<lambda>err. Errorf ''select endpoint: %w'' [] (Some err))
                      (randomIndex (length (endpoints_in p nw r (cs ! i))))) (\<lambda>j.
              newLease s jobID EgressPlatformNostr (endpoints_in p nw r (cs ! i) ! j) nw)))"

text \<open>Selection for Nostr, over the abstract candidate sets instead of the Go map.\<close>

lemma sort_alternates:
  "sort (filter (\<lambda>c. c \<noteq> prev) (map fst (group_by_country p nw [] (Snapshot r)))) = alternates p nw r prev"
proof -
  let ?l = "filter (\<lambda>c. c \<noteq> prev) (map fst (group_by_country p nw [] (Snapshot r)))"
  have "set ?l = eligible_countries p nw r - {prev}" using group_countries(1) [of p nw r] by auto
  moreover have "distinct ?l" by (simp add: distinct_group)
  ultimately show ?thesis
    unfolding alternates_def by (metis sorted_list_of_set_sort_remdups distinct_remdups_id)
qed

lemma Select_nostr:
  assumes "jobIDPattern jobID"
    and "prev = [] \<or> countryCodePattern prev \<and> prev \<in> set (AllowedCountries (policy s))"
  shows "Select s jobID EgressPlatformNostr prev nw w = select_nostr s jobID prev nw (registry w) w"
proof -
  have empty: "length (filter (\<lambda>c. c \<noteq> prev) (map fst (group_by_country p nw [] (Snapshot r)))) = 0 \<longleftrightarrow>
      alternates p nw r prev = []" for p r
    using sort_alternates [of prev p nw r] by (metis length_0_conv length_sort)
  have v: "ValidateJobID jobID = Inr ()" "Platform_Validate EgressPlatformNostr = Inr ()"
      "EgressPlatformNostr \<noteq> EgressPlatformX"
    using assms(1) by (simp_all add: ValidateJobID_def Platform_Validate_def EgressPlatformX_def EgressPlatformNostr_def)
  show ?thesis
    using assms(2) v
    unfolding Select_def select_nostr_def Let_def empty sort_alternates group_countries(2,3) endpoints_in_def
    by auto
qed

lemma set_alternates: "set (alternates p nw r prev) = eligible_countries p nw r - {prev}"
  by (simp add: alternates_def eligible_countries_def)

lemma endpoints_in_nonempty: "c \<in> eligible_countries p nw r \<Longrightarrow> 0 < length (endpoints_in p nw r c)"
  by (auto simp: endpoints_in_def eligible_countries_def filter_empty_conv)

lemma set_endpoints_in: "set (endpoints_in p nw r c) = {e \<in> set (eligible_endpoints p nw r). CountryCode e = c}"
  by (auto simp: endpoints_in_def)

lemma select_nostr_Inr:
  assumes "select_nostr s jobID prev nw r w = (Inr l, w')"
  obtains e w1 where "e \<in> set (eligible_endpoints (policy s) nw r)" "CountryCode e \<noteq> prev"
    "newLease s jobID EgressPlatformNostr e nw w1 = (Inr l, w')"
    "MinHealthyCountries (policy s) \<le> int (card (eligible_countries (policy s) nw r))"
proof -
  let ?p = "policy s" let ?cs = "alternates ?p nw r prev"
  obtain i j w0 w1 where i: "randomIndex (length ?cs) w = (Inr i, w0)"
      and j: "randomIndex (length (endpoints_in ?p nw r (?cs ! i))) w0 = (Inr j, w1)"
      and l: "newLease s jobID EgressPlatformNostr (endpoints_in ?p nw r (?cs ! i) ! j) nw w1 = (Inr l, w')"
      and m: "MinHealthyCountries ?p \<le> int (card (eligible_countries ?p nw r))"
    using assms by (auto simp: select_nostr_def Let_def ebind_eq_Inr split: if_splits)
  have "?cs ! i \<in> eligible_countries ?p nw r - {prev}"
    using randomIndex_range [OF i] set_alternates nth_mem by metis
  moreover have "endpoints_in ?p nw r (?cs ! i) ! j \<in> set (endpoints_in ?p nw r (?cs ! i))"
    using randomIndex_range [OF j] by simp
  ultimately show thesis using that l m by (auto simp: set_endpoints_in)
qed

lemma select_nostr_Inl:
  assumes "select_nostr s jobID prev nw r w = (Inl err, w')"
    and "3 \<le> MinHealthyCountries (policy s)"
  shows "if int (card (eligible_countries (policy s) nw r)) < MinHealthyCountries (policy s)
     then errors_Is err ErrInsufficientCountries \<and> w' = w else entropy_error err"
proof (cases "int (card (eligible_countries (policy s) nw r)) < MinHealthyCountries (policy s)")
  case True
  with assms(1) show ?thesis by (auto simp: select_nostr_def Let_def)
next
  case False
  let ?p = "policy s" let ?cs = "alternates ?p nw r prev"
  have "card (eligible_countries ?p nw r) \<le> Suc (card (eligible_countries ?p nw r - {prev}))"
    by (auto simp: card_Diff_singleton_if)
  then have "card (eligible_countries ?p nw r - {prev}) \<noteq> 0" using False assms(2) by linarith
  then have ne: "?cs \<noteq> []" using set_alternates by (metis card.empty empty_set)
  have "entropy_error err"
  proof (rule ccontr)
    assume n: "\<not> entropy_error err"
    then have w: "\<not> entropy_error e" if "err = Errorf f [] (Some e)" for e f
      using that by (simp add: entropy_error_def)
    from assms(1) False ne obtain i w0 where i: "randomIndex (length ?cs) w = (Inr i, w0)"
        and rest: "ebind (wrap_err (\<lambda>err. Errorf ''select endpoint: %w'' [] (Some err))
                      (randomIndex (length (endpoints_in ?p nw r (?cs ! i))))) (\<lambda>j.
              newLease s jobID EgressPlatformNostr (endpoints_in ?p nw r (?cs ! i) ! j) nw) w0 = (Inl err, w')"
      by (auto simp: select_nostr_def Let_def ebind_eq_Inl wrap_err_eq_Inl dest: randomIndex_error w)
    have "?cs ! i \<in> eligible_countries ?p nw r"
      using randomIndex_range [OF i] set_alternates nth_mem by (metis DiffD1)
    then show False
      using rest n endpoints_in_nonempty
      by (auto simp: ebind_eq_Inl wrap_err_eq_Inl dest: w randomIndex_error newLease_error)
  qed
  with False show ?thesis by simp
qed

lemma ambient_free_registry [simp, intro]: "ambient_free registry"
  by (simp add: ambient_free_def)

lemma keeps_select_nostr: "keeps registry (select_nostr s jobID prev nw r)"
  unfolding select_nostr_def Let_def
  by (intro keeps_if keeps_fail keeps_ebind keeps_wrap_err keeps_randomIndex keeps_newLease ambient_free_registry)

lemma Select_checks:
  assumes "Select s jobID platform prev nw w = (Inr l, w')"
  shows "jobIDPattern jobID" and "platform = EgressPlatformX \<or> platform = EgressPlatformNostr"
    and "prev = [] \<or> countryCodePattern prev \<and> prev \<in> set (AllowedCountries (policy s))"
    and "platform = EgressPlatformX \<Longrightarrow> selectStableX s jobID nw w = (Inr l, w')"
proof -
  from assms obtain x1 x2 where "ValidateJobID jobID = Inr x1" "Platform_Validate platform = Inr x2"
      "prev = [] \<or> countryCodePattern prev" "prev = [] \<or> prev \<in> set (AllowedCountries (policy s))"
      "platform = EgressPlatformX \<longrightarrow> selectStableX s jobID nw w = (Inr l, w')"
    unfolding Select_def by (auto simp: ebind_eq_Inr split: if_splits)
  then show "jobIDPattern jobID" and "platform = EgressPlatformX \<or> platform = EgressPlatformNostr"
    and "prev = [] \<or> countryCodePattern prev \<and> prev \<in> set (AllowedCountries (policy s))"
    and "platform = EgressPlatformX \<Longrightarrow> selectStableX s jobID nw w = (Inr l, w')"
    by (auto simp: ValidateJobID_def Platform_Validate_def split: if_splits)
qed

lemma selectStableX_Inr:
  "selectStableX s jobID nw w = (Inr l, w') \<longleftrightarrow>
     (\<exists>e h. Resolve (registry w) (StableXEndpointID (policy s)) = Inr (e, h) \<and> CountryCode e = ''FR'' \<and>
        Eligible h nw (MaxHealthAge (policy s)) \<and> newLease s jobID EgressPlatformX e nw w = (Inr l, w'))"
  by (auto simp: selectStableX_def split: sum.splits prod.splits if_splits)

section \<open>Facts: random indices are unbiased\<close>

lemma be_nat_inj: "length bs = length bs' \<Longrightarrow> be_nat bs = be_nat bs' \<Longrightarrow> bs = bs'"
proof (induction bs bs' rule: list_induct2)
  case (Cons c t c' t')
  have "be_nat t < 256 ^ length t" "be_nat t' < 256 ^ length t" using be_nat_bound Cons(1) by metis+
  moreover have "bv c * 256 ^ length t + be_nat t = bv c' * 256 ^ length t + be_nat t'"
    using Cons by (simp add: be_nat_Cons)
  ultimately have "bv c = bv c'" "be_nat t = be_nat t'"
    by (metis field_div, metis field_mod)
  with Cons.IH show ?case by simp
qed simp

lemma card_bytes: "card {bs :: bytes. length bs = k} = 256 ^ k"
proof -
  have "card {bs. set bs \<subseteq> (UNIV :: char set) \<and> length bs = k} = card (UNIV :: char set) ^ k"
    by (rule card_lists_length_eq) simp
  then show ?thesis by (simp add: card_UNIV_char)
qed

lemma be_nat_range: "be_nat ` {bs. length bs = k} = {..<256 ^ k}"
proof (rule card_subset_eq)
  have "inj_on be_nat {bs. length bs = k}" by (rule inj_onI) (auto intro: be_nat_inj)
  then show "card (be_nat ` {bs. length bs = k}) = card {..<256 ^ k :: nat}"
    by (simp add: card_image card_bytes)
qed (use be_nat_bound in auto)

lemma card_residue: "i < a \<Longrightarrow> card {n. n < a * b \<and> n mod a = i} = (b :: nat)"
proof -
  assume i: "i < a"
  have "{n. n < a * b \<and> n mod a = i} = (\<lambda>q. q * a + i) ` {..<b}"
  proof (intro equalityI subsetI)
    fix n assume "n \<in> {n. n < a * b \<and> n mod a = i}"
    then have "n = (n div a) * a + i" "n div a < b"
      by (auto simp: less_mult_imp_div_less mult.commute)
    then show "n \<in> (\<lambda>q. q * a + i) ` {..<b}" by blast
  next
    fix n assume "n \<in> (\<lambda>q. q * a + i) ` {..<b}"
    then obtain q where q: "n = q * a + i" "q < b" by blast
    then have "(q + 1) * a \<le> b * a" by (intro mult_le_mono1) simp
    then have "q * a + i < a * b" using i by (simp add: algebra_simps)
    then show "n \<in> {n. n < a * b \<and> n mod a = i}" using q i by simp
  qed
  moreover have "inj_on (\<lambda>q. q * a + i) {..<b}" using i by (auto simp: inj_on_def)
  ultimately show ?thesis by (simp add: card_image)
qed

lemma candidate_count:
  assumes "0 < bitLen" and "i < 2 ^ bitLen"
  defines "k \<equiv> (bitLen + 7) div 8"
  shows "card {bs. length bs = k \<and> candidate bitLen bs = i} = 2 ^ (8 * k - bitLen)"
proof -
  have "bitLen \<le> 8 * k" unfolding k_def by linarith
  then have pow: "(256 :: nat) ^ k = 2 ^ bitLen * 2 ^ (8 * k - bitLen)"
    by (simp add: power_add [symmetric] power_mult [symmetric, where a = "2 :: nat" and m = 8, simplified])
  have inj: "inj_on be_nat {bs. length bs = k \<and> candidate bitLen bs = i}"
    by (rule inj_onI) (auto intro: be_nat_inj)
  have "be_nat ` {bs. length bs = k \<and> candidate bitLen bs = i} = {n. n < 256 ^ k \<and> n mod 2 ^ bitLen = i}"
  proof (intro equalityI subsetI)
    fix n assume n: "n \<in> {n. n < 256 ^ k \<and> n mod 2 ^ bitLen = i}"
    then obtain bs where "length bs = k" "n = be_nat bs" using be_nat_range [of k] by (auto simp: set_eq_iff)
    then show "n \<in> be_nat ` {bs. length bs = k \<and> candidate bitLen bs = i}"
      using n candidate_mod [OF assms(1)] by (auto simp: k_def)
  next
    fix n assume "n \<in> be_nat ` {bs. length bs = k \<and> candidate bitLen bs = i}"
    then obtain bs where "n = be_nat bs" "length bs = k" "candidate bitLen bs = i" by blast
    then show "n \<in> {n. n < 256 ^ k \<and> n mod 2 ^ bitLen = i}"
      using be_nat_bound [of bs] candidate_mod [OF assms(1), of bs] by (simp add: k_def)
  qed
  then have "card {bs. length bs = k \<and> candidate bitLen bs = i} =
      card {n. n < 2 ^ bitLen * 2 ^ (8 * k - bitLen) \<and> n mod 2 ^ bitLen = i}"
    using card_image [OF inj] by (simp add: pow)
  also have "\<dots> = 2 ^ (8 * k - bitLen)" by (rule card_residue) (rule assms(2))
  finally show ?thesis .
qed

text \<open>The loop takes the first block of bytes whose candidate is below the bound.\<close>

definition block :: "nat \<Rightarrow> nat \<Rightarrow> bytes \<Rightarrow> bytes" where
  "block k m bs = take k (drop (k * m) bs)"

lemma block_drop: "block k m (drop k bs) = block k (Suc m) bs"
  by (simp add: block_def add.commute)

lemma draw_first_accepted:
  assumes "draw bitLen mx w = (Inr i, w')" and "0 < bitLen"
  shows "\<exists>m. i = candidate bitLen (block ((bitLen + 7) div 8) m (entropy w)) \<and> i < mx \<and>
     (\<forall>j < m. \<not> candidate bitLen (block ((bitLen + 7) div 8) j (entropy w)) < mx)"
  using assms(1)
proof (induction "length (entropy w)" arbitrary: w rule: less_induct)
  case less
  let ?k = "(bitLen + 7) div 8"
  have k: "?k \<noteq> 0" using assms(2) by linarith
  obtain bs w1 where r: "ReadFull ?k w = (Inr bs, w1)"
    using less.prems by (subst (asm) draw.simps) (auto simp: Let_def split: prod.splits sum.splits)
  then have bs: "bs = block ?k 0 (entropy w)" "entropy w1 = drop ?k (entropy w)" "?k \<le> length (entropy w)"
    by (auto simp: ReadFull_eq_Inr block_def)
  show ?case
  proof (cases "candidate bitLen bs < mx")
    case True
    then have "i = candidate bitLen bs" using less.prems r k by (simp add: draw.simps [of bitLen mx w] Let_def)
    with True bs show ?thesis by (intro exI [of _ 0]) simp
  next
    case False
    then have "draw bitLen mx w1 = (Inr i, w')"
      using less.prems r k by (simp add: draw.simps [of bitLen mx w] Let_def)
    moreover have "length (entropy w1) < length (entropy w)" using bs k by simp
    ultimately obtain m where m: "i = candidate bitLen (block ?k m (entropy w1))" "i < mx"
        "\<forall>j < m. \<not> candidate bitLen (block ?k j (entropy w1)) < mx"
      using less.hyps by blast
    have "\<not> candidate bitLen (block ?k j (entropy w)) < mx" if "j < Suc m" for j
      using that m(3) False bs by (cases j) (auto simp: block_drop)
    with m bs show ?thesis by (intro exI [of _ "Suc m"]) (simp add: block_drop)
  qed
qed

section \<open>Properties\<close>

text \<open>
  C9: every lease names a registered endpoint that passes the health check at that time, its country,
  the requested job and platform, and expires after exactly the policy's lease time. For X it is
  the configured stable endpoint and in France; for Nostr it is in an allowed country other than
  the previous one, and at least the minimum number of countries was eligible. Selecting does not
  change the registry.
\<close>

theorem select_lease_sound:
  assumes "registry_inv (registry w)" and "Select s jobID platform prev nw w = (Inr l, w')"
  shows "registry w' = registry w \<and> ls_job_id l = jobID \<and> ls_platform l = platform \<and>
    IssuedAt l = nw \<and> ExpiresAt l = nw + LeaseTTL (policy s) \<and> length (ls_id l) = 32 \<and>
    (\<exists>e h. Resolve (registry w) (ls_endpoint l) = Inr (e, h) \<and> CountryCode e = ls_country l \<and>
       Eligible h nw (MaxHealthAge (policy s))) \<and>
    (if platform = EgressPlatformX
     then ls_endpoint l = StableXEndpointID (policy s) \<and> ls_country l = ''FR''
     else platform = EgressPlatformNostr \<and>
       ls_country l \<in> set (AllowedCountries (policy s)) \<and> ls_country l \<noteq> prev \<and>
       MinHealthyCountries (policy s) \<le> int (card (eligible_countries (policy s) nw (registry w))))"
proof (cases "platform = EgressPlatformX")
  case True
  then obtain e h where e: "Resolve (registry w) (StableXEndpointID (policy s)) = Inr (e, h)"
      "CountryCode e = ''FR''" "Eligible h nw (MaxHealthAge (policy s))"
      "newLease s jobID EgressPlatformX e nw w = (Inr l, w')"
    using Select_checks(4) [OF assms(2)] by (auto simp: selectStableX_Inr)
  then have "ep_id e = StableXEndpointID (policy s)"
    using registry_inv_lookup [OF assms(1), of "StableXEndpointID (policy s)"]
    by (simp add: Resolve_lookup [OF assms(1)])
  with True e show ?thesis by (auto simp: newLease_Inr)
next
  case False
  then have n: "platform = EgressPlatformNostr" using Select_checks(2) [OF assms(2)] by blast
  then have sel: "select_nostr s jobID prev nw (registry w) w = (Inr l, w')"
    using Select_nostr Select_checks(1,3) [OF assms(2)] assms(2) by metis
  then obtain e w1 where e: "e \<in> set (eligible_endpoints (policy s) nw (registry w))" "CountryCode e \<noteq> prev"
      "newLease s jobID EgressPlatformNostr e nw w1 = (Inr l, w')"
      "MinHealthyCountries (policy s) \<le> int (card (eligible_countries (policy s) nw (registry w)))"
    by (rule select_nostr_Inr)
  moreover have "registry w' = registry w" using keeps_select_nostr sel by (rule keepsD)
  ultimately show ?thesis
    using False n by (auto simp: newLease_Inr eligible_endpoint [OF assms(1)])
qed

text \<open>
  C10: selection for Nostr fails only for a stated reason. With a selector \<open>NewSelector\<close> accepted and
  valid arguments, the result is \<open>ErrInsufficientCountries\<close> exactly if fewer than the minimum of
  countries are eligible; otherwise it is a lease, unless the random source runs dry. In
  particular \<open>ErrNoEligibleAlternate\<close> is never returned.
\<close>

theorem select_nostr_complete:
  assumes "NewSelector (Some r) p = Inr s" and "jobIDPattern jobID"
    and "prev = [] \<or> countryCodePattern prev \<and> prev \<in> set (AllowedCountries p)"
    and "Select s jobID EgressPlatformNostr prev nw w = (res, w')"
  shows "if int (card (eligible_countries p nw (registry w))) < MinHealthyCountries p
    then \<exists>err. res = Inl err \<and> errors_Is err ErrInsufficientCountries \<and> w' = w
    else (\<exists>l. res = Inr l) \<or> (\<exists>err. res = Inl err \<and> entropy_error err)"
proof -
  have s: "policy s = p" "3 \<le> MinHealthyCountries p"
    using assms(1) by (auto simp: NewSelector_def split: if_splits option.splits sum.splits)
  then have sel: "select_nostr s jobID prev nw (registry w) w = (res, w')"
    using Select_nostr [of jobID prev s nw w] assms(2-4) by simp
  show ?thesis
  proof (cases res)
    case (Inl err)
    then show ?thesis using select_nostr_Inl sel s by metis
  next
    case (Inr l)
    with sel have "MinHealthyCountries p \<le> int (card (eligible_countries p nw (registry w)))"
      using select_nostr_Inr s(1) by metis
    with Inr show ?thesis by simp
  qed
qed

text \<open>
  Random indices are in range and unbiased. For two or more choices, \<open>randomIndex\<close> returns the
  first of the successive k-byte candidates that is below the number of choices, and every index
  is the candidate of the same number of k-byte strings; for one choice it is 0 and reads nothing.
\<close>

theorem random_index_uniform:
  assumes "2 \<le> len"
  defines "L \<equiv> BitLen (len - 1)"
  defines "k \<equiv> (L + 7) div 8"
  shows "(\<forall>i < len. card {bs. length bs = k \<and> candidate L bs = i} = 2 ^ (8 * k - L)) \<and>
    (\<forall>i w w'. randomIndex len w = (Inr i, w') \<longrightarrow>
       (\<exists>m. i = candidate L (block k m (entropy w)) \<and> i < len \<and>
          (\<forall>j < m. \<not> candidate L (block k j (entropy w)) < len))) \<and>
    (\<forall>w. randomIndex 1 w = (Inr 0, w))"
proof (intro conjI allI impI)
  have L: "0 < L" using assms(1) unfolding L_def by (subst BitLen.simps) simp
  show "card {bs. length bs = k \<and> candidate L bs = i} = 2 ^ (8 * k - L)" if "i < len" for i
  proof -
    have "i < 2 ^ L" using that BitLen_bound [of "len - 1"] unfolding L_def by linarith
    then show ?thesis unfolding k_def by (rule candidate_count [OF L])
  qed
  show "\<exists>m. i = candidate L (block k m (entropy w)) \<and> i < len \<and>
      (\<forall>j < m. \<not> candidate L (block k j (entropy w)) < len)"
    if "randomIndex len w = (Inr i, w')" for i w w'
  proof -
    have "draw L len w = (Inr i, w')"
      using that assms(1) L by (simp add: randomIndex_def rand_Int_def L_def)
    then show ?thesis unfolding k_def by (rule draw_first_accepted [OF _ L])
  qed
  show "randomIndex 1 w = (Inr 0, w)" for w
    by (simp add: randomIndex_def rand_Int_def BitLen.simps)
qed

section \<open>Witnesses\<close>

definition healthy_record :: "Endpoint \<Rightarrow> EndpointID \<times> endpointRecord" where
  "healthy_record e =
     (ep_id e, \<lparr>Endpoint_of = e, Health_of =
        \<lparr>Healthy = True, Quarantined = False, CheckedAt = 100, Failures = 0\<rparr>\<rparr>)"

definition sample_pool :: egress_world where
  "sample_pool = \<lparr>entropy = replicate 64 CHR 0x01, clock = (\<lambda>n. int n), ticks = 0,
     registry = \<lparr>records = map healthy_record (take 5 DefaultEndpointCatalog)\<rparr>\<rparr>"

definition sample_selector :: Selector where
  "sample_selector = \<lparr>policy = DefaultSelectionPolicy\<rparr>"

lemma sample_select:
  "(case fst (Select sample_selector ''job-00000001'' ''nostr'' ''FR'' 100 sample_pool) of
     Inr l \<Rightarrow> ls_country l | Inl _ \<Rightarrow> []) = ''GB''"
  by code_simp

lemma sample_new: "NewSelector (Some (registry sample_pool)) DefaultSelectionPolicy = Inr sample_selector"
  by code_simp

lemma sample_inv: "registry_inv (registry sample_pool)"
  using catalog_valid unfolding registry_inv_def sample_pool_def DefaultEndpointCatalog_def
  by (simp add: healthy_record_def)

theorem select_lease_sound_witness:
  "\<exists>l w'. Select sample_selector ''job-00000001'' ''nostr'' ''FR'' 100 sample_pool = (Inr l, w') \<and>
     ls_country l \<in> {''DE'', ''GB'', ''SE'', ''CH''} \<and> ExpiresAt l = 100 + 5 * Minute"
proof -
  obtain l w' where l: "Select sample_selector ''job-00000001'' ''nostr'' ''FR'' 100 sample_pool = (Inr l, w')"
    using sample_select
    by (cases "Select sample_selector ''job-00000001'' ''nostr'' ''FR'' 100 sample_pool") (auto split: sum.splits)
  from select_lease_sound [OF sample_inv l] l show ?thesis
    by (auto simp: EgressPlatformX_def sample_selector_def DefaultSelectionPolicy_def)
qed

theorem select_nostr_complete_witness:
  "\<exists>err. fst (Select sample_selector ''job-00000001'' EgressPlatformNostr [] (200 * Second) sample_pool) = Inl err \<and>
     errors_Is err ErrInsufficientCountries"
proof -
  obtain res w' where s: "Select sample_selector ''job-00000001'' EgressPlatformNostr [] (200 * Second) sample_pool = (res, w')"
    by fastforce
  have "eligible_countries DefaultSelectionPolicy (200 * Second) (registry sample_pool) = {}"
    by code_simp
  moreover have "jobIDPattern ''job-00000001''" by code_simp
  ultimately show ?thesis
    using select_nostr_complete [OF sample_new _ _ s] s by (auto simp: DefaultSelectionPolicy_def)
qed

theorem random_index_uniform_witness:
  "card {bs. length bs = 1 \<and> candidate 2 bs = 2} = 64 \<and> candidate 2 [CHR 0xFF] = 3"
proof -
  have b: "BitLen (3 - 1) = 2" by (simp add: BitLen.simps)
  have "card {bs. length bs = 1 \<and> candidate 2 bs = 2} = 64"
    using conjunct1 [OF random_index_uniform [of 3]] unfolding b by simp
  moreover have "candidate 2 [CHR 0xFF] = 3" by code_simp
  ultimately show ?thesis ..
qed

end
