(* ===== verification/Egress_Broker.thy ===== *)
theory Egress_Broker
  imports Egress_Selector
begin

text \<open>
  Package \<open>internal/egress\<close>, part three: the guarded broker (broker.go), which accepts a job, a platform
  and an endpoint identifier across the privilege boundary. The lemmas show when the executor is
  called, with which endpoint, and that the built-in executor never changes anything.
\<close>

section \<open>Definitions (broker.go)\<close>

record BrokerRequest =
  req_job_id :: string
  req_platform :: string
  req_endpoint :: EndpointID

definition BrokerRequest_Validate :: "BrokerRequest \<Rightarrow> go_error + unit" where
  "BrokerRequest_Validate r =
     (case ValidateJobID (req_job_id r) of
        Inl err \<Rightarrow> Inl err
      | Inr _ \<Rightarrow>
          (case Platform_Validate (req_platform r) of
             Inl err \<Rightarrow> Inl err
           | Inr _ \<Rightarrow>
               (case EndpointID_Validate (req_endpoint r) of
                  Inl err \<Rightarrow> Inl err
                | Inr _ \<Rightarrow> Inr ())))"

record BrokerResult =
  Accepted :: bool
  DryRun_flag :: bool
  res_endpoint :: EndpointID
  Message :: string

record BrokerStatus =
  PlatformExecution :: string
  ExecutionEnabled :: bool
  RegisteredCount :: nat

text \<open>The interface \<open>NamespaceExecutor\<close> and its implementation in the repository.\<close>

type_synonym 'w executor = "string \<Rightarrow> string \<Rightarrow> Endpoint \<Rightarrow> ('w, unit) act"

definition DisabledNamespaceExecutor_Activate :: "'w executor" where
  "DisabledNamespaceExecutor_Activate jobID platform endpoint = fail (Sentinel ErrExecutionDisabled)"

text \<open>The registry a broker points to is the one of the world.\<close>

record 'w GuardedBroker =
  executor :: "'w executor"
  maxHealthAge :: duration
  enabled :: bool

definition NewGuardedBroker :: "Registry option \<Rightarrow> 'w executor option \<Rightarrow> bool \<Rightarrow> duration \<Rightarrow>
    go_error + 'w GuardedBroker" where
  "NewGuardedBroker reg exec en age =
     (case (reg, exec) of
        (Some r, Some x) \<Rightarrow>
          if age \<le> 0 then Inl (ErrorsNew ''maximum health age must be positive'')
          else Inr \<lparr>executor = x, maxHealthAge = age, enabled = en\<rparr>
      | _ \<Rightarrow> Inl (ErrorsNew ''registry and executor are required''))"

text \<open>\<open>runtime.GOOS\<close> is a constant of the build, an argument here.\<close>

definition Status :: "string \<Rightarrow> 'w GuardedBroker \<Rightarrow> Registry \<Rightarrow> BrokerStatus" where
  "Status GOOS b r =
     \<lparr>PlatformExecution = GOOS, ExecutionEnabled = enabled b, RegisteredCount = length (Snapshot r)\<rparr>"

definition DryRun :: "'w GuardedBroker \<Rightarrow> Registry \<Rightarrow> BrokerRequest \<Rightarrow> go_error + BrokerResult" where
  "DryRun b r request =
     (case BrokerRequest_Validate request of
        Inl err \<Rightarrow> Inl err
      | Inr _ \<Rightarrow>
          (case Resolve r (req_endpoint request) of
             Inl err \<Rightarrow> Inl err
           | Inr (endpoint, _) \<Rightarrow>
               Inr \<lparr>Accepted = True, DryRun_flag = True, res_endpoint = ep_id endpoint,
                    Message = ''registered request accepted; no network changes made''\<rparr>))"

definition Execute :: "string \<Rightarrow> 'z egress_world_scheme GuardedBroker \<Rightarrow> BrokerRequest \<Rightarrow> time \<Rightarrow>
    ('z egress_world_scheme, BrokerResult) act" where
  "Execute GOOS b request nw w =
     (ebind (lift (BrokerRequest_Validate request)) (\<lambda>_.
      ebind (lift (Resolve (registry w) (req_endpoint request))) (\<lambda>(endpoint, health).
      ebind (ensure (enabled b) (Sentinel ErrExecutionDisabled)) (\<lambda>_.
      ebind (ensure (GOOS = ''linux'')
               (Errorf ''%w: requires Linux'' [] (Some (Sentinel ErrExecutionDisabled)))) (\<lambda>_.
      ebind (ensure (Eligible health nw (maxHealthAge b)) (Sentinel ErrEndpointNotHealthy)) (\<lambda>_.
      ebind (executor b (req_job_id request) (req_platform request) endpoint) (\<lambda>_.
      ok \<lparr>Accepted = True, DryRun_flag = False, res_endpoint = ep_id endpoint,
          Message = ''namespace activation completed''\<rparr>))))))) w"

section \<open>Facts\<close>

definition request_ok :: "BrokerRequest \<Rightarrow> bool" where
  "request_ok r \<longleftrightarrow> jobIDPattern (req_job_id r) \<and>
     (req_platform r = EgressPlatformX \<or> req_platform r = EgressPlatformNostr) \<and>
     endpointIDPattern (req_endpoint r)"

lemma BrokerRequest_Validate_Inr: "(BrokerRequest_Validate r = Inr u) \<longleftrightarrow> request_ok r"
  by (auto simp: BrokerRequest_Validate_def request_ok_def ValidateJobID_def Platform_Validate_def
      EndpointID_Validate_def)

text \<open>The gate in front of the executor: every condition of \<open>Execute\<close> before the call.\<close>

definition execute_gate :: "string \<Rightarrow> 'w GuardedBroker \<Rightarrow> BrokerRequest \<Rightarrow> time \<Rightarrow> Registry \<Rightarrow> Endpoint \<Rightarrow> bool" where
  "execute_gate GOOS b request nw r e \<longleftrightarrow>
     request_ok request \<and> enabled b \<and> GOOS = ''linux'' \<and>
     (\<exists>h. Resolve r (req_endpoint request) = Inr (e, h) \<and> Eligible h nw (maxHealthAge b))"

lemma Execute_closed:
  assumes "\<And>e. \<not> execute_gate GOOS b request nw (registry w) e"
  shows "\<exists>err. Execute GOOS b request nw w = (Inl err, w)"
proof (cases "BrokerRequest_Validate request")
  case (Inr u)
  then have v: "request_ok request" by (simp add: BrokerRequest_Validate_Inr)
  show ?thesis
  proof (cases "Resolve (registry w) (req_endpoint request)")
    case (Inr eh)
    obtain e h where "eh = (e, h)" by fastforce
    with Inr v \<open>BrokerRequest_Validate request = Inr u\<close> assms [of e] show ?thesis
      by (auto simp: Execute_def execute_gate_def ebind_def)
  qed (use Inr in \<open>simp add: Execute_def\<close>)
qed (simp add: Execute_def)

lemma Execute_open:
  assumes "execute_gate GOOS b request nw (registry w) e"
  shows "Execute GOOS b request nw w =
    (case executor b (req_job_id request) (req_platform request) e w of
       (Inl err, w') \<Rightarrow> (Inl err, w')
     | (Inr _, w') \<Rightarrow>
         (Inr \<lparr>Accepted = True, DryRun_flag = False, res_endpoint = ep_id e,
               Message = ''namespace activation completed''\<rparr>, w'))"
proof -
  obtain h where "Resolve (registry w) (req_endpoint request) = Inr (e, h)"
      "Eligible h nw (maxHealthAge b)" "enabled b" "GOOS = ''linux''" "BrokerRequest_Validate request = Inr ()"
    using assms by (auto simp: execute_gate_def BrokerRequest_Validate_Inr)
  then show ?thesis by (simp add: Execute_def) (simp add: ebind_def ok_def split: prod.splits sum.splits)
qed

text \<open>
  The interface: an executor does not touch the registry. An inert executor refuses every
  activation and changes nothing at all.
\<close>

locale namespace_executor =
  fixes Activate :: "'z egress_world_scheme executor"
  assumes keeps_registry: "keeps registry (Activate jobID platform e)"
begin

lemma Execute_keeps_registry:
  assumes "executor b = Activate"
  shows "registry (snd (Execute GOOS b request nw w)) = registry w"
proof (cases "\<exists>e. execute_gate GOOS b request nw (registry w) e")
  case True
  then obtain e where e: "execute_gate GOOS b request nw (registry w) e" by blast
  show ?thesis
    using keeps_registry [of "req_job_id request" "req_platform request" e]
    unfolding Execute_open [OF e] assms keeps_def
    by (auto split: prod.splits sum.splits) (metis snd_conv)+
next
  case False
  then have "\<exists>err. Execute GOOS b request nw w = (Inl err, w)" by (intro Execute_closed) blast
  then show ?thesis by auto
qed

end

locale inert_executor = namespace_executor +
  assumes refuses: "Activate jobID platform e w = (Inl (Sentinel ErrExecutionDisabled), w)"
begin

lemma Execute_inert:
  assumes "executor b = Activate"
  shows "\<exists>err. Execute GOOS b request nw w = (Inl err, w) \<and>
    ((\<exists>e. execute_gate GOOS b request nw (registry w) e) \<longrightarrow> err = Sentinel ErrExecutionDisabled)"
proof (cases "\<exists>e. execute_gate GOOS b request nw (registry w) e")
  case True
  then obtain e where e: "execute_gate GOOS b request nw (registry w) e" by blast
  show ?thesis by (simp add: Execute_open [OF e] assms refuses)
next
  case False
  then show ?thesis using Execute_closed [of GOOS b request nw w] by blast
qed

end

interpretation disabled: inert_executor DisabledNamespaceExecutor_Activate
  by unfold_locales (simp_all add: DisabledNamespaceExecutor_Activate_def)

section \<open>Properties\<close>

text \<open>
  C11: the executor is called exactly when execution is enabled on Linux and the request is valid and
  names a registered endpoint that is eligible now; it is then given the registry's endpoint, and
  its result decides the broker's. In every other case the broker returns an error and nothing
  changes.
\<close>

theorem execute_gated:
  "(\<forall>e. execute_gate GOOS b request nw (registry w) e \<longrightarrow>
      Execute GOOS b request nw w =
        (case executor b (req_job_id request) (req_platform request) e w of
           (Inl err, w') \<Rightarrow> (Inl err, w')
         | (Inr _, w') \<Rightarrow>
             (Inr \<lparr>Accepted = True, DryRun_flag = False, res_endpoint = ep_id e,
                   Message = ''namespace activation completed''\<rparr>, w'))) \<and>
   ((\<forall>e. \<not> execute_gate GOOS b request nw (registry w) e) \<longrightarrow>
      (\<exists>err. Execute GOOS b request nw w = (Inl err, w)))"
  using Execute_open [of GOOS b request nw w] Execute_closed [of GOOS b request nw w] by blast

definition sample_broker :: "egress_world GuardedBroker" where
  "sample_broker = \<lparr>executor = (\<lambda>_ _ _. ok ()), maxHealthAge = 90 * Second, enabled = True\<rparr>"

definition sample_request :: BrokerRequest where
  "sample_request = \<lparr>req_job_id = ''job-00000001'', req_platform = ''x'', req_endpoint = ''aws-fr-1''\<rparr>"

lemma sample_gate:
  "execute_gate ''linux'' sample_broker sample_request 100 (registry sample_pool) (hd DefaultEndpointCatalog)"
proof -
  have "Resolve (registry sample_pool) ''aws-fr-1'' = Inr (hd DefaultEndpointCatalog,
      \<lparr>Healthy = True, Quarantined = False, CheckedAt = 100, Failures = 0\<rparr>)"
    by (simp add: Resolve_lookup [OF sample_inv])
      (simp add: sample_pool_def DefaultEndpointCatalog_def healthy_record_def)
  moreover have "request_ok sample_request" by code_simp
  ultimately show ?thesis
    by (simp add: execute_gate_def sample_request_def sample_broker_def Eligible_def IsZero_def zero_time_def
        time_sub_def Let_def)
qed

theorem execute_gated_witness:
  "\<exists>w'. Execute ''linux'' sample_broker sample_request 100 sample_pool =
     (Inr \<lparr>Accepted = True, DryRun_flag = False, res_endpoint = ''aws-fr-1'',
           Message = ''namespace activation completed''\<rparr>, w')"
  using conjunct1 [OF execute_gated [of "''linux''" sample_broker sample_request 100 sample_pool]] sample_gate
  by (auto simp: sample_broker_def DefaultEndpointCatalog_def)

text \<open>
  With the executor of the repository no request, on any broker and any build, is ever executed:
  \<open>Execute\<close> returns an error, \<open>ErrExecutionDisabled\<close> once all checks pass, and changes nothing. A dry
  run accepts exactly the valid requests that name a registered endpoint, and names that endpoint.
\<close>

theorem disabled_broker_inert:
  assumes "NewGuardedBroker (Some r) (Some DisabledNamespaceExecutor_Activate) en age = Inr b"
    and "registry_inv (registry w)"
  shows "(\<exists>err. Execute GOOS b request nw w = (Inl err, w) \<and>
       ((\<exists>e. execute_gate GOOS b request nw (registry w) e) \<longrightarrow> err = Sentinel ErrExecutionDisabled)) \<and>
    ((\<exists>res. DryRun b (registry w) request = Inr res) \<longleftrightarrow>
       request_ok request \<and> endpoint_at (registry w) (req_endpoint request) \<noteq> None) \<and>
    (\<forall>res. DryRun b (registry w) request = Inr res \<longrightarrow>
       Accepted res \<and> DryRun_flag res \<and> res_endpoint res = req_endpoint request)"
proof (intro conjI)
  have "executor b = DisabledNamespaceExecutor_Activate"
    using assms(1) by (auto simp: NewGuardedBroker_def split: if_splits)
  then show "\<exists>err. Execute GOOS b request nw w = (Inl err, w) \<and>
       ((\<exists>e. execute_gate GOOS b request nw (registry w) e) \<longrightarrow> err = Sentinel ErrExecutionDisabled)"
    by (rule disabled.Execute_inert)
  have dry: "DryRun b (registry w) request = Inr res \<longleftrightarrow>
      request_ok request \<and> (\<exists>e h. Resolve (registry w) (req_endpoint request) = Inr (e, h) \<and>
        res = \<lparr>Accepted = True, DryRun_flag = True, res_endpoint = ep_id e,
               Message = ''registered request accepted; no network changes made''\<rparr>)" for res
    using BrokerRequest_Validate_Inr [of request]
    by (auto simp: DryRun_def split: sum.splits prod.splits)
  have "(\<exists>e h. Resolve (registry w) k = Inr (e, h)) \<longleftrightarrow> endpoint_at (registry w) k \<noteq> None" for k
    by (simp add: Resolve_lookup [OF assms(2)] endpoint_at_def) (metis endpointRecord_eta)
  then show "(\<exists>res. DryRun b (registry w) request = Inr res) \<longleftrightarrow>
       request_ok request \<and> endpoint_at (registry w) (req_endpoint request) \<noteq> None"
    unfolding dry by blast
  show "\<forall>res. DryRun b (registry w) request = Inr res \<longrightarrow>
       Accepted res \<and> DryRun_flag res \<and> res_endpoint res = req_endpoint request"
    unfolding dry using registry_inv_lookup [OF assms(2)]
    by (auto simp: Resolve_lookup [OF assms(2)]) (metis endpointRecord.select_convs(1))
qed

theorem disabled_broker_inert_witness:
  "Execute ''linux'' \<lparr>executor = DisabledNamespaceExecutor_Activate, maxHealthAge = 90 * Second, enabled = True\<rparr>
     sample_request 100 sample_pool = (Inl (Sentinel ErrExecutionDisabled), sample_pool)"
proof -
  let ?b = "\<lparr>executor = DisabledNamespaceExecutor_Activate, maxHealthAge = 90 * Second, enabled = True\<rparr> :: egress_world GuardedBroker"
  have "NewGuardedBroker (Some (registry sample_pool)) (Some DisabledNamespaceExecutor_Activate) True (90 * Second) = Inr ?b"
    by (simp add: NewGuardedBroker_def)
  moreover have "execute_gate ''linux'' ?b sample_request 100 (registry sample_pool) (hd DefaultEndpointCatalog)"
    using sample_gate by (simp add: execute_gate_def sample_broker_def)
  ultimately show ?thesis
    using disabled_broker_inert [of "registry sample_pool" True "90 * Second" ?b sample_pool "''linux''" sample_request 100]
      sample_inv by auto
qed

end
