(* ===== verification/Go_Time.thy ===== *)
theory Go_Time
  imports Go_Text
begin

text \<open>
  Go's \<open>time.RFC3339Nano\<close> layout for instants in UTC, as \<open>Time.Format\<close> and \<open>Time.MarshalJSON\<close> print it,
  and the strict RFC 3339 parser of \<open>Time.UnmarshalJSON\<close>. The round trip at the end is what stored
  records and approval hashes rest on.
\<close>

section \<open>Calendar\<close>

definition leap :: "nat \<Rightarrow> bool" where
  "leap y \<longleftrightarrow> y mod 4 = 0 \<and> (y mod 100 \<noteq> 0 \<or> y mod 400 = 0)"

definition year_len :: "nat \<Rightarrow> nat" where
  "year_len y = (if leap y then 366 else 365)"

lemma year_len_pos [simp]: "0 < year_len y" by (simp add: year_len_def)

function split_year :: "nat \<Rightarrow> nat \<Rightarrow> nat \<times> nat" where
  "split_year y d = (if d < year_len y then (y, d) else split_year (Suc y) (d - year_len y))"
  by pat_completeness auto
termination
proof (relation "measure snd")
  show "((Suc y, d - year_len y), y, d) \<in> measure snd" if "\<not> d < year_len y" for y d
  proof -
    have "0 < d" using that year_len_pos [of y] by linarith
    then show ?thesis using diff_less [OF year_len_pos, of d y] by simp
  qed
qed simp

declare split_year.simps [simp del]

fun year_start :: "nat \<Rightarrow> nat" where
  "year_start 0 = 0"
| "year_start (Suc y) = year_start y + year_len y"

definition month_lens :: "nat \<Rightarrow> nat list" where
  "month_lens y = [31, if leap y then 29 else 28, 31, 30, 31, 30, 31, 31, 30, 31, 30, 31]"

fun split_month :: "nat \<Rightarrow> nat list \<Rightarrow> nat \<Rightarrow> nat \<times> nat" where
  "split_month m [] d = (m, d)"
| "split_month m (l # ls) d = (if d < l then (m, d) else split_month (Suc m) ls (d - l))"

text \<open>Days are counted from the first day of year 0; the calendar repeats every 400 years.\<close>

definition cycle_days :: int where "cycle_days = 146097"
definition epoch_day :: int where "epoch_day = 719528"

text \<open>\<open>(year, month, day)\<close> of a day, with months and days counted from 1.\<close>

definition civil_of_day :: "int \<Rightarrow> int \<times> nat \<times> nat" where
  "civil_of_day d =
     (let (y, doy) = split_year 0 (nat (d mod cycle_days));
          (m, dom) = split_month 1 (month_lens y) doy
      in (400 * (d div cycle_days) + int y, m, dom + 1))"

definition day_of_civil :: "int \<Rightarrow> nat \<Rightarrow> nat \<Rightarrow> int" where
  "day_of_civil year month day =
     (let y = nat (year mod 400)
      in cycle_days * (year div 400) + int (year_start y + sum_list (take (month - 1) (month_lens y)) + (day - 1)))"

lemma sum_month_lens: "sum_list (month_lens y) = year_len y"
  by (simp add: month_lens_def year_len_def)

lemma split_year_spec:
  "split_year y d = (y', r) \<Longrightarrow> y \<le> y' \<and> r < year_len y' \<and> year_start y' + r = year_start y + d"
proof (induction y d rule: split_year.induct)
  case (1 y d)
  then show ?case
    by (cases "d < year_len y") (auto simp: split_year.simps [of y d])
qed

lemma year_start_mono: "y \<le> z \<Longrightarrow> year_start y \<le> year_start z"
  by (induction z) (auto simp: le_Suc_eq)

lemma year_start_unique:
  assumes "year_start y + r = year_start z + s" and "r < year_len y" "s < year_len z"
  shows "y = z \<and> r = s"
proof -
  have "\<not> y < z" using year_start_mono [of "Suc y" z] assms by (auto simp: Suc_le_eq)
  moreover have "\<not> z < y" using year_start_mono [of "Suc z" y] assms by (auto simp: Suc_le_eq)
  ultimately show ?thesis using assms(1) by (simp add: linorder_neq_iff)
qed

lemma split_month_spec:
  "split_month m ls d = (m', r) \<Longrightarrow> d < sum_list ls \<Longrightarrow>
     m \<le> m' \<and> m' - m < length ls \<and> r < ls ! (m' - m) \<and> d = sum_list (take (m' - m) ls) + r"
proof (induction m ls d rule: split_month.induct)
  case (2 m l ls d)
  show ?case
  proof (cases "d < l")
    case True
    then show ?thesis using 2 by auto
  next
    case False
    with 2 have "Suc m \<le> m' \<and> m' - Suc m < length ls \<and> r < ls ! (m' - Suc m) \<and>
        d - l = sum_list (take (m' - Suc m) ls) + r" by auto
    moreover from this have "m' - m = Suc (m' - Suc m)" by linarith
    ultimately show ?thesis using False by clarsimp linarith
  qed
qed simp

text \<open>The number of leap years before a year, and so the length of a cycle.\<close>

lemma ceil_step:
  assumes "0 < k"
  shows "(Suc n + (k - 1)) div k = (n + (k - 1)) div k + (if n mod k = 0 then 1 else 0 :: nat)"
proof -
  obtain q r where n: "n = k * q + r" "r < k"
    using assms by (metis mod_less_divisor mult_div_mod_eq)
  have div: "(k * a + j) div k = a" if "j < k" for a j
    by (rule div_nat_eqI) (use that in \<open>simp_all add: algebra_simps\<close>)
  show ?thesis
  proof (cases r)
    case 0
    then have "Suc n + (k - 1) = k * (q + 1) + 0" "n + (k - 1) = k * q + (k - 1)" using n assms by auto
    then show ?thesis using n 0 assms div [of 0 "q + 1"] div [of "k - 1" q] by auto
  next
    case (Suc i)
    then have e: "Suc n + (k - 1) = k * (q + 1) + Suc i" "n + (k - 1) = k * (q + 1) + i" using n assms by auto
    have "n mod k \<noteq> 0" "Suc i < k" using n Suc by auto
    then show ?thesis unfolding e using div [of "Suc i" "q + 1"] div [of i "q + 1"] by simp
  qed
qed

lemma year_start_closed:
  "year_start n + (n + 99) div 100 = 365 * n + (n + 3) div 4 + (n + 399) div 400"
proof (induction n)
  case (Suc n)
  have "n mod 400 = 0 \<Longrightarrow> n mod 100 = 0" "n mod 100 = 0 \<Longrightarrow> n mod 4 = 0"
    by (auto simp: mod_eq_0_iff_dvd intro: dvd_trans [of _ 400] dvd_trans [of _ 100])
  with Suc ceil_step [of 4 n] ceil_step [of 100 n] ceil_step [of 400 n] show ?case
    by (auto simp: year_len_def leap_def)
qed simp

lemma year_start_400: "year_start 400 = 146097"
  using year_start_closed [of 400] by simp

lemma civil_roundtrip:
  assumes "civil_of_day d = (year, month, day)"
  shows "day_of_civil year month day = d" and "1 \<le> month" "month \<le> 12" "1 \<le> day"
    and "day \<le> month_lens (nat (year mod 400)) ! (month - 1)"
proof -
  define r where "r = nat (d mod cycle_days)"
  obtain y doy where y: "split_year 0 r = (y, doy)" by fastforce
  obtain m dom where m: "split_month 1 (month_lens y) doy = (m, dom)" by fastforce
  have ymd: "year = 400 * (d div cycle_days) + int y" "month = m" "day = dom + 1"
    using assms y m by (auto simp: civil_of_day_def r_def)
  have ys: "doy < year_len y" "year_start y + doy = r" using split_year_spec [OF y] by auto
  have r: "r < 146097" unfolding r_def cycle_days_def by (simp add: nat_less_iff)
  have "y < 400"
  proof (rule ccontr)
    assume "\<not> y < 400"
    then have "146097 \<le> year_start y" using year_start_mono [of 400 y] by (simp add: year_start_400)
    with ys r show False by simp
  qed
  then have yr: "year mod 400 = int y" "year div 400 = d div cycle_days" using ymd(1) by auto
  have ms: "1 \<le> m" "m - 1 < 12" "dom < month_lens y ! (m - 1)" "doy = sum_list (take (m - 1) (month_lens y)) + dom"
    using split_month_spec [OF m] ys(1) by (auto simp: sum_month_lens) (simp add: month_lens_def)
  show "1 \<le> month" "month \<le> 12" "1 \<le> day" "day \<le> month_lens (nat (year mod 400)) ! (month - 1)"
    using ms ymd yr by auto
  have "cycle_days * (d div cycle_days) + int r = d"
    using mult_div_mod_eq [of cycle_days d] by (simp add: r_def cycle_days_def)
  moreover have "r = year_start y + sum_list (take (month - 1) (month_lens y)) + (day - 1)"
    using ms ys ymd by simp
  ultimately show "day_of_civil year month day = d"
    using yr by (simp add: day_of_civil_def Let_def)
qed

section \<open>Digits\<close>

text \<open>\<open>w\<close> decimal digits; a number that needs more prints in full.\<close>

fun digits :: "nat \<Rightarrow> nat \<Rightarrow> string" where
  "digits 0 n = []"
| "digits (Suc k) n = digits k (n div 10) @ [bc (48 + n mod 10)]"

definition pad :: "nat \<Rightarrow> nat \<Rightarrow> string" where
  "pad w n = (if n < 10 ^ w then digits w n else show_nat n)"

lemma length_digits [simp]: "length (digits w n) = w"
  by (induction w n rule: digits.induct) auto

lemma digits_digits: "list_all is_digit (digits w n)"
  by (induction w n rule: digits.induct) auto

lemma read_digits: "read_nat (digits w n) = n mod 10 ^ w"
proof (induction w n rule: digits.induct)
  case (2 k n)
  then have "read_nat (digits (Suc k) n) = 10 * (n div 10 mod 10 ^ k) + n mod 10"
    by (simp add: read_nat_def)
  also have "\<dots> = n mod 10 ^ Suc k" by (simp add: mod_mult2_eq [of n 10 "10 ^ k"])
  finally show ?case .
qed (simp add: read_nat_def)

text \<open>Reading a fixed number of digits from the front.\<close>

definition take_digits :: "nat \<Rightarrow> string \<Rightarrow> (nat \<times> string) option" where
  "take_digits w s =
     (if w \<le> length s \<and> list_all is_digit (take w s) then Some (read_nat (take w s), drop w s) else None)"

lemma take_digits_append: "n < 10 ^ w \<Longrightarrow> take_digits w (digits w n @ s) = Some (n, s)"
  by (simp add: take_digits_def digits_digits read_digits)

definition take_char :: "char \<Rightarrow> string \<Rightarrow> string option" where
  "take_char c s = (case s of [] \<Rightarrow> None | d # t \<Rightarrow> if c = d then Some t else None)"

lemma take_char_simp [simp]: "take_char c (c # t) = Some t"
  by (simp add: take_char_def)

section \<open>RFC 3339\<close>

definition day_ns :: int where "day_ns = 86400000000000"

text \<open>\<open>.999999999\<close>: the fraction without its trailing zeros, and nothing at all if it is zero.\<close>

definition strip_zeros :: "string \<Rightarrow> string" where
  "strip_zeros s = rev (dropWhile (\<lambda>c. c = CHR ''0'') (rev s))"

definition format_frac :: "nat \<Rightarrow> string" where
  "format_frac ns = (let f = strip_zeros (digits 9 ns) in if f = [] then [] else CHR ''.'' # f)"

definition format_year :: "int \<Rightarrow> string" where
  "format_year y = (if y < 0 then CHR ''-'' # pad 4 (nat (- y)) else pad 4 (nat y))"

text \<open>\<open>t.UTC().Format(time.RFC3339Nano)\<close>.\<close>

definition FormatRFC3339Nano :: "time \<Rightarrow> string" where
  "FormatRFC3339Nano t =
     (let (year, month, day) = civil_of_day (t div day_ns + epoch_day);
          ns = nat (t mod day_ns); sec = ns div 1000000000
      in format_year year @ CHR ''-'' # pad 2 month @ CHR ''-'' # pad 2 day @
         CHR ''T'' # pad 2 (sec div 3600) @ CHR '':'' # pad 2 (sec div 60 mod 60) @ CHR '':'' # pad 2 (sec mod 60) @
         format_frac (ns mod 1000000000) @ ''Z'')"

definition year_of :: "time \<Rightarrow> int" where
  "year_of t = fst (civil_of_day (t div day_ns + epoch_day))"

text \<open>
  The strict parser: four-digit year, two-digit fields in range, an optional fraction of any length
  of which nine digits count, and \<open>Z\<close> or a numeric offset.
\<close>

definition parse_fraction :: "string \<Rightarrow> (nat \<times> string) option" where
  "parse_fraction s =
     (case s of
        c # t \<Rightarrow>
          if c = CHR ''.'' then
            (let f = takeWhile is_digit t
             in if f = [] then None
                else Some (read_nat (take 9 (f @ ''000000000'')), dropWhile is_digit t))
          else Some (0, s)
      | [] \<Rightarrow> Some (0, s))"

definition parse_offset :: "string \<Rightarrow> int option" where
  "parse_offset s =
     (if s = ''Z'' then Some 0
      else case s of
        [] \<Rightarrow> None
      | c # t \<Rightarrow>
          if c \<noteq> CHR ''+'' \<and> c \<noteq> CHR ''-'' then None
          else Option.bind (take_digits 2 t) (\<lambda>(h, t).
               Option.bind (take_char CHR '':'' t) (\<lambda>t.
               Option.bind (take_digits 2 t) (\<lambda>(m, t).
               if t \<noteq> [] \<or> 24 \<le> h \<or> 60 \<le> m then None
               else Some ((if c = CHR ''-'' then -1 else 1) * int (h * 3600 + m * 60))))))"

definition ParseRFC3339 :: "string \<Rightarrow> time option" where
  "ParseRFC3339 s =
     Option.bind (take_digits 4 s) (\<lambda>(y, s).
     Option.bind (take_char CHR ''-'' s) (\<lambda>s.
     Option.bind (take_digits 2 s) (\<lambda>(mo, s).
     Option.bind (take_char CHR ''-'' s) (\<lambda>s.
     Option.bind (take_digits 2 s) (\<lambda>(d, s).
     Option.bind (take_char CHR ''T'' s) (\<lambda>s.
     Option.bind (take_digits 2 s) (\<lambda>(h, s).
     Option.bind (take_char CHR '':'' s) (\<lambda>s.
     Option.bind (take_digits 2 s) (\<lambda>(mi, s).
     Option.bind (take_char CHR '':'' s) (\<lambda>s.
     Option.bind (take_digits 2 s) (\<lambda>(sec, s).
     Option.bind (parse_fraction s) (\<lambda>(ns, s).
     Option.bind (parse_offset s) (\<lambda>off.
     if mo < 1 \<or> 12 < mo \<or> d < 1 \<or> month_lens (y mod 400) ! (mo - 1) < d \<or> 24 \<le> h \<or> 60 \<le> mi \<or> 60 \<le> sec
     then None
     else Some ((day_of_civil (int y) mo d - epoch_day) * day_ns +
                (int (h * 3600 + mi * 60 + sec) - off) * 1000000000 + int ns))))))))))))))"

lemma strip_zeros_pad: "strip_zeros s @ replicate (length s - length (strip_zeros s)) CHR ''0'' = s"
proof -
  let ?z = "takeWhile (\<lambda>c. c = CHR ''0'') (rev s)"
  have s: "s = strip_zeros s @ rev ?z" by (simp add: strip_zeros_def flip: rev_append)
  have "rev ?z = replicate (length (rev ?z)) CHR ''0''"
    by (rule replicate_length_same [symmetric]) (auto dest: set_takeWhileD)
  moreover have "length (rev ?z) = length s - length (strip_zeros s)"
    using arg_cong [OF s, of length] by simp
  ultimately show ?thesis using s by metis
qed

lemma strip_zeros_digits: "list_all is_digit s \<Longrightarrow> list_all is_digit (strip_zeros s)"
  by (auto simp: strip_zeros_def list_all_iff dest: set_dropWhileD)

lemma parse_format_frac:
  assumes "n < 1000000000"
  shows "parse_fraction (format_frac n @ ''Z'') = Some (n, ''Z'')"
proof -
  define f where "f = strip_zeros (digits 9 n)"
  have z9: "replicate 9 CHR ''0'' = ''000000000''" by (simp add: eval_nat_numeral)
  have z: "\<not> is_digit CHR ''Z''" by (simp add: is_digit_def bv_def)
  have "take 9 (f @ replicate 9 CHR ''0'') = digits 9 n"
  proof -
    have len: "length f \<le> 9" using arg_cong [OF strip_zeros_pad [of "digits 9 n"], of length] by (simp add: f_def)
    then have "take 9 (f @ replicate 9 CHR ''0'') = f @ replicate (9 - length f) CHR ''0''" by simp
    then show ?thesis using strip_zeros_pad [of "digits 9 n"] by (simp add: f_def)
  qed
  then have val: "read_nat (take 9 (f @ ''000000000'')) = n"
    using assms read_digits [of 9 n] z9 by simp
  show ?thesis
  proof (cases "f = []")
    case True
    then have "n = 0" using val by (simp add: read_nat_def bv_def)
    moreover have "format_frac n = []" using True by (simp add: format_frac_def f_def)
    ultimately show ?thesis by (simp add: parse_fraction_def)
  next
    case False
    have "list_all is_digit f" unfolding f_def by (rule strip_zeros_digits) (rule digits_digits)
    then have "takeWhile is_digit (f @ ''Z'') = f" "dropWhile is_digit (f @ ''Z'') = ''Z''"
      using z by (simp_all add: takeWhile_append dropWhile_append list_all_iff)
    then show ?thesis using False val by (simp add: format_frac_def Let_def parse_fraction_def flip: f_def)
  qed
qed

lemma month_len_bound: "m < 12 \<Longrightarrow> month_lens y ! m \<le> 31"
  by (auto simp: month_lens_def nth_Cons' numeral_eq_Suc)

lemma clock_fields:
  assumes "ns < 86400000000000"
  defines "sec \<equiv> ns div 1000000000"
  shows "sec div 3600 < 24" "sec div 60 mod 60 < 60" "sec mod 60 < 60"
    and "sec div 3600 * 3600 + sec div 60 mod 60 * 60 + sec mod 60 = (sec :: nat)"
    and "sec * 1000000000 + ns mod 1000000000 = ns"
proof -
  have "sec < 86400" using assms by (simp add: less_mult_imp_div_less)
  then show "sec div 3600 < 24" by (simp add: less_mult_imp_div_less)
  have "sec div 3600 = sec div 60 div 60" by (simp add: div_mult2_eq [symmetric])
  then have "sec div 3600 * 3600 + sec div 60 mod 60 * 60 + sec mod 60 =
      (sec div 60 div 60 * 60 + sec div 60 mod 60) * 60 + sec mod 60" by (simp only: add_mult_distrib)
  also have "\<dots> = sec" by (simp only: div_mult_mod_eq)
  finally show "sec div 3600 * 3600 + sec div 60 mod 60 * 60 + sec mod 60 = sec" .
  show "sec * 1000000000 + ns mod 1000000000 = ns" by (simp add: sec_def)
qed simp_all

theorem parse_format_time:
  assumes "0 \<le> year_of t" and "year_of t \<le> 9999"
  shows "ParseRFC3339 (FormatRFC3339Nano t) = Some t"
proof -
  obtain year month day where c: "civil_of_day (t div day_ns + epoch_day) = (year, month, day)"
    by (metis prod_cases3)
  note cr = civil_roundtrip [OF c]
  define ns where "ns = nat (t mod day_ns)"
  have ns: "ns < 86400000000000" by (simp add: ns_def day_ns_def nat_less_iff)
  define sec where "sec = ns div 1000000000"
  note cf = clock_fields [OF ns, folded sec_def]
  have y: "0 \<le> year" "nat year < 10000" using assms c by (auto simp: year_of_def)
  have mlen: "month_lens (nat year mod 400) ! (month - 1) \<le> 31" "nat (year mod 400) = nat year mod 400"
    "day \<le> month_lens (nat year mod 400) ! (month - 1)"
    using cr(5) cr(2,3) y by (auto intro!: month_len_bound simp: nat_mod_distrib)
  have small: "month < 100" "day < 100" "sec div 3600 < 100" "sec div 60 mod 60 < 100" "sec mod 60 < 100"
    by (use cr(3,5) mlen cf(1-3) in linarith)+
  have pads: "format_year year = digits 4 (nat year)" "pad 2 month = digits 2 month" "pad 2 day = digits 2 day"
      "pad 2 (sec div 3600) = digits 2 (sec div 3600)" "pad 2 (sec div 60 mod 60) = digits 2 (sec div 60 mod 60)"
      "pad 2 (sec mod 60) = digits 2 (sec mod 60)"
    using y small by (simp_all add: format_year_def pad_def)
  have fmt: "FormatRFC3339Nano t = digits 4 (nat year) @ CHR ''-'' # digits 2 month @ CHR ''-'' # digits 2 day @
         CHR ''T'' # digits 2 (sec div 3600) @ CHR '':'' # digits 2 (sec div 60 mod 60) @ CHR '':'' # digits 2 (sec mod 60) @
         format_frac (ns mod 1000000000) @ ''Z''"
    unfolding FormatRFC3339Nano_def c Let_def prod.case pads(1-3) [symmetric] by (simp add: pads flip: ns_def sec_def)
  have frac: "parse_fraction (format_frac (ns mod 1000000000) @ ''Z'') = Some (ns mod 1000000000, ''Z'')"
    by (rule parse_format_frac) simp
  have "(day_of_civil (int (nat year)) month day - epoch_day) * day_ns +
      int (sec div 3600 * 3600 + sec div 60 mod 60 * 60 + sec mod 60) * 1000000000 + int (ns mod 1000000000) = t"
  proof -
    have "int (sec * 1000000000 + ns mod 1000000000) = t mod day_ns"
      unfolding cf(5) by (simp add: ns_def day_ns_def)
    then show ?thesis unfolding cf(4) using cr(1) y mult_div_mod_eq [of day_ns t]
      by (simp add: algebra_simps)
  qed
  with cr mlen cf(1-3) y show ?thesis
    unfolding ParseRFC3339_def fmt
    by (simp add: take_digits_append small frac parse_offset_def not_le)
qed

lemma FormatRFC3339Nano_ascii: "ascii (FormatRFC3339Nano t)"
proof -
  have d: "ascii s" if "list_all is_digit s" for s
    using that digit_ascii by (auto simp: ascii_def list_all_iff)
  have "ascii (pad w n)" for w n
    using d [OF digits_digits] d [OF show_nat_digits] by (simp add: pad_def)
  moreover have "ascii (strip_zeros (digits 9 n))" for n
    by (intro d strip_zeros_digits digits_digits)
  ultimately show ?thesis
    by (auto simp: FormatRFC3339Nano_def format_year_def format_frac_def Let_def ascii_def bv_def
        split: prod.splits)
qed

end
