(* ===== verification/Go_Decode.thy ===== *)
theory Go_Decode
  imports Go_JSON Go_Time
begin

text \<open>
  How \<open>encoding/json\<close> decodes an object into a Go struct: matching of field names, values by kind,
  64-bit integers and times. The record types and their setters are in the theories that use them.
\<close>

section \<open>Decoding into a struct\<close>

text \<open>
  Field names match up to simple case folding; besides the ASCII letters only U+017F and U+212A
  fold to ASCII. A JSON null leaves the field alone, any other value of the wrong kind is an error,
  and an unknown field is skipped.
\<close>

definition fold_rune :: "rune \<Rightarrow> rune" where
  "fold_rune r = (if 97 \<le> r \<and> r \<le> 122 then r - 32 else if r = 383 then 83 else if r = 8490 then 75 else r)"

definition fold_name :: "string \<Rightarrow> rune list" where
  "fold_name s = map fold_rune (runes s)"

definition field_of :: "string list \<Rightarrow> string \<Rightarrow> string option" where
  "field_of names key = find (\<lambda>c. fold_name key = fold_name c) names"

definition type_error :: go_error where
  "type_error = ErrorsNew ''json: cannot unmarshal value into Go struct field''"

definition decode_string :: "json \<Rightarrow> string \<Rightarrow> go_error + string" where
  "decode_string v old = (case v of JStr s \<Rightarrow> Inr s | JNull \<Rightarrow> Inr old | _ \<Rightarrow> Inl type_error)"

definition int64 :: "int \<Rightarrow> bool" where
  "int64 i \<longleftrightarrow> - (2 ^ 63) \<le> i \<and> i < 2 ^ 63"

definition parse_int64 :: "string \<Rightarrow> int option" where
  "parse_int64 lit =
     (let (neg, d) = (case lit of c # t \<Rightarrow> if c = CHR ''-'' then (True, t) else (False, lit) | [] \<Rightarrow> (False, []));
          i = (if neg then - int (read_nat d) else int (read_nat d))
      in if d \<noteq> [] \<and> list_all is_digit d \<and> int64 i then Some i else None)"

definition decode_int :: "json \<Rightarrow> int \<Rightarrow> go_error + int" where
  "decode_int v old =
     (case v of
        JNum lit \<Rightarrow> (case parse_int64 lit of Some i \<Rightarrow> Inr i | None \<Rightarrow> Inl type_error)
      | JNull \<Rightarrow> Inr old
      | _ \<Rightarrow> Inl type_error)"

definition decode_time :: "json \<Rightarrow> time \<Rightarrow> go_error + time" where
  "decode_time v old =
     (case v of
        JStr s \<Rightarrow> (case ParseRFC3339 s of Some t \<Rightarrow> Inr t | None \<Rightarrow> Inl (ErrorsNew ''parsing time''))
      | JNull \<Rightarrow> Inr old
      | _ \<Rightarrow> Inl (ErrorsNew ''Time.UnmarshalJSON: input is not a JSON string''))"

fun decode_members :: "string list \<Rightarrow> (string \<Rightarrow> json \<Rightarrow> 'r \<Rightarrow> go_error + 'r) \<Rightarrow> (string \<times> json) list \<Rightarrow> 'r \<Rightarrow> go_error + 'r" where
  "decode_members names set_field [] r = Inr r"
| "decode_members names set_field ((k, v) # ms) r =
     (case field_of names k of
        None \<Rightarrow> decode_members names set_field ms r
      | Some c \<Rightarrow>
          (case set_field c v r of Inl err \<Rightarrow> Inl err | Inr r' \<Rightarrow> decode_members names set_field ms r'))"

definition Unmarshal :: "string list \<Rightarrow> (string \<Rightarrow> json \<Rightarrow> 'r \<Rightarrow> go_error + 'r) \<Rightarrow> bytes \<Rightarrow> 'r \<Rightarrow> go_error + 'r" where
  "Unmarshal names set_field data r =
     (case json_parse data of
        None \<Rightarrow> Inl (ErrorsNew ''invalid JSON'')
      | Some (JObj ms) \<Rightarrow> decode_members names set_field ms r
      | Some JNull \<Rightarrow> Inr r
      | Some _ \<Rightarrow> Inl type_error)"

text \<open>\<open>Time.MarshalJSON\<close> refuses years outside 0 to 9999.\<close>

definition json_year_ok :: "time \<Rightarrow> bool" where
  "json_year_ok t \<longleftrightarrow> 0 \<le> year_of t \<and> year_of t \<le> 9999"

definition year_error :: go_error where
  "year_error = ErrorsNew ''Time.MarshalJSON: year outside of range [0,9999]''"

section \<open>Facts\<close>

lemma parse_int64_show: "int64 i \<Longrightarrow> parse_int64 (show_int i) = Some i"
proof -
  assume i: "int64 i"
  have d: "list_all is_digit (show_nat n)" "show_nat n \<noteq> []" for n
    using show_nat_digits by auto
  show ?thesis
  proof (cases "i < 0")
    case True
    then show ?thesis using i d by (simp add: parse_int64_def show_int_def)
  next
    case False
    obtain c t where s: "show_nat (nat i) = c # t" by (cases "show_nat (nat i)") auto
    then have "c \<noteq> CHR ''-''" using show_nat_hd_digit [of "nat i"] digit_not_minus by auto
    then show ?thesis
      using False i d [of "nat i"] s read_show_nat [of "nat i"] by (simp add: parse_int64_def show_int_def)
  qed
qed

lemma fold_name_ascii: "ascii s \<Longrightarrow> fold_name s = map (\<lambda>c. fold_rune (bv c)) s"
  by (simp add: fold_name_def runes_ascii)

lemma map_bv_inject: "map bv s = map bv t \<longleftrightarrow> s = t"
  by (simp add: inj_map_eq_map inj_def)

lemma field_of_self: "distinct (map fold_name names) \<Longrightarrow> c \<in> set names \<Longrightarrow> field_of names c = Some c"
  unfolding field_of_def by (induction names) (auto simp: image_iff)

lemma distinct_map_bv: "distinct ss \<Longrightarrow> distinct (map (map bv) ss)"
  by (simp add: distinct_map inj_on_def map_bv_inject)

end
