(* ===== verification/Store_Codec.thy ===== *)
theory Store_Codec
  imports Domain Go_Decode
begin

text \<open>
  What \<open>encoding/json\<close> does with the two records the store keeps sealed, \<open>domain.PlatformReceipt\<close> and
  \<open>domain.AuditEvent\<close>: marshalling in field order, and unmarshalling into an existing value with
  case-folded field names. The round trips at the end carry the store's lemmas.
\<close>

section \<open>Receipts\<close>

definition receipt_fields :: "string list" where
  "receipt_fields = [''ID'', ''JobID'', ''Platform'', ''State'', ''ExternalID'', ''CountryCode'', ''AttemptCount'',
     ''RelayAccepted'', ''RelayAttempted'', ''SafeError'', ''CreatedAt'']"

definition receipt_json :: "PlatformReceipt \<Rightarrow> json" where
  "receipt_json r =
     JObj [(''ID'', JNum (show_int (rc_id r))), (''JobID'', JStr (rc_job_id r)),
           (''Platform'', JStr (rc_platform r)), (''State'', JStr (rc_state r)),
           (''ExternalID'', JStr (rc_external_id r)), (''CountryCode'', JStr (rc_country_code r)),
           (''AttemptCount'', JNum (show_int (rc_attempt_count r))),
           (''RelayAccepted'', JNum (show_int (rc_relay_accepted r))),
           (''RelayAttempted'', JNum (show_int (rc_relay_attempted r))),
           (''SafeError'', JStr (rc_safe_error r)),
           (''CreatedAt'', JStr (FormatRFC3339Nano (rc_created_at r)))]"

definition MarshalReceipt :: "PlatformReceipt \<Rightarrow> go_error + bytes" where
  "MarshalReceipt r =
     (if json_year_ok (rc_created_at r) then Inr (json_print True (receipt_json r)) else Inl year_error)"

definition set_receipt :: "string \<Rightarrow> json \<Rightarrow> PlatformReceipt \<Rightarrow> go_error + PlatformReceipt" where
  "set_receipt c v r =
     (if c = ''ID'' then map_sum id (\<lambda>i. r\<lparr>rc_id := i\<rparr>) (decode_int v (rc_id r))
      else if c = ''JobID'' then map_sum id (\<lambda>s. r\<lparr>rc_job_id := s\<rparr>) (decode_string v (rc_job_id r))
      else if c = ''Platform'' then map_sum id (\<lambda>s. r\<lparr>rc_platform := s\<rparr>) (decode_string v (rc_platform r))
      else if c = ''State'' then map_sum id (\<lambda>s. r\<lparr>rc_state := s\<rparr>) (decode_string v (rc_state r))
      else if c = ''ExternalID'' then map_sum id (\<lambda>s. r\<lparr>rc_external_id := s\<rparr>) (decode_string v (rc_external_id r))
      else if c = ''CountryCode'' then map_sum id (\<lambda>s. r\<lparr>rc_country_code := s\<rparr>) (decode_string v (rc_country_code r))
      else if c = ''AttemptCount'' then map_sum id (\<lambda>i. r\<lparr>rc_attempt_count := i\<rparr>) (decode_int v (rc_attempt_count r))
      else if c = ''RelayAccepted'' then map_sum id (\<lambda>i. r\<lparr>rc_relay_accepted := i\<rparr>) (decode_int v (rc_relay_accepted r))
      else if c = ''RelayAttempted'' then map_sum id (\<lambda>i. r\<lparr>rc_relay_attempted := i\<rparr>) (decode_int v (rc_relay_attempted r))
      else if c = ''SafeError'' then map_sum id (\<lambda>s. r\<lparr>rc_safe_error := s\<rparr>) (decode_string v (rc_safe_error r))
      else map_sum id (\<lambda>t. r\<lparr>rc_created_at := t\<rparr>) (decode_time v (rc_created_at r)))"

definition UnmarshalReceipt :: "bytes \<Rightarrow> PlatformReceipt \<Rightarrow> go_error + PlatformReceipt" where
  "UnmarshalReceipt = Unmarshal receipt_fields set_receipt"

section \<open>Audit events\<close>

definition event_fields :: "string list" where
  "event_fields = [''ID'', ''JobID'', ''Kind'', ''Detail'', ''CreatedAt'']"

definition event_json :: "AuditEvent \<Rightarrow> json" where
  "event_json e =
     JObj [(''ID'', JNum (show_int (ev_id e))), (''JobID'', JStr (ev_job_id e)), (''Kind'', JStr (ev_kind e)),
           (''Detail'', JStr (ev_detail e)), (''CreatedAt'', JStr (FormatRFC3339Nano (ev_created_at e)))]"

definition MarshalEvent :: "AuditEvent \<Rightarrow> go_error + bytes" where
  "MarshalEvent e =
     (if json_year_ok (ev_created_at e) then Inr (json_print True (event_json e)) else Inl year_error)"

definition set_event :: "string \<Rightarrow> json \<Rightarrow> AuditEvent \<Rightarrow> go_error + AuditEvent" where
  "set_event c v e =
     (if c = ''ID'' then map_sum id (\<lambda>i. e\<lparr>ev_id := i\<rparr>) (decode_int v (ev_id e))
      else if c = ''JobID'' then map_sum id (\<lambda>s. e\<lparr>ev_job_id := s\<rparr>) (decode_string v (ev_job_id e))
      else if c = ''Kind'' then map_sum id (\<lambda>s. e\<lparr>ev_kind := s\<rparr>) (decode_string v (ev_kind e))
      else if c = ''Detail'' then map_sum id (\<lambda>s. e\<lparr>ev_detail := s\<rparr>) (decode_string v (ev_detail e))
      else map_sum id (\<lambda>t. e\<lparr>ev_created_at := t\<rparr>) (decode_time v (ev_created_at e)))"

definition UnmarshalEvent :: "bytes \<Rightarrow> AuditEvent \<Rightarrow> go_error + AuditEvent" where
  "UnmarshalEvent = Unmarshal event_fields set_event"

section \<open>Round trips\<close>

lemma fold_names:
  "fold_name ''ID'' = map bv ''ID''" "fold_name ''JobID'' = map bv ''JOBID''"
  "fold_name ''Platform'' = map bv ''PLATFORM''" "fold_name ''State'' = map bv ''STATE''"
  "fold_name ''ExternalID'' = map bv ''EXTERNALID''" "fold_name ''CountryCode'' = map bv ''COUNTRYCODE''"
  "fold_name ''AttemptCount'' = map bv ''ATTEMPTCOUNT''" "fold_name ''RelayAccepted'' = map bv ''RELAYACCEPTED''"
  "fold_name ''RelayAttempted'' = map bv ''RELAYATTEMPTED''" "fold_name ''SafeError'' = map bv ''SAFEERROR''"
  "fold_name ''CreatedAt'' = map bv ''CREATEDAT''" "fold_name ''Kind'' = map bv ''KIND''"
  "fold_name ''Detail'' = map bv ''DETAIL''"
  by (simp_all add: fold_name_ascii ascii_def bv_def fold_rune_def)

lemma receipt_field_of: "c \<in> set receipt_fields \<Longrightarrow> field_of receipt_fields c = Some c"
proof (rule field_of_self)
  have "map fold_name receipt_fields = map (map bv)
      [''ID'', ''JOBID'', ''PLATFORM'', ''STATE'', ''EXTERNALID'', ''COUNTRYCODE'', ''ATTEMPTCOUNT'',
       ''RELAYACCEPTED'', ''RELAYATTEMPTED'', ''SAFEERROR'', ''CREATEDAT'']"
    by (simp only: receipt_fields_def list.map(2) fold_names) simp
  then show "distinct (map fold_name receipt_fields)" by (simp only:) (rule distinct_map_bv, simp)
qed

lemma event_field_of: "c \<in> set event_fields \<Longrightarrow> field_of event_fields c = Some c"
proof (rule field_of_self)
  have "map fold_name event_fields = map (map bv) [''ID'', ''JOBID'', ''KIND'', ''DETAIL'', ''CREATEDAT'']"
    by (simp only: event_fields_def list.map(2) fold_names) simp
  then show "distinct (map fold_name event_fields)" by (simp only:) (rule distinct_map_bv, simp)
qed

text \<open>Records \<open>json.Marshal\<close> keeps unchanged: valid UTF-8 text and numbers of the Go types.\<close>

definition receipt_ok :: "PlatformReceipt \<Rightarrow> bool" where
  "receipt_ok r \<longleftrightarrow> ValidString (rc_job_id r) \<and> ValidString (rc_platform r) \<and> ValidString (rc_state r) \<and>
     ValidString (rc_external_id r) \<and> ValidString (rc_country_code r) \<and> ValidString (rc_safe_error r) \<and>
     int64 (rc_id r) \<and> int64 (rc_attempt_count r) \<and> int64 (rc_relay_accepted r) \<and> int64 (rc_relay_attempted r) \<and>
     json_year_ok (rc_created_at r)"

definition event_good :: "AuditEvent \<Rightarrow> bool" where
  "event_good e \<longleftrightarrow> ValidString (ev_job_id e) \<and> ValidString (ev_kind e) \<and> ValidString (ev_detail e) \<and>
     int64 (ev_id e) \<and> json_year_ok (ev_created_at e)"

lemmas decode_defs = decode_string_def decode_int_def decode_time_def parse_int64_show

lemma ascii_const: "list_all (\<lambda>c. bv c < 128) s \<Longrightarrow> ValidString s"
  by (simp add: ascii_ValidString ascii_def list_all_iff)

lemma receipt_names_valid: "c \<in> set receipt_fields \<Longrightarrow> ValidString c"
  by (rule ascii_const) (auto simp: receipt_fields_def bv_def)

lemma event_names_valid: "c \<in> set event_fields \<Longrightarrow> ValidString c"
  by (rule ascii_const) (auto simp: event_fields_def bv_def)

lemma time_valid: "ValidString (FormatRFC3339Nano t)"
  by (simp add: ascii_ValidString FormatRFC3339Nano_ascii)

theorem receipt_roundtrip:
  assumes "receipt_ok r"
  shows "\<exists>data. MarshalReceipt r = Inr data \<and> UnmarshalReceipt data r0 = Inr r"
proof -
  have "json_wf (receipt_json r)"
    using assms time_valid receipt_names_valid by (auto simp: receipt_json_def receipt_ok_def receipt_fields_def)
  then have p: "json_parse (json_print True (receipt_json r)) = Some (receipt_json r)" by (rule json_parse_print)
  have t: "ParseRFC3339 (FormatRFC3339Nano (rc_created_at r)) = Some (rc_created_at r)"
    using assms by (simp add: receipt_ok_def json_year_ok_def parse_format_time)
  note f = receipt_field_of [unfolded receipt_fields_def, simplified]
  have "UnmarshalReceipt (json_print True (receipt_json r)) r0 = Inr r"
    using assms by (simp add: UnmarshalReceipt_def Unmarshal_def p, simp add: receipt_json_def)
      (simp add: receipt_fields_def f set_receipt_def decode_defs t receipt_ok_def)
  then show ?thesis using assms by (simp add: MarshalReceipt_def receipt_ok_def)
qed

theorem event_roundtrip:
  assumes "event_good e"
  shows "\<exists>data. MarshalEvent e = Inr data \<and> UnmarshalEvent data e0 = Inr e"
proof -
  have "json_wf (event_json e)"
    using assms time_valid event_names_valid by (auto simp: event_json_def event_good_def event_fields_def)
  then have p: "json_parse (json_print True (event_json e)) = Some (event_json e)" by (rule json_parse_print)
  have t: "ParseRFC3339 (FormatRFC3339Nano (ev_created_at e)) = Some (ev_created_at e)"
    using assms by (simp add: event_good_def json_year_ok_def parse_format_time)
  note f = event_field_of [unfolded event_fields_def, simplified]
  have "UnmarshalEvent (json_print True (event_json e)) e0 = Inr e"
    using assms by (simp add: UnmarshalEvent_def Unmarshal_def p, simp add: event_json_def)
      (simp add: event_fields_def f set_event_def decode_defs t event_good_def)
  then show ?thesis using assms by (simp add: MarshalEvent_def event_good_def)
qed

end
