(* ===== verification/Store_Props.thy ===== *)
theory Store_Props
  imports Store "HOL-Library.Multiset"
begin

text \<open>
  Facts and properties of the SQLite store of theory \<open>Store\<close>: inversion of statements, the effect of
  every job operation on the job table seen as a map, the database invariant, and the round trips of
  sealed records.
\<close>

section \<open>Statements\<close>

lemma sql_nofault [simp]: "faults w = [] \<Longrightarrow> sql m w = m w"
  by (simp add: sql_def)

lemma query_nofault [simp]: "faults w = [] \<Longrightarrow> query f w = (Inr (f (db w)), w)"
  by (simp add: query_def)

lemma exec_nofault:
  "faults w = [] \<Longrightarrow>
   exec f w = (case f (db w) of Inl err \<Rightarrow> (Inl err, w) | Inr (x, d) \<Rightarrow> (Inr x, w\<lparr>db := d\<rparr>))"
  by (simp add: exec_def)

text \<open>What a statement leaves alone, whatever its outcome: the clock and the entropy.\<close>

definition same_ambient :: "'z sqlite_world_scheme \<Rightarrow> 'z sqlite_world_scheme \<Rightarrow> bool" where
  "same_ambient w w' \<longleftrightarrow> entropy w' = entropy w \<and> clock w' = clock w \<and> ticks w' = ticks w"

lemma same_ambient_refl [simp]: "same_ambient w w"
  by (simp add: same_ambient_def)

lemma query_outcome:
  "query f w = (res, w') \<Longrightarrow> db w' = db w \<and> same_ambient w w' \<and> (\<forall>x. res = Inr x \<longrightarrow> x = f (db w))"
  by (auto simp: query_def sql_def same_ambient_def split: list.splits option.splits)

lemma exec_outcome:
  assumes "exec f w = (res, w')"
  shows "same_ambient w w' \<and>
    (case res of Inl _ \<Rightarrow> db w' = db w | Inr x \<Rightarrow> f (db w) = Inr (x, db w'))"
  using assms
  by (auto simp: exec_def sql_def same_ambient_def split: list.splits option.splits sum.splits prod.splits)

lemma exec_Inr: "exec f w = (Inr x, w') \<Longrightarrow> f (db w) = Inr (x, db w') \<and> same_ambient w w'"
  using exec_outcome by fastforce

lemma exec_Inl: "exec f w = (Inl e, w') \<Longrightarrow> db w' = db w"
  using exec_outcome by fastforce

lemma keeps_db_query [intro]: "keeps db (query f)"
  using query_outcome [OF surjective_pairing, of f] by (auto simp: keeps_def)

lemma exec_keeps:
  assumes "\<And>d x d'. f d = Inr (x, d') \<Longrightarrow> g d' = g d"
  shows "keeps (\<lambda>w. g (db w)) (exec f)"
  by (auto simp: keeps_def exec_def sql_def assms split: list.splits option.splits sum.splits prod.splits)

lemma ambient_free_db [simp, intro]: "ambient_free db" "ambient_free faults"
  by (simp_all add: ambient_free_def)

section \<open>The job table as a map\<close>

definition job_ids :: "database \<Rightarrow> string list" where
  "job_ids d = map jr_id (t_jobs d)"

lemma find_job_None: "find_job k d = None \<longleftrightarrow> k \<notin> set (job_ids d)"
  by (auto simp: find_job_def find_None_iff job_ids_def)

lemma find_job_Some: "find_job k d = Some r \<Longrightarrow> r \<in> set (t_jobs d) \<and> jr_id r = k"
  by (auto simp: find_job_def find_Some_iff)

lemma find_job_member:
  "distinct (job_ids d) \<Longrightarrow> r \<in> set (t_jobs d) \<Longrightarrow> find_job (jr_id r) d = Some r"
proof -
  assume d: "distinct (job_ids d)" and r: "r \<in> set (t_jobs d)"
  then obtain r' where r': "find_job (jr_id r) d = Some r'"
    using find_job_None [of "jr_id r" d] by (cases "find_job (jr_id r) d") (auto simp: job_ids_def)
  then have "r' \<in> set (t_jobs d)" "jr_id r' = jr_id r" using find_job_Some by blast+
  with d r have "r' = r" by (auto simp: job_ids_def distinct_map inj_on_def)
  with r' show ?thesis by simp
qed

lemma find_job_update [simp]:
  "find_job k (d\<lparr>t_receipts := a\<rparr>) = find_job k d" "find_job k (d\<lparr>receipts_seq := b\<rparr>) = find_job k d"
  "find_job k (d\<lparr>t_audit := c\<rparr>) = find_job k d" "find_job k (d\<lparr>audit_seq := b\<rparr>) = find_job k d"
  "find_job k (d\<lparr>t_system := e\<rparr>) = find_job k d" "find_job k (d\<lparr>t_auth := f\<rparr>) = find_job k d"
  "find_job k (d\<lparr>t_recovery := g\<rparr>) = find_job k d" "find_job k (d\<lparr>t_x_oauth := g\<rparr>) = find_job k d"
  "find_job k (d\<lparr>schema := h\<rparr>) = find_job k d"
  by (simp_all add: find_job_def)

text \<open>A conditional update of one job, as all four UPDATE statements are: compare and set.\<close>

definition cas_job :: "string \<Rightarrow> (job_row \<Rightarrow> bool) \<Rightarrow> (job_row \<Rightarrow> job_row) \<Rightarrow> ('z sqlite_world_scheme, unit) act" where
  "cas_job jid Q f = ebind (exec (update_jobs (\<lambda>r. jr_id r = jid \<and> Q r) f)) requireOne"

lemma filter_job:
  assumes "distinct (job_ids d)"
  shows "filter (\<lambda>r. jr_id r = jid \<and> Q r) (t_jobs d) =
    (case find_job jid d of None \<Rightarrow> [] | Some r \<Rightarrow> if Q r then [r] else [])"
proof -
  have "filter (\<lambda>r. jr_id r = jid) rs = (case find (\<lambda>r. jr_id r = jid) rs of None \<Rightarrow> [] | Some r \<Rightarrow> [r])"
    if "distinct (map jr_id rs)" for rs
    using that by (induction rs) (force simp: filter_empty_conv find_None_iff find_Some_iff split: option.splits)+
  then have "filter (\<lambda>r. jr_id r = jid) (t_jobs d) = (case find_job jid d of None \<Rightarrow> [] | Some r \<Rightarrow> [r])"
    using assms by (simp add: job_ids_def find_job_def)
  then have "filter Q (filter (\<lambda>r. jr_id r = jid) (t_jobs d)) =
      (case find_job jid d of None \<Rightarrow> [] | Some r \<Rightarrow> if Q r then [r] else [])"
    by (simp split: option.splits)
  then show ?thesis by (simp add: conj_commute)
qed

lemma cas_job_table:
  assumes "distinct (job_ids d)" and "\<And>r. jr_id (f r) = jr_id r"
    and "update_jobs (\<lambda>r. jr_id r = jid \<and> Q r) f d = Inr (n, d')"
  shows "(case find_job jid d of
       Some r \<Rightarrow> if Q r then n = 1 \<and> (\<forall>k. find_job k d' = (if k = jid then Some (f r) else find_job k d))
                else n = 0 \<and> d' = d
     | None \<Rightarrow> n = 0 \<and> d' = d) \<and> job_ids d' = job_ids d"
proof -
  let ?P = "\<lambda>r. jr_id r = jid \<and> Q r"
  have n: "n = length (filter ?P (t_jobs d))" and
      d': "d' = d\<lparr>t_jobs := map (\<lambda>r. if ?P r then f r else r) (t_jobs d)\<rparr>"
    using assms(3) by (auto simp: update_jobs_def)
  have ids: "job_ids d' = job_ids d" using assms(2) by (simp add: d' job_ids_def)
  have same: "d' = d" if "filter ?P (t_jobs d) = []"
  proof -
    have "map (\<lambda>r. if ?P r then f r else r) (t_jobs d) = t_jobs d"
      by (rule map_idI) (use that in \<open>auto simp: filter_empty_conv\<close>)
    then show ?thesis by (simp add: d')
  qed
  have upd: "find_job k d' = (if k = jid then Some (f r) else find_job k d)"
    if r: "find_job jid d = Some r" "Q r" for k r
  proof -
    have dis: "distinct (job_ids d')" using ids assms(1) by simp
    show ?thesis
    proof (cases "find_job k d")
      case None
      then show ?thesis using ids r find_job_None by (metis option.distinct(1))
    next
      case (Some s)
      then have s: "s \<in> set (t_jobs d)" "jr_id s = k" using find_job_Some by blast+
      then have "(if ?P s then f s else s) \<in> set (t_jobs d')" by (simp add: d')
      moreover have "jr_id (if ?P s then f s else s) = k" using s assms(2) by simp
      ultimately have "find_job k d' = Some (if ?P s then f s else s)"
        using find_job_member [OF dis] by metis
      then show ?thesis using Some r s by auto
    qed
  qed
  show ?thesis
    using filter_job [OF assms(1), of jid Q] same upd n ids by (auto split: option.splits if_splits)
qed

lemma cas_job_outcome:
  assumes "cas_job jid Q f w = (res, w')" and "distinct (job_ids (db w))" and "\<And>r. jr_id (f r) = jr_id r"
  shows "same_ambient w w' \<and> job_ids (db w') = job_ids (db w) \<and>
    (case res of
       Inl _ \<Rightarrow> db w' = db w
     | Inr _ \<Rightarrow> (\<exists>r. find_job jid (db w) = Some r \<and> Q r \<and>
          (\<forall>k. find_job k (db w') = (if k = jid then Some (f r) else find_job k (db w)))) \<and>
          (\<exists>rows. db w' = (db w)\<lparr>t_jobs := rows\<rparr>))"
proof (cases "exec (update_jobs (\<lambda>r. jr_id r = jid \<and> Q r) f) w")
  case (Pair r1 w1)
  show ?thesis
  proof (cases r1)
    case (Inl e)
    with Pair assms(1) have "res = Inl e" "w' = w1" by (auto simp: cas_job_def)
    then show ?thesis using exec_outcome [OF Pair] Inl by simp
  next
    case (Inr n)
    with Pair have u: "update_jobs (\<lambda>r. jr_id r = jid \<and> Q r) f (db w) = Inr (n, db w1)" "same_ambient w w1"
      using exec_Inr by fast+
    have res: "w' = w1" "res = (if n \<noteq> 1 then Inl (Sentinel ErrNotFound) else Inr ())"
      using assms(1) Pair Inr by (auto simp: cas_job_def requireOne_def split: if_splits)
    have "db w1 = (db w)\<lparr>t_jobs := map (\<lambda>r. if jr_id r = jid \<and> Q r then f r else r) (t_jobs (db w))\<rparr>"
      using u(1) by (simp add: update_jobs_def)
    then have "\<exists>rows. db w1 = (db w)\<lparr>t_jobs := rows\<rparr>" by blast
    then show ?thesis
      using cas_job_table [OF assms(2,3) u(1)] u(2) res by (auto split: option.splits if_splits)
  qed
qed

lemma cas_job_nofault:
  assumes "faults w = []" and "distinct (job_ids (db w))" and "\<And>r. jr_id (f r) = jr_id r"
  shows "fst (cas_job jid Q f w) =
    (case find_job jid (db w) of Some r \<Rightarrow> if Q r then Inr () else Inl (Sentinel ErrNotFound)
     | None \<Rightarrow> Inl (Sentinel ErrNotFound))"
proof -
  obtain n d' where u: "update_jobs (\<lambda>r. jr_id r = jid \<and> Q r) f (db w) = Inr (n, d')"
    by (simp add: update_jobs_def)
  then have "cas_job jid Q f w = requireOne n (w\<lparr>db := d'\<rparr>)"
    using assms(1) by (simp add: cas_job_def exec_nofault)
  then show ?thesis
    using cas_job_table [OF assms(2,3) u] by (auto simp: requireOne_def split: option.splits if_splits)
qed

text \<open>The four UPDATE operations are instances.\<close>

lemma ApproveJob_cas: "ApproveJob jid h at = cas_job jid (\<lambda>r. jr_state r = StateDraft \<and> content_destroyed r = 0)
    (\<lambda>r. r\<lparr>payload_hash := h, jr_state := StateApproved, approved_at := Some (millis at), updated_at := millis at\<rparr>)"
  and TransitionJob_cas: "TransitionJob jid from to at =
    ebind (lift (ValidateTransition from to)) (\<lambda>_.
    cas_job jid (\<lambda>r. jr_state r = from) (\<lambda>r. r\<lparr>jr_state := to, updated_at := millis at\<rparr>))"
  and DestroyJobContent_cas: "DestroyJobContent jid at = cas_job jid (\<lambda>r. content_destroyed r = 0)
    (\<lambda>r. r\<lparr>encrypted_content := None, content_destroyed := 1, updated_at := millis at\<rparr>)"
  and SetLastNostrCountry_cas: "SetLastNostrCountry jid country at = cas_job jid (\<lambda>r. True)
    (\<lambda>r. r\<lparr>last_nostr_country := country, updated_at := millis at\<rparr>)"
  by (simp_all add: ApproveJob_def TransitionJob_def DestroyJobContent_def SetLastNostrCountry_def cas_job_def)

section \<open>The database invariant\<close>

definition flag :: "int \<Rightarrow> bool" where
  "flag i \<longleftrightarrow> i = 0 \<or> i = 1"

definition row_ok :: "job_row \<Rightarrow> bool" where
  "row_ok r \<longleftrightarrow> flag (post_to_x r) \<and> flag (post_to_nostr r) \<and> flag (content_destroyed r)"

text \<open>
  Primary keys are unique, CHECK constraints hold, receipts belong to existing jobs, the
  AUTOINCREMENT sequences are ahead of the identifiers in use, and the system row exists.
\<close>

definition db_inv :: "database \<Rightarrow> bool" where
  "db_inv d \<longleftrightarrow>
     distinct (job_ids d) \<and> (\<forall>r \<in> set (t_jobs d). row_ok r) \<and>
     (\<forall>r \<in> set (t_receipts d). rr_job_id r \<in> set (job_ids d) \<and> rr_id r \<le> receipts_seq d) \<and>
     distinct (map rr_id (t_receipts d)) \<and>
     (\<forall>r \<in> set (t_audit d). ar_id r \<le> audit_seq d) \<and> distinct (map ar_id (t_audit d)) \<and>
     (\<exists>r. t_system d = Some r \<and> flag (sr_stop r))"

abbreviation store_inv :: "'z sqlite_world_scheme \<Rightarrow> bool" where
  "store_inv w \<equiv> db_inv (db w)"

lemma flag_boolInt [simp]: "flag (boolInt b)" "flag 0" "flag 1"
  by (simp_all add: flag_def boolInt_def)

lemma preserves_exec:
  assumes "\<And>d x d'. J d \<Longrightarrow> f d = Inr (x, d') \<Longrightarrow> J d'"
  shows "preserves (\<lambda>w. J (db w)) (exec f)"
  unfolding preserves_def
proof (intro allI impI)
  fix w assume j: "J (db w)"
  obtain res w' where e: "exec f w = (res, w')" by fastforce
  show "J (db (snd (exec f w)))"
  proof (cases res)
    case (Inl err)
    then show ?thesis using e j exec_Inl by fastforce
  next
    case (Inr x)
    then have "f (db w) = Inr (x, db w')" using e exec_Inr by fast
    then show ?thesis using e j assms by auto
  qed
qed

lemma preserves_query [intro]: "preserves (\<lambda>w. J (db w)) (query f)"
  by (intro keeps_preserves keeps_db_query)

lemma preserves_Seal [intro]: "preserves (\<lambda>w. J (db w)) (Seal e p ad)"
  by (intro keeps_preserves keeps_Seal ambient_free_db)

lemma preserves_update_jobs:
  assumes "\<And>r. P r \<Longrightarrow> jr_id (f r) = jr_id r" and "\<And>r. row_ok r \<Longrightarrow> P r \<Longrightarrow> row_ok (f r)"
  shows "preserves (\<lambda>w. db_inv (db w)) (exec (update_jobs P f))"
proof (rule preserves_exec)
  fix d n d' assume d: "db_inv d" and u: "update_jobs P f d = Inr (n, d')"
  have d': "d' = d\<lparr>t_jobs := map (\<lambda>r. if P r then f r else r) (t_jobs d)\<rparr>"
    using u by (auto simp: update_jobs_def)
  have "job_ids d' = job_ids d" using assms(1) by (simp add: d' job_ids_def)
  with d assms(2) show "db_inv d'" by (auto simp: db_inv_def d')
qed

lemma preserves_requireOne [intro]: "preserves J (requireOne n)"
  by (simp add: requireOne_def)

lemma inv_CreateJob: "preserves store_inv (CreateJob job)"
  unfolding CreateJob_def
  by (intro preserves_wrap_err preserves_exec)
    (auto simp: insert_job_def db_inv_def job_ids_def row_ok_def split: if_splits)

lemma inv_cas_job:
  assumes "\<And>r. jr_id (f r) = jr_id r" and "\<And>r. row_ok r \<Longrightarrow> row_ok (f r)"
  shows "preserves store_inv (cas_job jid Q f)"
  unfolding cas_job_def by (intro preserves_ebind preserves_update_jobs preserves_requireOne assms)

lemma inv_insert_receipt: "preserves store_inv (exec (insert_receipt r))"
  by (intro preserves_exec) (force simp: insert_receipt_def db_inv_def job_ids_def split: if_splits)

lemma inv_insert_audit: "preserves store_inv (exec (insert_audit r))"
  by (intro preserves_exec) (force simp: insert_audit_def db_inv_def job_ids_def)

lemma inv_AddReceipt: "preserves store_inv (AddReceipt s r)"
  unfolding AddReceipt_def
  by (auto intro!: inv_insert_receipt split: option.splits)

lemma inv_AddAudit: "preserves store_inv (AddAudit s e)"
  unfolding AddAudit_def
  by (auto intro!: inv_insert_audit split: option.splits)

lemma inv_PurgeAuditBefore: "preserves store_inv (PurgeAuditBefore t)"
  unfolding PurgeAuditBefore_def
  by (intro preserves_exec) (auto simp: db_inv_def job_ids_def distinct_map inj_on_def)

lemma inv_PurgeResolvedJobsBefore: "preserves store_inv (PurgeResolvedJobsBefore t)"
  unfolding PurgeResolvedJobsBefore_def
  by (intro preserves_exec) (auto simp: db_inv_def job_ids_def distinct_map inj_on_def, blast)

lemma inv_SetEmergencyStop: "preserves store_inv (SetEmergencyStop b r t)"
  unfolding SetEmergencyStop_def
  by (intro preserves_exec) (auto simp: db_inv_def job_ids_def)

lemma inv_SaveAuthState: "preserves store_inv (SaveAuthState s u c t)"
proof -
  have "preserves store_inv (exec (\<lambda>d. Inr ((), d\<lparr>t_auth := x\<rparr>)))" for x
    by (intro preserves_exec) (auto simp: db_inv_def job_ids_def)
  then show ?thesis unfolding SaveAuthState_def by (auto intro!: preserves_ebind split: option.splits)
qed

lemma inv_save_sealed:
  assumes "\<And>x d. db_inv d \<Longrightarrow> db_inv (put x d)"
  shows "preserves store_inv (save_sealed s v aad m1 m2 put)"
proof -
  have "preserves store_inv (exec (\<lambda>d. Inr ((), put x d)))" for x
    by (intro preserves_exec) (use assms in auto)
  then show ?thesis unfolding save_sealed_def by (auto split: option.splits)
qed

section \<open>Sequences of operations\<close>

text \<open>
  Every method of the store as a step, so that any sequence of calls, from one caller or from
  several interleaved ones, is a list of steps.
\<close>

datatype store_op =
    DoCreateJob PostJob | DoApproveJob string string time | DoTransitionJob string JobState JobState time
  | DoDestroy string time | DoSetCountry string string time
  | DoAddReceipt PlatformReceipt | DoAddAudit AuditEvent | DoPurgeAudit time | DoPurgeJobs time
  | DoSetStop bool string time | DoSaveAuth bytes bytes time | DoSaveRecovery bytes time
  | DoSaveTokens bytes time | DoDeleteTokens
  | DoGetJob string | DoListJobs int | DoListReceipts string | DoListAudit int | DoSystemState
  | DoLoadAuth | DoLoadRecovery | DoLoadTokens

fun run_op :: "SQLite \<Rightarrow> store_op \<Rightarrow> 'z sqlite_world_scheme \<Rightarrow> 'z sqlite_world_scheme" where
  "run_op s (DoCreateJob j) w = snd (CreateJob j w)"
| "run_op s (DoApproveJob i h t) w = snd (ApproveJob i h t w)"
| "run_op s (DoTransitionJob i a b t) w = snd (TransitionJob i a b t w)"
| "run_op s (DoDestroy i t) w = snd (DestroyJobContent i t w)"
| "run_op s (DoSetCountry i c t) w = snd (SetLastNostrCountry i c t w)"
| "run_op s (DoAddReceipt r) w = snd (AddReceipt s r w)"
| "run_op s (DoAddAudit e) w = snd (AddAudit s e w)"
| "run_op s (DoPurgeAudit t) w = snd (PurgeAuditBefore t w)"
| "run_op s (DoPurgeJobs t) w = snd (PurgeResolvedJobsBefore t w)"
| "run_op s (DoSetStop b r t) w = snd (SetEmergencyStop b r t w)"
| "run_op s (DoSaveAuth u c t) w = snd (SaveAuthState s u c t w)"
| "run_op s (DoSaveRecovery h t) w = snd (SaveRecoveryHash s h t w)"
| "run_op s (DoSaveTokens e t) w = snd (SaveXOAuthTokens s e t w)"
| "run_op s DoDeleteTokens w = snd (DeleteXOAuthTokens w)"
| "run_op s (DoGetJob i) w = snd (GetJob i w)"
| "run_op s (DoListJobs n) w = snd (ListJobs s n w)"
| "run_op s (DoListReceipts i) w = snd (ListReceipts s i w)"
| "run_op s (DoListAudit n) w = snd (ListAudit s n w)"
| "run_op s DoSystemState w = snd (SystemState_get w)"
| "run_op s DoLoadAuth w = snd (LoadAuthState s w)"
| "run_op s DoLoadRecovery w = snd (LoadRecoveryHash s w)"
| "run_op s DoLoadTokens w = snd (LoadXOAuthTokens s w)"

text \<open>The reading operations change nothing in the database.\<close>

lemma keeps_db_GetJob: "keeps db (GetJob i)"
  unfolding GetJob_def by (auto intro!: keeps_ebind split: option.splits)

lemma keeps_db_ListReceipts: "keeps db (ListReceipts s i)"
  unfolding ListReceipts_def by (auto intro!: keeps_ebind)

lemma keeps_db_summarize: "keeps db (summarize s rows)"
proof (induction rows)
  case (Cons row rows)
  then show ?case
    unfolding summarize.simps Let_def by (intro keeps_ebind keeps_db_ListReceipts keeps_ok)
qed (simp add: keeps_def)

lemma keeps_db_ListJobs: "keeps db (ListJobs s n)"
  unfolding ListJobs_def Let_def by (auto intro!: keeps_ebind keeps_db_summarize)

lemma keeps_db_ListAudit: "keeps db (ListAudit s n)"
  unfolding ListAudit_def Let_def by (auto intro!: keeps_ebind)

lemma keeps_db_SystemState: "keeps db SystemState_get"
  unfolding SystemState_get_def by (auto intro!: keeps_ebind split: option.splits)

lemma keeps_db_LoadAuthState: "keeps db (LoadAuthState s)"
  unfolding LoadAuthState_def by (auto intro!: keeps_ebind keeps_wrap_err split: option.splits)

lemma keeps_db_load_sealed: "keeps db (load_sealed s tab aad m1 m2)"
  unfolding load_sealed_def by (auto intro!: keeps_ebind keeps_wrap_err split: option.splits)

lemma read_ops [simp]:
  "db (snd (GetJob i w)) = db w" "db (snd (ListReceipts s i w)) = db w" "db (snd (ListJobs s n w)) = db w"
  "db (snd (ListAudit s n w)) = db w" "db (snd (SystemState_get w)) = db w" "db (snd (LoadAuthState s w)) = db w"
  "db (snd (LoadRecoveryHash s w)) = db w" "db (snd (LoadXOAuthTokens s w)) = db w"
  by (simp_all add: LoadRecoveryHash_def LoadXOAuthTokens_def
      keeps_db_GetJob [THEN keeps_snd] keeps_db_ListReceipts [THEN keeps_snd] keeps_db_ListJobs [THEN keeps_snd]
      keeps_db_ListAudit [THEN keeps_snd] keeps_db_SystemState [THEN keeps_snd]
      keeps_db_LoadAuthState [THEN keeps_snd] keeps_db_load_sealed [THEN keeps_snd])

lemma inv_ApproveJob: "preserves store_inv (ApproveJob i h t)"
  unfolding ApproveJob_cas by (rule inv_cas_job) (auto simp: row_ok_def)

lemma inv_TransitionJob: "preserves store_inv (TransitionJob i a b t)"
  unfolding TransitionJob_cas by (intro preserves_ebind preserves_lift inv_cas_job) (auto simp: row_ok_def)

lemma inv_DestroyJobContent: "preserves store_inv (DestroyJobContent i t)"
  unfolding DestroyJobContent_cas by (rule inv_cas_job) (auto simp: row_ok_def)

lemma inv_SetLastNostrCountry: "preserves store_inv (SetLastNostrCountry i c t)"
  unfolding SetLastNostrCountry_cas by (rule inv_cas_job) (auto simp: row_ok_def)

lemma inv_SaveRecoveryHash: "preserves store_inv (SaveRecoveryHash s h t)"
  unfolding SaveRecoveryHash_def by (rule inv_save_sealed) (auto simp: db_inv_def job_ids_def)

lemma inv_SaveXOAuthTokens: "preserves store_inv (SaveXOAuthTokens s e t)"
  unfolding SaveXOAuthTokens_def by (rule inv_save_sealed) (auto simp: db_inv_def job_ids_def)

lemma inv_DeleteXOAuthTokens: "preserves store_inv DeleteXOAuthTokens"
  unfolding DeleteXOAuthTokens_def by (intro preserves_exec) (auto simp: db_inv_def job_ids_def)

lemmas inv_writes = inv_CreateJob inv_ApproveJob inv_TransitionJob inv_DestroyJobContent inv_SetLastNostrCountry
  inv_AddReceipt inv_AddAudit inv_PurgeAuditBefore inv_PurgeResolvedJobsBefore inv_SetEmergencyStop
  inv_SaveAuthState inv_SaveRecoveryHash inv_SaveXOAuthTokens inv_DeleteXOAuthTokens

lemma inv_run_op: "store_inv w \<Longrightarrow> store_inv (run_op s op w)"
  by (cases op) (simp_all add: inv_writes [THEN preserves_snd])

abbreviation run_ops :: "SQLite \<Rightarrow> store_op list \<Rightarrow> 'z sqlite_world_scheme \<Rightarrow> 'z sqlite_world_scheme" where
  "run_ops s ops w \<equiv> fold (run_op s) ops w"

lemma inv_run_ops: "store_inv w \<Longrightarrow> store_inv (run_ops s ops w)"
  by (induction ops arbitrary: w) (auto simp: inv_run_op)

section \<open>Opening a new store\<close>

definition empty_db :: database where
  "empty_db = \<lparr>schema = (\<lambda>_. None), t_jobs = [], t_receipts = [], receipts_seq = 0, t_audit = [], audit_seq = 0,
     t_system = None, t_auth = None, t_recovery = None, t_x_oauth = None\<rparr>"

text \<open>A statement list with one member that establishes \<open>K\<close> and others that keep it.\<close>

lemma run_statements_establish:
  assumes "run_statements sts w = (Inr (), w')"
    and "\<And>st d u d'. st \<in> set sts \<Longrightarrow> J d \<Longrightarrow> st d = Inr (u, d') \<Longrightarrow> J d'"
    and "\<And>st d u d'. st \<in> set sts \<Longrightarrow> K d \<Longrightarrow> st d = Inr (u, d') \<Longrightarrow> K d'"
    and "\<exists>st \<in> set sts. \<forall>d u d'. J d \<longrightarrow> st d = Inr (u, d') \<longrightarrow> K d'"
    and "J (db w)"
  shows "K (db w')"
proof -
  have "(J (db w) \<longrightarrow> (\<exists>st \<in> set sts. \<forall>d u d'. J d \<longrightarrow> st d = Inr (u, d') \<longrightarrow> K d') \<longrightarrow> K (db w')) \<and>
      (K (db w) \<longrightarrow> K (db w'))"
    using assms(1-3)
  proof (induction sts arbitrary: w)
    case (Cons st sts)
    then obtain w1 where r: "exec st w = (Inr (), w1)" "run_statements sts w1 = (Inr (), w')"
      by (auto simp: ebind_eq_Inr)
    then have st: "st (db w) = Inr ((), db w1)" using exec_Inr by fast
    have IH: "(J (db w1) \<longrightarrow> (\<exists>st \<in> set sts. \<forall>d u d'. J d \<longrightarrow> st d = Inr (u, d') \<longrightarrow> K d') \<longrightarrow> K (db w')) \<and>
        (K (db w1) \<longrightarrow> K (db w'))"
    proof (rule Cons.IH [OF r(2)])
      show "J d'" if "st' \<in> set sts" "J d" "st' d = Inr (u, d')" for st' d u d'
        using Cons.prems(2) [of st' d u d'] that by simp
      show "K d'" if "st' \<in> set sts" "K d" "st' d = Inr (u, d')" for st' d u d'
        using Cons.prems(3) [of st' d u d'] that by simp
    qed
    have "J (db w) \<Longrightarrow> J (db w1)" "K (db w) \<Longrightarrow> K (db w1)"
      using Cons.prems(2,3) [of st "db w"] st by auto
    with IH st show ?case by auto
  qed simp
  with assms(4,5) show ?thesis by blast
qed

definition only_schema :: "database \<Rightarrow> bool" where
  "only_schema d \<longleftrightarrow> t_jobs d = [] \<and> t_receipts d = [] \<and> t_audit d = [] \<and>
     (\<forall>r. t_system d = Some r \<longrightarrow> flag (sr_stop r))"

lemma migration_cases:
  "st \<in> set migration \<Longrightarrow> (\<exists>n c. st = create_table n c) \<or> st = create_index \<or> st = init_system"
  by (auto simp: migration_def)

lemma schema_irrelevant [simp]:
  "only_schema (d\<lparr>schema := sc\<rparr>) = only_schema d" "db_inv (d\<lparr>schema := sc\<rparr>) = db_inv d"
  by (simp_all add: only_schema_def db_inv_def job_ids_def)

lemma migration_keeps:
  assumes "st \<in> set migration" and "st d = Inr (u, d')"
  shows "only_schema d \<Longrightarrow> only_schema d'" and "db_inv d \<Longrightarrow> db_inv d'"
    and "st = init_system \<Longrightarrow> only_schema d \<Longrightarrow> db_inv d'"
proof -
  have sys: "only_schema d \<Longrightarrow> init_system d = Inr (u, d') \<Longrightarrow> only_schema d' \<and> db_inv d'"
    by (auto simp: init_system_def only_schema_def db_inv_def job_ids_def split: if_splits)
  have inv: "db_inv d \<Longrightarrow> init_system d = Inr (u, d') \<Longrightarrow> db_inv d'"
    by (auto simp: init_system_def db_inv_def split: if_splits)
  show "only_schema d \<Longrightarrow> only_schema d'" and "db_inv d \<Longrightarrow> db_inv d'"
    and "st = init_system \<Longrightarrow> only_schema d \<Longrightarrow> db_inv d'"
    using migration_cases [OF assms(1)] assms(2) sys inv by (auto simp: create_table_def create_index_def)
qed

lemma init_system_member: "init_system \<in> set migration"
  by (simp add: migration_def)

lemma inv_ensureBlobColumn: "preserves store_inv (ensureBlobColumn t n)"
  unfolding ensureBlobColumn_def
  by (intro preserves_ebind preserves_wrap_err preserves_query preserves_if preserves_ok preserves_exec)
    (auto split: option.splits)

lemma migrate_fresh:
  assumes "migrate w = (Inr (), w')" and "db w = empty_db"
  shows "store_inv w'"
proof -
  from assms(1) obtain w1 w2 where m: "run_statements migration w = (Inr (), w1)"
      "ensureBlobColumn ''receipts'' ''encrypted_payload'' w1 = (Inr (), w2)"
      "ensureBlobColumn ''audit_events'' ''encrypted_payload'' w2 = (Inr (), w')"
    by (auto simp: migrate_def ebind_eq_Inr)
  have "only_schema (db w)" by (simp add: assms(2) empty_db_def only_schema_def)
  then have "db_inv (db w1)"
  proof (rule run_statements_establish [OF m(1), rotated 3])
    show "\<exists>st \<in> set migration. \<forall>d u d'. only_schema d \<longrightarrow> st d = Inr (u, d') \<longrightarrow> db_inv d'"
      using migration_keeps(3) [OF init_system_member] init_system_member by blast
  qed (rule migration_keeps; assumption)+
  then have "store_inv w2" by (rule preservesD [OF inv_ensureBlobColumn m(2)])
  then show ?thesis by (rule preservesD [OF inv_ensureBlobColumn m(3)])
qed

section \<open>Properties\<close>

text \<open>
  C12: a store opened on a new file satisfies the database invariant after every sequence of calls,
  whatever the results of the calls and whichever statements the engine fails: identifiers stay
  unique, flags stay 0 or 1, every receipt belongs to an existing job, and the system row is there.
\<close>

theorem store_invariant:
  assumes "open_store e w = (Inr s, w0)" and "db w = empty_db"
  shows "store_inv (run_ops s ops w0)"
proof -
  from assms(1) obtain w1 where "query (\<lambda>_. ()) w = (Inr (), w1)" "migrate w1 = (Inr (), w0)"
    by (auto simp: open_store_def ebind_eq_Inr)
  then show ?thesis using migrate_fresh inv_run_ops query_outcome assms(2) by metis
qed

definition sample_store :: sqlite_world where
  "sample_store = \<lparr>entropy = replicate 512 CHR 0x07, clock = (\<lambda>n. 1700000000000000000 + int n), ticks = 0,
     db = empty_db, faults = []\<rparr>"

lemma open_sample:
  "\<exists>w0. open_store e sample_store = (Inr \<lparr>sealer = e\<rparr>, w0) \<and> faults w0 = [] \<and> entropy w0 = replicate 512 CHR 0x07 \<and>
     clock w0 = (\<lambda>n. 1700000000000000000 + int n) \<and> ticks w0 = 0 \<and> t_jobs (db w0) = [] \<and> t_receipts (db w0) = [] \<and>
     receipts_seq (db w0) = 0 \<and> t_system (db w0) = Some \<lparr>sr_stop = 0, sr_reason = [], sr_updated_at = 0\<rparr>"
  by (simp add: open_store_def migrate_def migration_def sample_store_def exec_nofault create_table_def
      create_index_def init_system_def ensureBlobColumn_def empty_db_def wrap_err_def ebind_def)

theorem store_invariant_witness:
  "\<exists>w0. open_store None sample_store = (Inr \<lparr>sealer = None\<rparr>, w0) \<and>
     store_inv (run_ops \<lparr>sealer = None\<rparr> [DoSetStop True ''drill'' 0, DoPurgeJobs 5] w0)"
proof -
  obtain w0 where w0: "open_store None sample_store = (Inr \<lparr>sealer = None\<rparr>, w0)" using open_sample by blast
  moreover have "db sample_store = empty_db" by (simp add: sample_store_def)
  ultimately show ?thesis using store_invariant by blast
qed

text \<open>
  C13: \<open>TransitionJob\<close> is a compare-and-set. Without engine failures it succeeds exactly if the table of
  transitions allows the move and the job is in the expected state, changes then only the state and
  the update time of that job, and leaves the database alone otherwise; of two callers that move a
  job out of the same state only the first succeeds.
\<close>

theorem transition_cas:
  assumes "store_inv w" and "faults w = []" and "TransitionJob jid from to at w = (res, w')"
  shows "res = (if \<not> CanTransition from to then Inl (Sentinel ErrInvalidTransition)
       else case find_job jid (db w) of
         None \<Rightarrow> Inl (Sentinel ErrNotFound)
       | Some r \<Rightarrow> if jr_state r = from then Inr () else Inl (Sentinel ErrNotFound)) \<and>
    (res \<noteq> Inr () \<longrightarrow> db w' = db w) \<and>
    (res = Inr () \<longrightarrow>
       (\<forall>k. find_job k (db w') =
          (if k = jid then map_option (\<lambda>r. r\<lparr>jr_state := to, updated_at := millis at\<rparr>) (find_job jid (db w))
           else find_job k (db w))) \<and>
       (\<forall>to' at'. CanTransition from to' \<longrightarrow>
          fst (TransitionJob jid from to' at' w') = Inl (Sentinel ErrNotFound)))"
proof (cases "CanTransition from to")
  case False
  then show ?thesis using assms(3) by (auto simp: TransitionJob_def ValidateTransition_def)
next
  case True
  let ?f = "\<lambda>r. r\<lparr>jr_state := to, updated_at := millis at\<rparr>" and ?Q = "\<lambda>r. jr_state r = from"
  have neq: "from \<noteq> to" using True by (cases "from") auto
  have d: "distinct (job_ids (db w))" using assms(1) by (simp add: db_inv_def)
  have t: "TransitionJob jid from b a v = cas_job jid ?Q (\<lambda>r. r\<lparr>jr_state := b, updated_at := millis a\<rparr>) v"
    if "CanTransition from b" for a b and v :: "'a sqlite_world_scheme"
    using that by (simp add: TransitionJob_cas ValidateTransition_def)
  have c: "cas_job jid ?Q ?f w = (res, w')" using assms(3) t [OF True] by simp
  note out = cas_job_outcome [OF c d, simplified]
  have res: "res = (case find_job jid (db w) of None \<Rightarrow> Inl (Sentinel ErrNotFound)
       | Some r \<Rightarrow> if jr_state r = from then Inr () else Inl (Sentinel ErrNotFound))"
    using cas_job_nofault [OF assms(2) d, of ?f jid ?Q, unfolded c] by simp
  have faults: "faults w' = []"
    using assms(2) c by (auto simp: cas_job_def update_jobs_def exec_nofault requireOne_def split: if_splits)
  have second: "fst (TransitionJob jid from to' at' w') = Inl (Sentinel ErrNotFound)"
    if "res = Inr ()" "CanTransition from to'" for to' at'
  proof -
    have d': "distinct (job_ids (db w'))" using out d by simp
    have "\<exists>r. find_job jid (db w') = Some r \<and> jr_state r = to" using out that(1) by auto
    then show ?thesis
      using cas_job_nofault [OF faults d', of "\<lambda>r. r\<lparr>jr_state := to', updated_at := millis at'\<rparr>" jid ?Q] that(2) neq
      by (auto simp: t)
  qed
  show ?thesis using out res second True by (auto split: option.splits if_splits)
qed

section \<open>Facts: erasure\<close>

text \<open>The job's row is there, and neither it nor any other row under its identifier has content.\<close>

definition content_gone :: "string \<Rightarrow> database \<Rightarrow> bool" where
  "content_gone jid d \<longleftrightarrow> jid \<in> set (job_ids d) \<and>
     (\<forall>r \<in> set (t_jobs d). jr_id r = jid \<longrightarrow> encrypted_content r = None \<and> content_destroyed r = 1)"

lemma gone_cas_job:
  assumes "\<And>r. jr_id (f r) = jr_id r \<and>
    (encrypted_content (f r) = encrypted_content r \<and> content_destroyed (f r) = content_destroyed r \<or>
     encrypted_content (f r) = None \<and> content_destroyed (f r) = 1)"
  shows "preserves (\<lambda>w. content_gone jid (db w)) (cas_job k Q f)"
  unfolding cas_job_def
proof (intro preserves_ebind preserves_exec preserves_requireOne)
  fix d n d' assume d: "content_gone jid d" and "update_jobs (\<lambda>r. jr_id r = k \<and> Q r) f d = Inr (n, d')"
  then have t: "t_jobs d' = map (\<lambda>r. if jr_id r = k \<and> Q r then f r else r) (t_jobs d)"
    by (auto simp: update_jobs_def)
  moreover have "jr_id (if jr_id r = k \<and> Q r then f r else r) = jr_id r" for r using assms by simp
  ultimately have ids: "job_ids d' = job_ids d" by (simp add: job_ids_def)
  have "encrypted_content r' = None \<and> content_destroyed r' = 1" if "r' \<in> set (t_jobs d')" "jr_id r' = jid" for r'
  proof -
    from that obtain r where "r \<in> set (t_jobs d)" "r' = f r \<or> r' = r" "jr_id r' = jid" unfolding t by auto
    then show ?thesis using d assms [of r] by (auto simp: content_gone_def)
  qed
  then show "content_gone jid d'" using d by (auto simp: content_gone_def ids)
qed

lemma gone_same_jobs:
  "(\<And>d x d'. f d = Inr (x, d') \<Longrightarrow> t_jobs d' = t_jobs d) \<Longrightarrow>
   preserves (\<lambda>w. content_gone jid (db w)) (exec f)"
  by (intro preserves_exec) (fastforce simp: content_gone_def job_ids_def)

text \<open>An insert under an identifier that is taken fails on the primary key; under another one it adds a row of its own.\<close>

lemma gone_CreateJob: "preserves (\<lambda>w. content_gone jid (db w)) (CreateJob j)"
  unfolding CreateJob_def
  by (intro preserves_wrap_err preserves_exec) (auto simp: insert_job_def content_gone_def job_ids_def split: if_splits)

text \<open>A purge can take the row away; a row that it leaves is as it was.\<close>

lemma gone_purge:
  assumes "content_gone jid (db w)"
  shows "content_gone jid (db (snd (PurgeResolvedJobsBefore t w))) \<or> jid \<notin> set (job_ids (db (snd (PurgeResolvedJobsBefore t w))))"
proof -
  let ?P = "\<lambda>w. \<forall>r \<in> set (t_jobs (db w)). jr_id r = jid \<longrightarrow> encrypted_content r = None \<and> content_destroyed r = 1"
  have "preserves ?P (PurgeResolvedJobsBefore t)"
    unfolding PurgeResolvedJobsBefore_def by (intro preserves_exec) (auto simp: Let_def)
  from preserves_snd [OF this] show ?thesis using assms by (auto simp: content_gone_def)
qed

lemma gone_inserts:
  "preserves (\<lambda>w. content_gone jid (db w)) (exec (insert_receipt r))"
  "preserves (\<lambda>w. content_gone jid (db w)) (exec (insert_audit a))"
  by (intro gone_same_jobs; auto simp: insert_receipt_def insert_audit_def split: if_splits)+

lemma gone_save_sealed:
  "(\<And>x d. t_jobs (put x d) = t_jobs d) \<Longrightarrow> preserves (\<lambda>w. content_gone jid (db w)) (save_sealed s v aad m1 m2 put)"
  unfolding save_sealed_def
  by (auto intro!: preserves_ebind preserves_wrap_err preserves_Seal gone_same_jobs split: option.splits)

lemma gone_writes:
  "preserves (\<lambda>w. content_gone jid (db w)) (CreateJob j)"
  "preserves (\<lambda>w. content_gone jid (db w)) (ApproveJob i h t)"
  "preserves (\<lambda>w. content_gone jid (db w)) (TransitionJob i a b t)"
  "preserves (\<lambda>w. content_gone jid (db w)) (DestroyJobContent i t)"
  "preserves (\<lambda>w. content_gone jid (db w)) (SetLastNostrCountry i c t)"
  "preserves (\<lambda>w. content_gone jid (db w)) (AddReceipt s r)"
  "preserves (\<lambda>w. content_gone jid (db w)) (AddAudit s e)"
  "preserves (\<lambda>w. content_gone jid (db w)) (PurgeAuditBefore t)"
  "preserves (\<lambda>w. content_gone jid (db w)) (SetEmergencyStop flg rs t)"
  "preserves (\<lambda>w. content_gone jid (db w)) (SaveAuthState s u cr t)"
  "preserves (\<lambda>w. content_gone jid (db w)) (SaveRecoveryHash s hh t)"
  "preserves (\<lambda>w. content_gone jid (db w)) (SaveXOAuthTokens s tk t)"
  "preserves (\<lambda>w. content_gone jid (db w)) DeleteXOAuthTokens"
proof -
  show "preserves (\<lambda>w. content_gone jid (db w)) (CreateJob j)" by (rule gone_CreateJob)
  show "preserves (\<lambda>w. content_gone jid (db w)) (ApproveJob i h t)"
    "preserves (\<lambda>w. content_gone jid (db w)) (TransitionJob i a b t)"
    "preserves (\<lambda>w. content_gone jid (db w)) (DestroyJobContent i t)"
    "preserves (\<lambda>w. content_gone jid (db w)) (SetLastNostrCountry i c t)"
    unfolding ApproveJob_cas TransitionJob_cas DestroyJobContent_cas SetLastNostrCountry_cas
    by (intro preserves_ebind preserves_lift gone_cas_job; simp)+
  show "preserves (\<lambda>w. content_gone jid (db w)) (AddReceipt s r)"
    "preserves (\<lambda>w. content_gone jid (db w)) (AddAudit s e)"
    unfolding AddReceipt_def AddAudit_def by (auto intro!: gone_inserts split: option.splits)
  show "preserves (\<lambda>w. content_gone jid (db w)) (PurgeAuditBefore t)"
      "preserves (\<lambda>w. content_gone jid (db w)) (SetEmergencyStop flg rs t)"
    "preserves (\<lambda>w. content_gone jid (db w)) DeleteXOAuthTokens"
    unfolding PurgeAuditBefore_def SetEmergencyStop_def DeleteXOAuthTokens_def
    by (intro gone_same_jobs; auto simp: Let_def)+
  show "preserves (\<lambda>w. content_gone jid (db w)) (SaveRecoveryHash s hh t)"
    "preserves (\<lambda>w. content_gone jid (db w)) (SaveXOAuthTokens s tk t)"
    unfolding SaveRecoveryHash_def SaveXOAuthTokens_def by (intro gone_save_sealed; simp)+
  show "preserves (\<lambda>w. content_gone jid (db w)) (SaveAuthState s u cr t)"
    unfolding SaveAuthState_def
    by (auto intro!: preserves_ebind preserves_wrap_err preserves_Seal gone_same_jobs split: option.splits)
qed

lemma gone_run_ops:
  assumes "content_gone jid (db w)"
  shows "content_gone jid (db (run_ops s ops w)) \<or>
    (\<exists>ops1 t ops2. ops = ops1 @ DoPurgeJobs t # ops2 \<and> jid \<notin> set (job_ids (db (run_ops s (ops1 @ [DoPurgeJobs t]) w))))"
  using assms
proof (induction ops arbitrary: w)
  case (Cons op ops)
  show ?case
  proof (cases "content_gone jid (db (run_op s op w))")
    case True
    from Cons.IH [OF this] show ?thesis
    proof (elim disjE exE conjE)
      fix ops1 t ops2
      assume "ops = ops1 @ DoPurgeJobs t # ops2" "jid \<notin> set (job_ids (db (run_ops s (ops1 @ [DoPurgeJobs t]) (run_op s op w))))"
      then show ?thesis by (intro disjI2 exI [of _ "op # ops1"] exI [of _ t] exI [of _ ops2]) simp
    qed simp
  next
    case False
    then obtain t where op: "op = DoPurgeJobs t"
      using Cons.prems by (cases op) (simp_all add: gone_writes [THEN preserves_snd])
    then have "jid \<notin> set (job_ids (db (run_op s op w)))" using gone_purge [OF Cons.prems, of t] False by simp
    then show ?thesis by (intro disjI2 exI [of _ "[]"] exI [of _ t] exI [of _ ops]) (simp add: op)
  qed
qed simp

section \<open>Properties: erasure, purging and sealed records\<close>

text \<open>
  C14: erasure is final. Once \<open>DestroyJobContent\<close> succeeded for a job, after any sequence of store calls, also ones that
  create a job under the same identifier, the job's row is there without content and marked as destroyed, unless a
  purge among them has removed the row as a whole.
\<close>

theorem erased_stays_erased:
  assumes "store_inv w" and "DestroyJobContent jid at w = (Inr (), w1)"
  shows "(\<exists>r. find_job jid (db (run_ops s ops w1)) = Some r \<and> encrypted_content r = None \<and> content_destroyed r = 1) \<or>
    (\<exists>ops1 t ops2. ops = ops1 @ DoPurgeJobs t # ops2 \<and> find_job jid (db (run_ops s (ops1 @ [DoPurgeJobs t]) w1)) = None)"
proof -
  have d: "distinct (job_ids (db w))" using assms(1) by (simp add: db_inv_def)
  let ?f = "\<lambda>r. r\<lparr>encrypted_content := None, content_destroyed := 1, updated_at := millis at\<rparr>"
  have out: "\<exists>r. find_job jid (db w1) = Some (?f r)" "distinct (job_ids (db w1))"
    using cas_job_outcome [OF assms(2) [unfolded DestroyJobContent_cas] d] d by auto
  then have "content_gone jid (db w1)"
    using find_job_member [OF out(2)] find_job_None [of jid "db w1"] by (auto simp: content_gone_def)
  moreover have "\<exists>r. find_job jid d = Some r \<and> encrypted_content r = None \<and> content_destroyed r = 1" if "content_gone jid d" for d
    using that find_job_None [of jid d] find_job_Some [of jid d] by (cases "find_job jid d") (auto simp: content_gone_def)
  ultimately show ?thesis using gone_run_ops [of jid w1 s ops] unfolding find_job_None by blast
qed

definition sample_row :: job_row where
  "sample_row = \<lparr>jr_id = ''job-1'', encrypted_content = Some ''sealed'', payload_hash = [], post_to_x = 1, post_to_nostr = 0,
     jr_state = StateDraft, approved_at = None, scheduled_at = None, created_at = 1, updated_at = 1,
     last_nostr_country = [], content_destroyed = 0\<rparr>"

definition sample_jobs :: sqlite_world where
  "sample_jobs = sample_store\<lparr>db := empty_db\<lparr>t_jobs := [sample_row],
     t_system := Some \<lparr>sr_stop = 0, sr_reason = [], sr_updated_at = 0\<rparr>\<rparr>\<rparr>"

lemma sample_jobs_inv: "store_inv sample_jobs" "faults sample_jobs = []"
  by (simp_all add: sample_jobs_def sample_store_def sample_row_def empty_db_def db_inv_def job_ids_def row_ok_def flag_def)

text \<open>Creating a job under the erased identifier does not bring content back.\<close>

theorem erased_stays_erased_witness:
  "\<exists>r. find_job ''job-1'' (db (run_ops \<lparr>sealer = None\<rparr> [DoCreateJob (scanJob sample_row), DoTransitionJob ''job-1'' StateDraft StateCancelled 9]
     (snd (DestroyJobContent ''job-1'' 5 sample_jobs)))) = Some r \<and> encrypted_content r = None \<and> content_destroyed r = 1"
proof -
  have "DestroyJobContent ''job-1'' 5 sample_jobs = (Inr (), snd (DestroyJobContent ''job-1'' 5 sample_jobs))"
    by (simp add: DestroyJobContent_def sample_jobs_def sample_store_def sample_row_def empty_db_def exec_nofault
        update_jobs_def requireOne_def)
  from erased_stays_erased [OF sample_jobs_inv(1) this, of "\<lparr>sealer = None\<rparr>"
      "[DoCreateJob (scanJob sample_row), DoTransitionJob ''job-1'' StateDraft StateCancelled 9]"]
  show ?thesis by (auto simp: Cons_eq_append_conv)
qed

theorem transition_cas_witness:
  "fst (TransitionJob ''job-1'' StateDraft StateCancelled 9 sample_jobs) = Inr () \<and>
   fst (TransitionJob ''job-1'' StateDraft StateApproved 9 (snd (TransitionJob ''job-1'' StateDraft StateCancelled 9 sample_jobs)))
     = Inl (Sentinel ErrNotFound)"
proof -
  have "find_job ''job-1'' (db sample_jobs) = Some sample_row"
    by (simp add: find_job_def sample_jobs_def sample_row_def empty_db_def)
  then show ?thesis
    using transition_cas [OF sample_jobs_inv surjective_pairing, of "''job-1''" StateDraft StateCancelled 9]
    by (simp add: sample_row_def)
qed

text \<open>
  Purging removes exactly the resolved jobs (COMPLETE, FAILED, CANCELLED) last updated before the
  limit, and exactly their receipts; jobs in PARTIAL or UNKNOWN, which still need reconciliation,
  are never removed, and nothing else changes.
\<close>

theorem purge_exact:
  assumes "store_inv w" and "PurgeResolvedJobsBefore before w = (Inr n, w')"
  defines "gone r \<equiv> updated_at r < millis before \<and> jr_state r \<in> {StateComplete, StateFailed, StateCancelled}"
  shows "(\<forall>k. find_job k (db w') =
       (case find_job k (db w) of None \<Rightarrow> None | Some r \<Rightarrow> if gone r then None else Some r)) \<and>
    n + length (t_jobs (db w')) = length (t_jobs (db w)) \<and>
    t_receipts (db w') = filter (\<lambda>r. find_job (rr_job_id r) (db w') \<noteq> None) (t_receipts (db w)) \<and>
    t_audit (db w') = t_audit (db w) \<and> t_system (db w') = t_system (db w)"
proof -
  let ?d = "db w" and ?d' = "db w'"
  have d': "?d' = ?d\<lparr>t_jobs := filter (\<lambda>r. \<not> gone r) (t_jobs ?d),
      t_receipts := filter (\<lambda>r. rr_job_id r \<notin> jr_id ` set (filter gone (t_jobs ?d))) (t_receipts ?d)\<rparr>"
      and n: "n = length (filter gone (t_jobs ?d))"
    using exec_Inr [OF assms(2) [unfolded PurgeResolvedJobsBefore_def]] by (auto simp: Let_def gone_def [abs_def])
  have dis: "distinct (job_ids ?d)" using assms(1) by (simp add: db_inv_def)
  then have dis': "distinct (job_ids ?d')" by (simp add: d' job_ids_def distinct_map inj_on_def)
  have find: "find_job k ?d' = (case find_job k ?d of None \<Rightarrow> None | Some r \<Rightarrow> if gone r then None else Some r)" for k
  proof (cases "find_job k ?d'")
    case (Some r)
    then have "r \<in> set (t_jobs ?d)" "\<not> gone r" "jr_id r = k" using find_job_Some [OF Some] by (auto simp: d')
    then show ?thesis using find_job_member [OF dis, of r] Some by simp
  next
    case None
    show ?thesis
    proof (cases "find_job k ?d")
      case (Some r)
      have "gone r"
      proof (rule ccontr)
        assume "\<not> gone r"
        then have "r \<in> set (t_jobs ?d')" using find_job_Some [OF Some] by (simp add: d')
        then show False using find_job_member [OF dis'] find_job_Some [OF Some] None by force
      qed
      then show ?thesis using None Some by simp
    qed (use None in simp)
  qed
  have "rr_job_id r \<notin> jr_id ` set (filter gone (t_jobs ?d)) \<longleftrightarrow> find_job (rr_job_id r) ?d' \<noteq> None"
    if "r \<in> set (t_receipts ?d)" for r
  proof -
    have "rr_job_id r \<in> set (job_ids ?d)" using that assms(1) by (simp add: db_inv_def)
    then obtain j where j: "find_job (rr_job_id r) ?d = Some j"
      using find_job_None [of "rr_job_id r" ?d] by auto
    have "rr_job_id r \<in> jr_id ` set (filter gone (t_jobs ?d)) \<longleftrightarrow> gone j"
      using find_job_Some [OF j] find_job_member [OF dis] j by (auto simp: image_iff)
    then show ?thesis using find [of "rr_job_id r"] j by simp
  qed
  then have "t_receipts ?d' = filter (\<lambda>r. find_job (rr_job_id r) ?d' \<noteq> None) (t_receipts ?d)"
    by (simp add: d' cong: filter_cong)
  moreover have "n + length (t_jobs ?d') = length (t_jobs ?d)"
    by (simp add: d' n sum_length_filter_compl)
  ultimately show ?thesis using find by (simp add: d')
qed

theorem purge_exact_witness:
  "\<exists>w'. PurgeResolvedJobsBefore 5 sample_jobs = (Inr 0, w') \<and> find_job ''job-1'' (db w') = Some sample_row"
proof -
  obtain w' where p: "PurgeResolvedJobsBefore 5 sample_jobs = (Inr 0, w')"
    by (simp add: PurgeResolvedJobsBefore_def exec_nofault sample_jobs_def sample_store_def sample_row_def empty_db_def Let_def)
  have "find_job ''job-1'' (db sample_jobs) = Some sample_row"
    by (simp add: find_job_def sample_jobs_def sample_row_def empty_db_def)
  then show ?thesis using purge_exact [OF sample_jobs_inv(1) p] p by (simp add: sample_row_def)
qed

text \<open>
  Millisecond truncation: reading back a stored time gives it rounded down, except that the stored
  value 0 reads as the zero time.
\<close>

lemma millis_fromMillis: "v \<noteq> 0 \<Longrightarrow> millis (fromMillis v) = v"
  by (simp add: millis_def fromMillis_def UnixMilli_def)

lemma collect_Inr:
  "(\<And>r. r \<in> set rows \<Longrightarrow> f r = Inr (g r)) \<Longrightarrow> collect f rows = Inr (map g rows)"
  by (induction rows) simp_all

lemma collect_InrD: "collect f rows = Inr xs \<Longrightarrow> r \<in> set rows \<Longrightarrow> \<exists>x. f r = Inr x"
  by (induction rows arbitrary: xs) (auto split: sum.splits)

lemma decode_sealed_receipt:
  assumes "sealer s = Some e" and "envelope_ok e" and "receipt_ok r" and "millis (rc_created_at r) \<noteq> 0"
    and "MarshalReceipt r = Inr data"
    and "Seal e data (receiptAAD (rc_job_id r) (rc_created_at r)) w = (Inr sealed, w')"
  shows "decode_receipt s ((sealed_receipt_row r sealed)\<lparr>rr_id := i\<rparr>) = Inr (r\<lparr>rc_id := i\<rparr>)"
proof -
  have aad: "receiptAAD j (fromMillis (millis (rc_created_at r))) = receiptAAD j (rc_created_at r)" for j
    by (simp add: receiptAAD_def millis_fromMillis [OF assms(4)])
  have "Open e sealed (receiptAAD (rc_job_id r) (rc_created_at r)) = Inr data" "sealed \<noteq> []"
    using Open_Seal [OF assms(6,2)] Seal_nonempty [OF assms(6,2)] by simp_all
  moreover have "UnmarshalReceipt data r0 = Inr r" for r0
    using receipt_roundtrip [OF assms(3), of r0] assms(5) by auto
  ultimately show ?thesis
    by (simp add: decode_receipt_def sealed_receipt_row_def assms(1) aad Let_def)
qed

lemma AddReceipt_sealed:
  assumes "faults w = []" and "sealer s = Some e" and "envelope_ok e" and "receipt_ok r"
    and "rc_job_id r \<in> set (job_ids (db w))" and "56 \<le> length (entropy w)"
  obtains data sealed wx where "MarshalReceipt r = Inr data"
    and "Seal e data (receiptAAD (rc_job_id r) (rc_created_at r)) w = (Inr sealed, wx)"
    and "AddReceipt s r w = (Inr (), wx\<lparr>db := (db w)\<lparr>t_receipts := t_receipts (db w) @
            [(sealed_receipt_row r sealed)\<lparr>rr_id := receipts_seq (db w) + 1\<rparr>],
          receipts_seq := receipts_seq (db w) + 1\<rparr>\<rparr>)"
    and "faults wx = []"
proof -
  obtain data where m: "MarshalReceipt r = Inr data" using receipt_roundtrip [OF assms(4)] by blast
  obtain sealed wx where sl: "Seal e data (receiptAAD (rc_job_id r) (rc_created_at r)) w = (Inr sealed, wx)"
      and w: "wx = w\<lparr>entropy := drop 56 (entropy w)\<rparr>"
    using Seal_success [OF assms(3,6)] by (simp add: Let_def)
  have "rr_job_id (sealed_receipt_row r sealed) \<in> jr_id ` set (t_jobs (db w))"
    using assms(5) by (simp add: sealed_receipt_row_def job_ids_def)
  then have "AddReceipt s r w = (Inr (), wx\<lparr>db := (db w)\<lparr>t_receipts := t_receipts (db w) @
            [(sealed_receipt_row r sealed)\<lparr>rr_id := receipts_seq (db w) + 1\<rparr>],
          receipts_seq := receipts_seq (db w) + 1\<rparr>\<rparr>)"
    using assms(1,2) m sl by (simp add: AddReceipt_def w exec_nofault insert_receipt_def wrap_err_def ebind_def)
  then show thesis using that m sl w assms(1) by simp
qed

text \<open>
  C15: in an encrypted store a receipt comes back as it was written, and only sealed. Adding a receipt for an existing
  job succeeds; the one row it adds has, beside its identifier, the job, the time in milliseconds and the sealing of
  the receipt's document under the job and the time, every other column being empty or zero; and listing the job's
  receipts then gives the receipts it gave before and this one, under a new identifier. (The receipt's time must not
  be the epoch's own millisecond, which the store cannot tell from the zero time.)
\<close>

theorem receipt_sealed_roundtrip:
  assumes "faults w = []" and "sealer s = Some e" and "envelope_ok e" and "receipt_ok r"
    and "rc_job_id r \<in> set (job_ids (db w))" and "56 \<le> length (entropy w)"
    and "millis (rc_created_at r) \<noteq> 0" and "ListReceipts s (rc_job_id r) w = (Inr before, w)"
  shows "\<exists>w' out data sealed. AddReceipt s r w = (Inr (), w') \<and> ListReceipts s (rc_job_id r) w' = (Inr out, w') \<and>
     mset out = mset before + {#r\<lparr>rc_id := receipts_seq (db w) + 1\<rparr>#} \<and>
     MarshalReceipt r = Inr data \<and> fst (Seal e data (receiptAAD (rc_job_id r) (rc_created_at r)) w) = Inr sealed \<and>
     t_receipts (db w') = t_receipts (db w) @
       [\<lparr>rr_id = receipts_seq (db w) + 1, rr_job_id = rc_job_id r, rr_platform = [], rr_state = [], rr_external_id = [],
         rr_country_code = [], rr_attempt_count = 0, rr_relay_accepted = 0, rr_relay_attempted = 0, rr_safe_error = [],
         rr_created_at = millis (rc_created_at r), rr_payload = sealed\<rparr>]"
proof -
  obtain data sealed wx where m: "MarshalReceipt r = Inr data"
    and sl: "Seal e data (receiptAAD (rc_job_id r) (rc_created_at r)) w = (Inr sealed, wx)"
    and add: "AddReceipt s r w = (Inr (), wx\<lparr>db := (db w)\<lparr>t_receipts := t_receipts (db w) @
            [(sealed_receipt_row r sealed)\<lparr>rr_id := receipts_seq (db w) + 1\<rparr>],
          receipts_seq := receipts_seq (db w) + 1\<rparr>\<rparr>)" and f: "faults wx = []"
    using AddReceipt_sealed [OF assms(1-6)] by metis
  define row where "row = (sealed_receipt_row r sealed)\<lparr>rr_id := receipts_seq (db w) + 1\<rparr>"
  define w' where "w' = wx\<lparr>db := (db w)\<lparr>t_receipts := t_receipts (db w) @ [row], receipts_seq := receipts_seq (db w) + 1\<rparr>\<rparr>"
  let ?rows = "\<lambda>d. select_receipts (rc_job_id r) d" and ?g = "\<lambda>row. projr (decode_receipt s row)"
  have old: "collect (decode_receipt s) (?rows (db w)) = Inr before"
    using assms(1,8) by (simp add: ListReceipts_def)
  have new: "decode_receipt s row = Inr (r\<lparr>rc_id := receipts_seq (db w) + 1\<rparr>)"
    unfolding row_def by (rule decode_sealed_receipt [OF assms(2,3,4,7) m sl])
  have mrows: "mset (?rows (db w')) = mset (?rows (db w)) + {#row#}"
    by (simp add: select_receipts_def w'_def row_def sealed_receipt_row_def)
  have readable: "decode_receipt s x = Inr (?g x)" if "x \<in> set (?rows (db w')) \<or> x \<in> set (?rows (db w))" for x
  proof -
    have "x = row \<or> x \<in> set (?rows (db w))" using that mrows by (metis set_mset_mset union_iff insert_iff set_mset_add_mset_insert add_mset_add_single)
    then show ?thesis using new collect_InrD [OF old, of x] by auto
  qed
  have b: "before = map ?g (?rows (db w))"
    using old collect_Inr [of "?rows (db w)" "decode_receipt s" ?g] readable by simp
  have "ListReceipts s (rc_job_id r) w' = (Inr (map ?g (?rows (db w'))), w')"
    using f readable by (simp add: ListReceipts_def w'_def collect_Inr)
  moreover have "mset (map ?g (?rows (db w'))) = mset before + {#r\<lparr>rc_id := receipts_seq (db w) + 1\<rparr>#}"
    using mrows new by (simp add: b)
  ultimately show ?thesis
    using add [folded row_def, folded w'_def] m sl
    by (intro exI [of _ w'] exI [of _ "map ?g (?rows (db w'))"] exI [of _ data] exI [of _ sealed])
      (simp add: w'_def row_def sealed_receipt_row_def)
qed

definition y2000 :: time where "y2000 = 946684800000000000"

lemma year_y2000: "json_year_ok y2000"
  by (simp add: json_year_ok_def year_of_def civil_of_day_def y2000_def day_ns_def epoch_day_def cycle_days_def
      split_year.simps year_len_def leap_def split: prod.splits)

definition sample_receipt :: PlatformReceipt where
  "sample_receipt = \<lparr>rc_id = 0, rc_job_id = ''job-1'', rc_platform = ''x'', rc_state = ''SUCCESS'', rc_external_id = ''99'',
     rc_country_code = ''FR'', rc_attempt_count = 1, rc_relay_accepted = 0, rc_relay_attempted = 0, rc_safe_error = [],
     rc_created_at = y2000\<rparr>"

lemma sample_receipt_ok: "receipt_ok sample_receipt"
  using year_y2000
  by (simp add: receipt_ok_def sample_receipt_def int64_def ascii_const bv_def)

theorem receipt_sealed_roundtrip_witness:
  "\<exists>w'. AddReceipt \<lparr>sealer = Some \<lparr>master = replicate 32 CHR 0x01\<rparr>\<rparr> sample_receipt sample_jobs = (Inr (), w') \<and>
     ListReceipts \<lparr>sealer = Some \<lparr>master = replicate 32 CHR 0x01\<rparr>\<rparr> ''job-1'' w' = (Inr [sample_receipt\<lparr>rc_id := 1\<rparr>], w')"
proof -
  let ?s = "\<lparr>sealer = Some \<lparr>master = replicate 32 CHR 0x01\<rparr>\<rparr> :: SQLite"
  have e: "sealer ?s = Some \<lparr>master = replicate 32 CHR 0x01\<rparr>" "envelope_ok \<lparr>master = replicate 32 CHR 0x01\<rparr>"
    by (simp_all add: envelope_ok_def)
  have j: "rc_job_id sample_receipt \<in> set (job_ids (db sample_jobs))" "56 \<le> length (entropy sample_jobs)"
      "millis (rc_created_at sample_receipt) \<noteq> 0" "receipts_seq (db sample_jobs) = 0"
    by (simp_all add: sample_jobs_def sample_store_def sample_row_def sample_receipt_def job_ids_def empty_db_def
        millis_def UnixMilli_def y2000_def)
  have l: "ListReceipts ?s (rc_job_id sample_receipt) sample_jobs = (Inr [], sample_jobs)"
    using sample_jobs_inv(2)
    by (simp add: ListReceipts_def select_receipts_def) (simp add: sample_jobs_def empty_db_def)
  have "rc_job_id sample_receipt = ''job-1''" by (simp add: sample_receipt_def)
  with receipt_sealed_roundtrip [OF sample_jobs_inv(2) e sample_receipt_ok j(1-3) l] j(4) show ?thesis by auto
qed

lemma exec_put: "exec (\<lambda>d. Inr ((), g d)) w = (Inr (), w') \<Longrightarrow> db w' = g (db w)"
  using exec_Inr by fastforce

lemma load_save_sealed:
  assumes "save_sealed s v aad m1 m2 put w = (Inr (), w1)" and "\<And>x d. tab (put x d) = Some (x, k)"
    and "\<And>e. sealer s = Some e \<Longrightarrow> envelope_ok e" and "faults w2 = []" and "tab (db w2) = tab (db w1)"
  shows "load_sealed s tab aad n1 n2 w2 = (Inr (Some v), w2)"
proof -
  obtain e sealed wx where e: "sealer s = Some e" and sl: "Seal e v aad w = (Inr sealed, wx)"
      and ex: "exec (\<lambda>d. Inr ((), put sealed d)) wx = (Inr (), w1)"
    using assms(1) by (auto simp: save_sealed_def ebind_eq_Inr split: option.splits)
  have "tab (db w1) = Some (sealed, k)" using exec_put [OF ex] assms(2) by simp
  then show ?thesis
    using e assms(4,5) Open_Seal [OF sl assms(3) [OF e]] by (simp add: load_sealed_def wrap_err_def ebind_def)
qed

lemma load_save_auth:
  assumes "SaveAuthState s u c at w = (Inr (), w1)" and "\<And>e. sealer s = Some e \<Longrightarrow> envelope_ok e"
    and "faults w2 = []" and "t_auth (db w2) = t_auth (db w1)"
  shows "LoadAuthState s w2 = (Inr (Some (u, c)), w2)"
proof (cases "sealer s")
  case None
  then have "exec (\<lambda>d. Inr ((), d\<lparr>t_auth := Some \<lparr>au_user_id = u, au_credentials = c, au_updated_at = millis at\<rparr>\<rparr>)) w = (Inr (), w1)"
    using assms(1) by (simp add: SaveAuthState_def)
  from exec_put [OF this] show ?thesis using assms(3,4) None by (simp add: LoadAuthState_def)
next
  case (Some e)
  then obtain su sc wa wb where su: "Seal e u ''auth:user-id:v1'' w = (Inr su, wa)"
      and sc: "Seal e c ''auth:credentials:v1'' wa = (Inr sc, wb)"
      and ex: "exec (\<lambda>d. Inr ((), d\<lparr>t_auth := Some \<lparr>au_user_id = su, au_credentials = sc, au_updated_at = millis at\<rparr>\<rparr>)) wb = (Inr (), w1)"
    using assms(1) by (auto simp: SaveAuthState_def ebind_eq_Inr)
  have "t_auth (db w1) = Some \<lparr>au_user_id = su, au_credentials = sc, au_updated_at = millis at\<rparr>"
    using exec_put [OF ex] by simp
  then show ?thesis
    using Some assms(3,4) Open_Seal [OF su assms(2) [OF Some]] Open_Seal [OF sc assms(2) [OF Some]]
    by (simp add: LoadAuthState_def wrap_err_def ebind_def)
qed

text \<open>
  C16: the single sealed values. What \<open>SaveAuthState\<close>, \<open>SaveRecoveryHash\<close> and \<open>SaveXOAuthTokens\<close> wrote is
  what the loads return as long as the value is not overwritten; deleted tokens are gone; and a
  store without an envelope refuses to keep recovery hashes and tokens.
\<close>

theorem sealed_values_roundtrip:
  assumes "\<And>e. sealer s = Some e \<Longrightarrow> envelope_ok e" and "faults w2 = []"
  shows "(SaveAuthState s u c at w = (Inr (), w1) \<and> t_auth (db w2) = t_auth (db w1) \<longrightarrow>
      LoadAuthState s w2 = (Inr (Some (u, c)), w2)) \<and>
    (SaveRecoveryHash s h at w = (Inr (), w1) \<and> t_recovery (db w2) = t_recovery (db w1) \<longrightarrow>
      LoadRecoveryHash s w2 = (Inr (Some h), w2)) \<and>
    (SaveXOAuthTokens s tok at w = (Inr (), w1) \<and> t_x_oauth (db w2) = t_x_oauth (db w1) \<longrightarrow>
      LoadXOAuthTokens s w2 = (Inr (Some tok), w2)) \<and>
    (DeleteXOAuthTokens w = (Inr (), w1) \<and> t_x_oauth (db w2) = t_x_oauth (db w1) \<longrightarrow>
      LoadXOAuthTokens s w2 = (Inr None, w2)) \<and>
    (sealer s = None \<longrightarrow> (\<exists>err. SaveRecoveryHash s h at w = (Inl err, w)) \<and> (\<exists>err. SaveXOAuthTokens s tok at w = (Inl err, w)))"
proof (intro conjI impI; (elim conjE)?)
  show "LoadAuthState s w2 = (Inr (Some (u, c)), w2)"
    if "SaveAuthState s u c at w = (Inr (), w1)" "t_auth (db w2) = t_auth (db w1)"
    using load_save_auth [OF that(1) assms(1,2) that(2)] by blast
  show "LoadRecoveryHash s w2 = (Inr (Some h), w2)"
    if "SaveRecoveryHash s h at w = (Inr (), w1)" "t_recovery (db w2) = t_recovery (db w1)"
    using that assms unfolding SaveRecoveryHash_def LoadRecoveryHash_def
    by (intro load_save_sealed [where k = "millis at"]) auto
  show "LoadXOAuthTokens s w2 = (Inr (Some tok), w2)"
    if "SaveXOAuthTokens s tok at w = (Inr (), w1)" "t_x_oauth (db w2) = t_x_oauth (db w1)"
    using that assms unfolding SaveXOAuthTokens_def LoadXOAuthTokens_def
    by (intro load_save_sealed [where k = "millis at"]) auto
  show "LoadXOAuthTokens s w2 = (Inr None, w2)"
    if "DeleteXOAuthTokens w = (Inr (), w1)" "t_x_oauth (db w2) = t_x_oauth (db w1)"
  proof -
    have "t_x_oauth (db w1) = None" using exec_put [OF that(1) [unfolded DeleteXOAuthTokens_def]] by simp
    then show ?thesis using that(2) assms(2) by (simp add: LoadXOAuthTokens_def load_sealed_def)
  qed
qed (simp_all add: SaveRecoveryHash_def SaveXOAuthTokens_def save_sealed_def)

theorem sealed_values_roundtrip_witness:
  "\<exists>w1. SaveXOAuthTokens \<lparr>sealer = Some \<lparr>master = replicate 32 CHR 0x01\<rparr>\<rparr> ''tokens'' 5 sample_jobs = (Inr (), w1) \<and>
     LoadXOAuthTokens \<lparr>sealer = Some \<lparr>master = replicate 32 CHR 0x01\<rparr>\<rparr> w1 = (Inr (Some ''tokens''), w1)"
proof -
  let ?e = "\<lparr>master = replicate 32 CHR 0x01\<rparr> :: Envelope" let ?s = "\<lparr>sealer = Some ?e\<rparr> :: SQLite"
  have e: "envelope_ok ?e" by (simp add: envelope_ok_def)
  have ent: "56 \<le> length (entropy sample_jobs)" "faults sample_jobs = []"
    by (simp_all add: sample_jobs_def sample_store_def)
  obtain sealed wx where sl: "Seal ?e ''tokens'' ''x:oauth-tokens:v1'' sample_jobs = (Inr sealed, wx)"
      and "wx = sample_jobs\<lparr>entropy := drop 56 (entropy sample_jobs)\<rparr>"
    using Seal_success [OF e ent(1)] by (simp add: Let_def)
  then have f: "faults wx = []" using ent by simp
  obtain w1 where w1: "SaveXOAuthTokens ?s ''tokens'' 5 sample_jobs = (Inr (), w1)" "faults w1 = []"
    using sl f by (simp add: SaveXOAuthTokens_def save_sealed_def wrap_err_def ebind_def exec_nofault)
  then show ?thesis
    using sealed_values_roundtrip [of ?s w1 "[]" "[]" 5 sample_jobs w1 "[]" "''tokens''"] e by auto
qed

section \<open>The sealed values as an abstraction\<close>

text \<open>What a load of a single sealed value returns when the engine does not fail.\<close>

definition sealed_value :: "SQLite \<Rightarrow> (database \<Rightarrow> (bytes \<times> int) option) \<Rightarrow> bytes \<Rightarrow> 'z sqlite_world_scheme \<Rightarrow> bytes option" where
  "sealed_value s tab aad w =
     (case (sealer s, tab (db w)) of
        (Some e, Some (sealed, _)) \<Rightarrow> (case Open e sealed aad of Inl _ \<Rightarrow> None | Inr v \<Rightarrow> Some v)
      | _ \<Rightarrow> None)"

lemma sealed_value_of_db: "keeps (\<lambda>w. tab (db w)) m \<Longrightarrow> keeps (sealed_value s tab aad) m"
  by (simp add: keeps_def sealed_value_def)

lemma save_sealed_value:
  assumes "save_sealed s v aad m1 m2 put w = (Inr u, w')" and "\<And>x d. tab (put x d) = Some (x, k)"
  shows "sealed_value s tab aad w' = Some v"
proof -
  obtain e sealed wx where e: "sealer s = Some e" "Seal e v aad w = (Inr sealed, wx)"
      and ex: "exec (\<lambda>d. Inr ((), put sealed d)) wx = (Inr (), w')"
    using assms(1) by (auto simp: save_sealed_def ebind_eq_Inr split: option.splits)
  show ?thesis
    using exec_put [OF ex] e(1) Open_Seal_any [OF e(2)] assms(2) by (simp add: sealed_value_def)
qed

lemma save_sealed_failed:
  assumes "save_sealed s v aad m1 m2 put w = (Inl err, w')"
  shows "db w' = db w"
proof (cases "sealer s")
  case (Some e)
  then show ?thesis
    using assms keepsD [OF keeps_Seal [OF ambient_free_db(1)]] exec_Inl
    by (fastforce simp: save_sealed_def ebind_eq_Inl wrap_err_eq_Inl)
qed (use assms in \<open>simp add: save_sealed_def\<close>)

lemma load_sealed_value:
  assumes "load_sealed s tab aad m1 m2 w = (Inr r, w')"
  shows "r = sealed_value s tab aad w"
proof -
  obtain w1 where "(case tab (db w) of None \<Rightarrow> ok None
     | Some (sealed, _) \<Rightarrow>
         (case sealer s of
            None \<Rightarrow> fail (ErrorsNew m1)
          | Some e \<Rightarrow> ebind (wrap_err (\<lambda>err. Errorf m2 [] (Some err)) (lift (Open e sealed aad))) (\<lambda>v. ok (Some v)))) w1 = (Inr r, w')"
    using assms by (auto simp: load_sealed_def ebind_eq_Inr dest!: query_outcome)
  then show ?thesis
    by (auto simp: sealed_value_def ebind_eq_Inr split: option.splits)
qed

text \<open>A projection that depends on neither the entropy, the clock, the database nor the fault script survives every sealed access.\<close>

definition store_free :: "('z sqlite_world_scheme \<Rightarrow> 'v) \<Rightarrow> bool" where
  "store_free g \<longleftrightarrow> ambient_free g \<and> (\<forall>w d f. g (w\<lparr>db := d\<rparr>) = g w \<and> g (w\<lparr>faults := f\<rparr>) = g w)"

lemma keeps_store_free:
  assumes "store_free g"
  shows "keeps g (exec f)" "keeps g (query q)"
  using assms by (auto simp: store_free_def keeps_def exec_def query_def sql_def split: list.splits option.splits sum.splits prod.splits)

lemma keeps_sealed:
  assumes "store_free g"
  shows "keeps g (save_sealed s v aad m1 m2 put)" "keeps g (load_sealed s tab aad m1 m2)"
proof -
  have a: "ambient_free g" using assms by (simp add: store_free_def)
  show "keeps g (save_sealed s v aad m1 m2 put)"
    unfolding save_sealed_def
    by (auto intro!: keeps_ebind keeps_wrap_err keeps_Seal a keeps_store_free [OF assms] split: option.split)
  show "keeps g (load_sealed s tab aad m1 m2)"
    unfolding load_sealed_def
    by (auto intro!: keeps_ebind keeps_wrap_err keeps_store_free [OF assms] split: option.split)
qed

end
