(* ===== verification/Service.thy ===== *)
theory Service
  imports Store_Props
begin

text \<open>
  Package \<open>internal/app\<close>: the application service, written against the interface \<open>Store\<close>. The interface
  is a record of operations; the locale \<open>job_store\<close> states what the service relies on, its lemmas
  are proved from these laws alone, and the SQLite store is shown to satisfy them.
\<close>

section \<open>Definitions (service.go)\<close>

record 'w Store =
  st_CreateJob :: "PostJob \<Rightarrow> ('w, unit) act"
  st_GetJob :: "string \<Rightarrow> ('w, PostJob) act"
  st_ListJobs :: "int \<Rightarrow> ('w, JobSummary list) act"
  st_ApproveJob :: "string \<Rightarrow> string \<Rightarrow> time \<Rightarrow> ('w, unit) act"
  st_TransitionJob :: "string \<Rightarrow> JobState \<Rightarrow> JobState \<Rightarrow> time \<Rightarrow> ('w, unit) act"
  st_DestroyJobContent :: "string \<Rightarrow> time \<Rightarrow> ('w, unit) act"
  st_AddAudit :: "AuditEvent \<Rightarrow> ('w, unit) act"
  st_ListAudit :: "int \<Rightarrow> ('w, AuditEvent list) act"
  st_SystemState :: "('w, SystemState) act"
  st_SetEmergencyStop :: "bool \<Rightarrow> string \<Rightarrow> time \<Rightarrow> ('w, unit) act"

record 'w Service =
  store :: "'w Store"
  svc_sealer :: Envelope
  xEstimatedCharge :: string

text \<open>An \<open>Option\<close> changes a service.\<close>

definition WithXEstimatedCharge :: "string \<Rightarrow> 'w Service \<Rightarrow> 'w Service" where
  "WithXEstimatedCharge v service =
     (let v = TrimSpace v
      in if v \<noteq> [] \<and> length v \<le> 80 then service\<lparr>xEstimatedCharge := v\<rparr> else service)"

definition NewService :: "'w Store \<Rightarrow> Envelope \<Rightarrow> ('w Service \<Rightarrow> 'w Service) list \<Rightarrow> 'w Service" where
  "NewService st e options =
     fold (\<lambda>option service. option service) options
       \<lparr>store = st, svc_sealer = e,
        xEstimatedCharge = ''UNAVAILABLE '' @ [CHR 0xE2, CHR 0x80, CHR 0x94] @ '' configure from X billing portal''\<rparr>"

record CreateDraftInput =
  in_content :: string
  in_post_to_x :: bool
  in_post_to_nostr :: bool
  in_scheduled_at :: "time option"

record Preview =
  pv_job :: PostJob
  pv_content :: string
  pv_hash :: string
  pv_x_cost :: string

record ApprovedPayload =
  ap_job :: PostJob
  ap_content :: string

definition randomID :: "('z world_scheme, string) act" where
  "randomID = ebind (ReadFull 16) (\<lambda>v. ok (hex_encode v))"

definition destinationDetail :: "bool \<Rightarrow> bool \<Rightarrow> string" where
  "destinationDetail x nostr =
     (if x \<and> nostr then ''destinations=x,nostr'' else if x then ''destination=x'' else ''destination=nostr'')"

definition audit :: "'z world_scheme Service \<Rightarrow> string \<Rightarrow> string \<Rightarrow> string \<Rightarrow> ('z world_scheme, unit) act" where
  "audit s jobID kind detail =
     ebind now (\<lambda>nw.
     st_AddAudit (store s) \<lparr>ev_id = 0, ev_job_id = jobID, ev_kind = kind, ev_detail = detail, ev_created_at = nw\<rparr>)"

definition CreateDraft :: "'z world_scheme Service \<Rightarrow> CreateDraftInput \<Rightarrow> ('z world_scheme, PostJob) act" where
  "CreateDraft s input =
     ebind (lift (NormalizeContent (in_content input))) (\<lambda>content.
     ebind (ensure (in_post_to_x input \<or> in_post_to_nostr input) (Sentinel ErrNoDestination)) (\<lambda>_.
     ebind randomID (\<lambda>jid.
     ebind (Seal (svc_sealer s) content jid) (\<lambda>sealed.
     ebind now (\<lambda>nw.
     let job = \<lparr>job_id = jid, EncryptedContent = Some sealed, PayloadHash = [], PostToX = in_post_to_x input,
                PostToNostr = in_post_to_nostr input, job_state = StateDraft, ApprovedAt = None,
                ScheduledAt = in_scheduled_at input, CreatedAt = nw, UpdatedAt = nw, LastNostrCountry = [],
                ContentDestroyed = False\<rparr>
     in ebind (st_CreateJob (store s) job) (\<lambda>_.
        ebind (ignore_err (audit s jid ''draft.created'' (destinationDetail (in_post_to_x input) (in_post_to_nostr input)))) (\<lambda>_.
        ok job)))))))"

definition schedule_text :: "PostJob \<Rightarrow> string" where
  "schedule_text job = (case ScheduledAt job of None \<Rightarrow> [] | Some t \<Rightarrow> FormatRFC3339Nano t)"

definition Preview_get :: "'z world_scheme Service \<Rightarrow> string \<Rightarrow> ('z world_scheme, Preview) act" where
  "Preview_get s jid =
     ebind (st_GetJob (store s) jid) (\<lambda>job.
     let sealed = (case EncryptedContent job of None \<Rightarrow> [] | Some c \<Rightarrow> c)
     in if ContentDestroyed job \<or> length sealed = 0
        then fail (ErrorsNew ''post content has been cryptographically erased'')
        else
          ebind (lift (Open (svc_sealer s) sealed jid)) (\<lambda>plaintext.
          ebind (lift (ApprovalHash plaintext (PostToX job) (PostToNostr job) (schedule_text job))) (\<lambda>hash.
          ok \<lparr>pv_job = job, pv_content = plaintext, pv_hash = hash, pv_x_cost = xEstimatedCharge s\<rparr>)))"

definition emergency_error :: "SystemState \<Rightarrow> go_error" where
  "emergency_error st = Errorf ''emergency stop is active: %s'' [ArgS (StopReason st)] None"

definition Approve :: "'z world_scheme Service \<Rightarrow> string \<Rightarrow> string \<Rightarrow> ('z world_scheme, unit) act" where
  "Approve s jid expectedHash =
     ebind (st_SystemState (store s)) (\<lambda>state.
     ebind (ensure (\<not> EmergencyStopped state) (emergency_error state)) (\<lambda>_.
     ebind (Preview_get s jid) (\<lambda>preview.
     ebind (ensure (job_state (pv_job preview) = StateDraft) (Sentinel ErrInvalidTransition)) (\<lambda>_.
     ebind (ensure (\<not> (expectedHash = [] \<or> expectedHash \<noteq> pv_hash preview))
              (ErrorsNew ''approval hash does not match exact preview'')) (\<lambda>_.
     ebind now (\<lambda>nw.
     ebind (st_ApproveJob (store s) jid (pv_hash preview) nw) (\<lambda>_.
     audit s jid ''job.approved'' ''exact preview hash verified'')))))))"

text \<open>The second clock reading happens only for a scheduled job, as \<open>&&\<close> evaluates it.\<close>

definition PayloadForDispatch :: "'z world_scheme Service \<Rightarrow> string \<Rightarrow> ('z world_scheme, ApprovedPayload) act" where
  "PayloadForDispatch s jid =
     ebind (st_SystemState (store s)) (\<lambda>state.
     ebind (ensure (\<not> EmergencyStopped state) (emergency_error state)) (\<lambda>_.
     ebind (Preview_get s jid) (\<lambda>preview.
     ebind (ensure (job_state (pv_job preview) = StateApproved) (Sentinel ErrInvalidTransition)) (\<lambda>_.
     ebind (case ScheduledAt (pv_job preview) of
              None \<Rightarrow> ok ()
            | Some t \<Rightarrow> ebind now (\<lambda>nw. ensure (\<not> t > nw) (ErrorsNew ''approved job is not scheduled to run yet''))) (\<lambda>_.
     ebind (ensure (\<not> (length (PayloadHash (pv_job preview)) \<noteq> length (pv_hash preview) \<or>
                      PayloadHash (pv_job preview) \<noteq> pv_hash preview))
              (ErrorsNew ''approved payload hash changed before dispatch'')) (\<lambda>_.
     ok \<lparr>ap_job = pv_job preview, ap_content = pv_content preview\<rparr>))))))"

definition Cancel :: "'z world_scheme Service \<Rightarrow> string \<Rightarrow> ('z world_scheme, unit) act" where
  "Cancel s jid =
     ebind (st_GetJob (store s) jid) (\<lambda>job.
     ebind now (\<lambda>nw.
     ebind (st_TransitionJob (store s) jid (job_state job) StateCancelled nw) (\<lambda>_.
     audit s jid ''job.cancelled'' ''operator cancelled before completion'')))"

definition Reconcile :: "'z world_scheme Service \<Rightarrow> string \<Rightarrow> ('z world_scheme, unit) act" where
  "Reconcile s jid =
     ebind (st_GetJob (store s) jid) (\<lambda>job.
     ebind (ensure (job_state job = StateUnknown \<or> job_state job = StatePartial) (Sentinel ErrInvalidTransition)) (\<lambda>_.
     audit s jid ''job.reconcile.requested'' ''manual reconciliation queued; no automatic resend''))"

definition Jobs :: "'z world_scheme Service \<Rightarrow> int \<Rightarrow> ('z world_scheme, JobSummary list) act" where
  "Jobs s limit = st_ListJobs (store s) limit"

definition Audit :: "'z world_scheme Service \<Rightarrow> int \<Rightarrow> ('z world_scheme, AuditEvent list) act" where
  "Audit s limit = st_ListAudit (store s) limit"

definition Service_SystemState :: "'z world_scheme Service \<Rightarrow> ('z world_scheme, SystemState) act" where
  "Service_SystemState s = st_SystemState (store s)"

definition EmergencyStop :: "'z world_scheme Service \<Rightarrow> bool \<Rightarrow> string \<Rightarrow> ('z world_scheme, unit) act" where
  "EmergencyStop s stopped reason =
     (let reason = (if stopped \<and> reason = [] then ''operator activated emergency stop'' else reason);
          reason = (if \<not> stopped then [] else reason)
      in ebind now (\<lambda>nw.
         ebind (st_SetEmergencyStop (store s) stopped reason nw) (\<lambda>_.
         audit s [] (if stopped then ''system.emergency_stop.enabled'' else ''system.emergency_stop.disabled'') reason)))"

text \<open>The SQLite store as an implementation of the interface.\<close>

definition SQLite_Store :: "SQLite \<Rightarrow> 'z sqlite_world_scheme Store" where
  "SQLite_Store s =
     \<lparr>st_CreateJob = CreateJob, st_GetJob = GetJob, st_ListJobs = ListJobs s, st_ApproveJob = ApproveJob,
      st_TransitionJob = TransitionJob, st_DestroyJobContent = DestroyJobContent, st_AddAudit = AddAudit s,
      st_ListAudit = ListAudit s, st_SystemState = SystemState_get, st_SetEmergencyStop = SetEmergencyStop\<rparr>"

end
