(* ===== verification/Service_Props.thy ===== *)
theory Service_Props
  imports Service
begin

text \<open>
  What the service guarantees over any store that satisfies the laws of the locale \<open>job_store\<close>, and so
  over the SQLite store: how jobs evolve, that an approval binds the dispatched payload, that a
  draft reads back as it was written, and that the emergency stop blocks.
\<close>

section \<open>How a job may change\<close>

text \<open>
  Service calls never change what was drafted (content, destinations, schedule), and once a job has
  left the draft state its approval hash is fixed.
\<close>

definition evolves :: "PostJob \<Rightarrow> PostJob \<Rightarrow> bool" where
  "evolves j j' \<longleftrightarrow>
     job_id j' = job_id j \<and> EncryptedContent j' = EncryptedContent j \<and> PostToX j' = PostToX j \<and>
     PostToNostr j' = PostToNostr j \<and> ScheduledAt j' = ScheduledAt j \<and> ContentDestroyed j' = ContentDestroyed j \<and>
     (job_state j \<noteq> StateDraft \<longrightarrow> PayloadHash j' = PayloadHash j \<and> job_state j' \<noteq> StateDraft)"

definition jobs_evolve :: "(string \<Rightarrow> PostJob option) \<Rightarrow> (string \<Rightarrow> PostJob option) \<Rightarrow> bool" where
  "jobs_evolve m m' \<longleftrightarrow> (\<forall>k j. m k = Some j \<longrightarrow> (\<exists>j'. m' k = Some j' \<and> evolves j j'))"

lemma evolves_refl [simp]: "evolves j j"
  by (simp add: evolves_def)

lemma evolves_trans: "evolves a b \<Longrightarrow> evolves b c \<Longrightarrow> evolves a c"
  by (auto simp: evolves_def)

lemma jobs_evolve_refl [simp]: "jobs_evolve m m"
  by (simp add: jobs_evolve_def)

lemma jobs_evolve_trans: "jobs_evolve a b \<Longrightarrow> jobs_evolve b c \<Longrightarrow> jobs_evolve a c"
  unfolding jobs_evolve_def by (meson evolves_trans)

lemma jobs_evolve_update:
  "m k = Some j \<Longrightarrow> evolves j j' \<Longrightarrow> jobs_evolve m (m(k \<mapsto> j'))"
  "m k = None \<Longrightarrow> jobs_evolve m (m(k \<mapsto> j'))"
  by (auto simp: jobs_evolve_def)

text \<open>The approval of a job, as the service checks it: its content opens and hashes to \<open>h\<close>.\<close>

definition hash_of :: "Envelope \<Rightarrow> string \<Rightarrow> PostJob \<Rightarrow> string \<Rightarrow> string \<Rightarrow> bool" where
  "hash_of e k j pt h \<longleftrightarrow>
     \<not> ContentDestroyed j \<and>
     (\<exists>c. EncryptedContent j = Some c \<and> c \<noteq> [] \<and> Open e c k = Inr pt) \<and>
     ApprovalHash pt (PostToX j) (PostToNostr j) (schedule_text j) = Inr h"

lemma hash_of_evolves: "hash_of e k j pt h \<Longrightarrow> evolves j j' \<Longrightarrow> hash_of e k j' pt h"
  by (auto simp: hash_of_def evolves_def schedule_text_def)

lemma hash_of_unique: "hash_of e k j pt h \<Longrightarrow> hash_of e k j pt' h' \<Longrightarrow> pt' = pt \<and> h' = h"
  by (auto simp: hash_of_def)

text \<open>A draft as \<open>CreateDraft\<close> makes it: the input's choices, and content that opens to the normalized input.\<close>

definition drafted :: "Envelope \<Rightarrow> CreateDraftInput \<Rightarrow> PostJob \<Rightarrow> bool" where
  "drafted e input j \<longleftrightarrow> PostToX j = in_post_to_x input \<and> PostToNostr j = in_post_to_nostr input \<and>
     ScheduledAt j = in_scheduled_at input \<and> ApprovedAt j = None \<and>
     job_state j = StateDraft \<and> \<not> ContentDestroyed j \<and> (PostToX j \<or> PostToNostr j) \<and>
     (\<exists>c sealed. NormalizeContent (in_content input) = Inr c \<and> EncryptedContent j = Some sealed \<and>
        (envelope_ok e \<longrightarrow> sealed \<noteq> [] \<and> Open e sealed (job_id j) = Inr c))"

section \<open>Sequences of service calls\<close>

datatype svc_op =
    OpCreate CreateDraftInput | OpApprove string string | OpCancel string | OpStop bool string
  | OpPreview string | OpPayload string | OpReconcile string | OpJobs int | OpAudit int | OpSystem

fun run_svc :: "'z world_scheme Service \<Rightarrow> svc_op \<Rightarrow> 'z world_scheme \<Rightarrow> 'z world_scheme" where
  "run_svc sv (OpCreate i) w = snd (CreateDraft sv i w)"
| "run_svc sv (OpApprove k h) w = snd (Approve sv k h w)"
| "run_svc sv (OpCancel k) w = snd (Cancel sv k w)"
| "run_svc sv (OpStop flg why) w = snd (EmergencyStop sv flg why w)"
| "run_svc sv (OpPreview k) w = snd (Preview_get sv k w)"
| "run_svc sv (OpPayload k) w = snd (PayloadForDispatch sv k w)"
| "run_svc sv (OpReconcile k) w = snd (Reconcile sv k w)"
| "run_svc sv (OpJobs n) w = snd (Jobs sv n w)"
| "run_svc sv (OpAudit n) w = snd (Audit sv n w)"
| "run_svc sv OpSystem w = snd (Service_SystemState sv w)"

abbreviation run_svcs :: "'z world_scheme Service \<Rightarrow> svc_op list \<Rightarrow> 'z world_scheme \<Rightarrow> 'z world_scheme" where
  "run_svcs sv ops w \<equiv> fold (run_svc sv) ops w"

section \<open>The interface\<close>

locale job_store =
  fixes st :: "'z world_scheme Store"
    and jobs_of :: "'z world_scheme \<Rightarrow> string \<Rightarrow> PostJob option"
    and stop_of :: "'z world_scheme \<Rightarrow> SystemState option"
    and inv :: "'z world_scheme \<Rightarrow> bool"
    and stored :: "time \<Rightarrow> time"
  assumes ambient: "ambient_free jobs_of" "ambient_free stop_of" "ambient_free inv"
    and inv_get: "preserves inv (st_GetJob st k)"
    and inv_create: "preserves inv (st_CreateJob st j)"
    and inv_approve: "preserves inv (st_ApproveJob st k h t)"
    and inv_transition: "preserves inv (st_TransitionJob st k a b t)"
    and inv_audit: "preserves inv (st_AddAudit st ev)"
    and inv_lists: "preserves inv (st_ListJobs st n)" "preserves inv (st_ListAudit st n)"
    and inv_system: "preserves inv (st_SystemState st)"
    and inv_stop: "preserves inv (st_SetEmergencyStop st flg why t)"
    and reads_jobs: "keeps jobs_of (st_GetJob st k)" "keeps jobs_of (st_ListJobs st n)"
      "keeps jobs_of (st_ListAudit st n)" "keeps jobs_of (st_SystemState st)" "keeps jobs_of (st_AddAudit st ev)"
      "keeps jobs_of (st_SetEmergencyStop st flg why t)"
    and reads_stop: "keeps stop_of (st_GetJob st k)" "keeps stop_of (st_ListJobs st n)"
      "keeps stop_of (st_ListAudit st n)" "keeps stop_of (st_SystemState st)" "keeps stop_of (st_AddAudit st ev)"
      "keeps stop_of (st_CreateJob st j)" "keeps stop_of (st_ApproveJob st k h t)"
      "keeps stop_of (st_TransitionJob st k a b t)"
    and get: "st_GetJob st k w = (Inr j, w') \<Longrightarrow> jobs_of w k = Some j"
    and create: "st_CreateJob st j w = (Inr u, w') \<Longrightarrow> jobs_of w (job_id j) = None \<and>
        jobs_of w' = (jobs_of w)(job_id j \<mapsto> j\<lparr>ApprovedAt := map_option stored (ApprovedAt j),
          ScheduledAt := map_option stored (ScheduledAt j), CreatedAt := stored (CreatedAt j),
          UpdatedAt := stored (UpdatedAt j)\<rparr>)"
    and create_fails: "st_CreateJob st j w = (Inl err, w') \<Longrightarrow> jobs_of w' = jobs_of w"
    and approve: "inv w \<Longrightarrow> st_ApproveJob st k h t w = (Inr u, w') \<Longrightarrow>
        \<exists>j. jobs_of w k = Some j \<and> job_state j = StateDraft \<and> \<not> ContentDestroyed j \<and>
          jobs_of w' = (jobs_of w)(k \<mapsto> j\<lparr>PayloadHash := h, job_state := StateApproved,
            ApprovedAt := Some (stored t), UpdatedAt := stored t\<rparr>)"
    and approve_fails: "inv w \<Longrightarrow> st_ApproveJob st k h t w = (Inl err, w') \<Longrightarrow> jobs_of w' = jobs_of w"
    and transition: "inv w \<Longrightarrow> st_TransitionJob st k a b t w = (Inr u, w') \<Longrightarrow>
        CanTransition a b \<and> (\<exists>j. jobs_of w k = Some j \<and> job_state j = a \<and>
          jobs_of w' = (jobs_of w)(k \<mapsto> j\<lparr>job_state := b, UpdatedAt := stored t\<rparr>))"
    and transition_fails: "inv w \<Longrightarrow> st_TransitionJob st k a b t w = (Inl err, w') \<Longrightarrow> jobs_of w' = jobs_of w"
    and system: "st_SystemState st w = (Inr s, w') \<Longrightarrow> stop_of w = Some s"
    and set_stop: "st_SetEmergencyStop st flg why t w = (Inr u, w') \<Longrightarrow>
        stop_of w \<noteq> None \<longrightarrow> stop_of w' = Some \<lparr>EmergencyStopped = flg, StopReason = why, StopUpdatedAt = stored t\<rparr>"
    and set_stop_fails: "st_SetEmergencyStop st flg why t w = (Inl err, w') \<Longrightarrow> stop_of w' = stop_of w"
begin

text \<open>What reading a job, reading the system state and writing an audit event leave alone.\<close>

lemma quiet_ambient [simp]:
  "jobs_of (w\<lparr>entropy := x\<rparr>) = jobs_of w" "jobs_of (w\<lparr>ticks := n\<rparr>) = jobs_of w"
  "stop_of (w\<lparr>entropy := x\<rparr>) = stop_of w" "stop_of (w\<lparr>ticks := n\<rparr>) = stop_of w"
  "inv (w\<lparr>entropy := x\<rparr>) = inv w" "inv (w\<lparr>ticks := n\<rparr>) = inv w"
  using ambient by (simp_all add: ambient_free_def)

definition quiet :: "('z world_scheme, 'a) act \<Rightarrow> bool" where
  "quiet m \<longleftrightarrow> keeps jobs_of m \<and> keeps stop_of m \<and> preserves inv m"

lemma quietD: "quiet m \<Longrightarrow> m w = (r, w') \<Longrightarrow> jobs_of w' = jobs_of w \<and> stop_of w' = stop_of w \<and> (inv w \<longrightarrow> inv w')"
  by (auto simp: quiet_def dest: keepsD preservesD)

lemma quiet_ebind: "quiet m \<Longrightarrow> (\<And>x. quiet (f x)) \<Longrightarrow> quiet (ebind m f)"
  by (auto simp: quiet_def)

lemma quiet_ignore: "quiet m \<Longrightarrow> quiet (ignore_err m)"
  by (auto simp: quiet_def)

lemma quiet_basic:
  "quiet (ok x)" "quiet (fail e)" "quiet (lift r)" "quiet (ensure c e)"
  by (simp_all add: quiet_def)

lemma quiet_effects: "quiet now" "quiet (ReadFull n)" "quiet (Seal e p ad)"
  using ambient keeps_preserves [of inv _ "\<lambda>c. c"] by (auto simp: quiet_def)

lemma quiet_store:
  "quiet (st_GetJob st k)" "quiet (st_ListJobs st n)" "quiet (st_ListAudit st n)" "quiet (st_SystemState st)"
  "quiet (st_AddAudit st ev)"
  using inv_get inv_lists inv_system inv_audit reads_jobs reads_stop by (auto simp: quiet_def)

lemmas quiet_rules = quiet_ebind quiet_ignore quiet_basic quiet_effects quiet_store

lemma quiet_audit: "store sv = st \<Longrightarrow> quiet (audit sv k kind detail)"
  by (simp add: audit_def quiet_rules)

lemma quiet_Preview: "store sv = st \<Longrightarrow> quiet (Preview_get sv k)"
  by (simp add: Preview_get_def Let_def quiet_rules)

lemma quiet_Payload: "store sv = st \<Longrightarrow> quiet (PayloadForDispatch sv k)"
  by (simp add: PayloadForDispatch_def quiet_rules quiet_Preview split: option.split)

lemma quiet_Reconcile: "store sv = st \<Longrightarrow> quiet (Reconcile sv k)"
  by (simp add: Reconcile_def quiet_rules quiet_audit)

lemma Preview_Inr:
  assumes "store sv = st" and "Preview_get sv k w = (Inr p, w')"
  shows "jobs_of w k = Some (pv_job p) \<and> hash_of (svc_sealer sv) k (pv_job p) (pv_content p) (pv_hash p)"
  using assms get
  by (auto simp: Preview_get_def ebind_eq_Inr Let_def hash_of_def split: if_splits option.splits)

lemma Payload_Inr:
  assumes "store sv = st" and "PayloadForDispatch sv k w = (Inr p, w')"
  shows "jobs_of w k = Some (ap_job p) \<and> hash_of (svc_sealer sv) k (ap_job p) (ap_content p) (PayloadHash (ap_job p)) \<and>
    job_state (ap_job p) = StateApproved \<and> (\<exists>s. stop_of w = Some s \<and> \<not> EmergencyStopped s) \<and>
    (\<forall>t. ScheduledAt (ap_job p) = Some t \<longrightarrow> t \<le> clock w' (ticks w' - 1))"
proof -
  obtain s w1 pv w2 where sys: "st_SystemState st w = (Inr s, w1)" "\<not> EmergencyStopped s"
      and pv: "Preview_get sv k w1 = (Inr pv, w2)" and c: "job_state (pv_job pv) = StateApproved"
      "PayloadHash (pv_job pv) = pv_hash pv" and p: "p = \<lparr>ap_job = pv_job pv, ap_content = pv_content pv\<rparr>"
      and due: "(case ScheduledAt (pv_job pv) of None \<Rightarrow> ok ()
            | Some t \<Rightarrow> ebind now (\<lambda>nw. ensure (\<not> t > nw) (ErrorsNew ''approved job is not scheduled to run yet''))) w2
          = (Inr (), w')"
    using assms by (auto simp: PayloadForDispatch_def ebind_eq_Inr split: if_splits)
  have "jobs_of w1 = jobs_of w" using quietD [OF quiet_store(4) sys(1)] by simp
  moreover have "t \<le> clock w' (ticks w' - 1)" if "ScheduledAt (pv_job pv) = Some t" for t
    using due that by (auto simp: ebind_eq_Inr split: if_splits)
  ultimately show ?thesis using Preview_Inr [OF assms(1) pv] system [OF sys(1)] sys(2) c p by auto
qed

text \<open>The effect of an approval: nothing, or the update of the one draft whose preview hash was given.\<close>

definition approved :: "Envelope \<Rightarrow> string \<Rightarrow> string \<Rightarrow> 'z world_scheme \<Rightarrow> 'z world_scheme \<Rightarrow> bool" where
  "approved e k h w w' \<longleftrightarrow> (\<exists>j pt t. jobs_of w k = Some j \<and> job_state j = StateDraft \<and> hash_of e k j pt h \<and>
     (\<exists>s. stop_of w = Some s \<and> \<not> EmergencyStopped s) \<and>
     jobs_of w' = (jobs_of w)(k \<mapsto> j\<lparr>PayloadHash := h, job_state := StateApproved,
       ApprovedAt := Some (stored t), UpdatedAt := stored t\<rparr>))"

text \<open>The checks before the write; they only read.\<close>

definition approve_check :: "'z world_scheme Service \<Rightarrow> string \<Rightarrow> string \<Rightarrow> ('z world_scheme, Preview) act" where
  "approve_check sv k h =
     ebind (st_SystemState (store sv)) (\<lambda>state.
     ebind (ensure (\<not> EmergencyStopped state) (emergency_error state)) (\<lambda>_.
     ebind (Preview_get sv k) (\<lambda>preview.
     ebind (ensure (job_state (pv_job preview) = StateDraft) (Sentinel ErrInvalidTransition)) (\<lambda>_.
     ebind (ensure (\<not> (h = [] \<or> h \<noteq> pv_hash preview)) (ErrorsNew ''approval hash does not match exact preview'')) (\<lambda>_.
     ok preview)))))"

lemma Approve_split:
  "Approve sv k h = ebind (approve_check sv k h) (\<lambda>pv. ebind now (\<lambda>nw.
     ebind (st_ApproveJob (store sv) k (pv_hash pv) nw) (\<lambda>_. audit sv k ''job.approved'' ''exact preview hash verified'')))"
  unfolding Approve_def approve_check_def ebind_assoc ebind_ok ..

lemma quiet_approve_check: "store sv = st \<Longrightarrow> quiet (approve_check sv k h)"
  by (simp add: approve_check_def quiet_rules quiet_Preview)

lemma approve_check_Inr:
  assumes "store sv = st" and "approve_check sv k h w = (Inr pv, w')"
  shows "jobs_of w k = Some (pv_job pv) \<and> job_state (pv_job pv) = StateDraft \<and> pv_hash pv = h \<and>
    hash_of (svc_sealer sv) k (pv_job pv) (pv_content pv) h \<and> (\<exists>s. stop_of w = Some s \<and> \<not> EmergencyStopped s)"
proof -
  obtain s w1 where sys: "st_SystemState st w = (Inr s, w1)" "\<not> EmergencyStopped s"
      and pv: "Preview_get sv k w1 = (Inr pv, w')" and c: "job_state (pv_job pv) = StateDraft" "h = pv_hash pv"
    using assms by (auto simp: approve_check_def ebind_eq_Inr split: if_splits)
  have "jobs_of w1 = jobs_of w" using quietD [OF quiet_store(4) sys(1)] by simp
  then show ?thesis using Preview_Inr [OF assms(1) pv] system [OF sys(1)] sys(2) c by auto
qed

lemma Approve_outcome:
  assumes "store sv = st" and "Approve sv k h w = (res, w')" and "inv w"
  shows "inv w' \<and> stop_of w' = stop_of w \<and>
    (approved (svc_sealer sv) k h w w' \<or> jobs_of w' = jobs_of w \<and> (\<exists>e. res = Inl e))"
  using assms(2) unfolding Approve_split
proof (cases rule: ebind_cases)
  case (failed e)
  then show ?thesis using quietD [OF quiet_approve_check [OF assms(1)]] assms(3) by blast
next
  case (continued pv w1)
  let ?w1 = "w1\<lparr>ticks := Suc (ticks w1)\<rparr>" and ?t = "clock w1 (ticks w1)"
  note q = quietD [OF quiet_approve_check [OF assms(1)] continued(1)]
  note c = approve_check_Inr [OF assms(1) continued(1)]
  have i: "inv ?w1" "jobs_of ?w1 = jobs_of w" "stop_of ?w1 = stop_of w" using q assms(3) by auto
  have "ebind (st_ApproveJob st k h ?t) (\<lambda>_. audit sv k ''job.approved'' ''exact preview hash verified'') ?w1 = (res, w')"
    using continued(2) c assms(1) by simp
  then show ?thesis
  proof (cases rule: ebind_cases)
    case (failed e)
    then show ?thesis
      using approve_fails [OF i(1) failed(1)] preservesD [OF inv_approve failed(1) i(1)] keepsD [OF reads_stop(7) failed(1)] i
      by simp
  next
    case (continued u w2)
    note a = quietD [OF quiet_audit [OF assms(1)] continued(2)]
    have "approved (svc_sealer sv) k h w w'"
      using approve [OF i(1) continued(1)] a c i unfolding approved_def by auto
    then show ?thesis
      using preservesD [OF inv_approve continued(1) i(1)] keepsD [OF reads_stop(7) continued(1)] a i by simp
  qed
qed

text \<open>The draft before it is written.\<close>

definition draft_prepare :: "'z world_scheme Service \<Rightarrow> CreateDraftInput \<Rightarrow> ('z world_scheme, PostJob) act" where
  "draft_prepare sv input =
     ebind (lift (NormalizeContent (in_content input))) (\<lambda>content.
     ebind (ensure (in_post_to_x input \<or> in_post_to_nostr input) (Sentinel ErrNoDestination)) (\<lambda>_.
     ebind randomID (\<lambda>jid.
     ebind (Seal (svc_sealer sv) content jid) (\<lambda>sealed.
     ebind now (\<lambda>nw.
     ok \<lparr>job_id = jid, EncryptedContent = Some sealed, PayloadHash = [], PostToX = in_post_to_x input,
         PostToNostr = in_post_to_nostr input, job_state = StateDraft, ApprovedAt = None,
         ScheduledAt = in_scheduled_at input, CreatedAt = nw, UpdatedAt = nw, LastNostrCountry = [],
         ContentDestroyed = False\<rparr>)))))"

lemma CreateDraft_split:
  "CreateDraft sv input = ebind (draft_prepare sv input) (\<lambda>job. ebind (st_CreateJob (store sv) job) (\<lambda>_.
     ebind (ignore_err (audit sv (job_id job) ''draft.created'' (destinationDetail (in_post_to_x input) (in_post_to_nostr input))))
       (\<lambda>_. ok job)))"
  unfolding CreateDraft_def draft_prepare_def ebind_assoc ebind_ok Let_def by simp

lemma quiet_draft_prepare: "quiet (draft_prepare sv input)"
  by (simp add: draft_prepare_def randomID_def quiet_rules)

lemma draft_prepare_Inr: "draft_prepare sv input w = (Inr j, w') \<Longrightarrow> drafted (svc_sealer sv) input j"
  unfolding draft_prepare_def drafted_def
  by (elim ebind_cases) (auto simp: Open_Seal dest: Seal_nonempty split: if_splits)

lemma CreateDraft_outcome:
  assumes "store sv = st" and "CreateDraft sv input w = (res, w')" and "inv w"
  shows "inv w' \<and> stop_of w' = stop_of w \<and>
    ((\<exists>j. res = Inr j \<and> jobs_of w (job_id j) = None \<and> jobs_of w' = (jobs_of w)(job_id j \<mapsto>
         j\<lparr>ScheduledAt := map_option stored (ScheduledAt j), CreatedAt := stored (CreatedAt j), UpdatedAt := stored (UpdatedAt j)\<rparr>) \<and>
       drafted (svc_sealer sv) input j)
     \<or> jobs_of w' = jobs_of w \<and> (\<exists>e. res = Inl e))"
  using assms(2) unfolding CreateDraft_split assms(1)
proof (cases rule: ebind_cases)
  case (failed e)
  then show ?thesis using quietD [OF quiet_draft_prepare] assms(3) by blast
next
  case (continued j w1)
  have i: "inv w1" "jobs_of w1 = jobs_of w" "stop_of w1 = stop_of w"
    using quietD [OF quiet_draft_prepare continued(1)] assms(3) by auto
  note d = draft_prepare_Inr [OF continued(1)]
  show ?thesis using continued(2)
  proof (cases rule: ebind_cases)
    case (failed e)
    then show ?thesis
      using create_fails [OF failed(1)] preservesD [OF inv_create failed(1) i(1)] keepsD [OF reads_stop(6) failed(1)] i
      by simp
  next
    case (continued u w2)
    have a: "res = Inr j" "jobs_of w' = jobs_of w2 \<and> stop_of w' = stop_of w2 \<and> (inv w2 \<longrightarrow> inv w')"
      using continued(2) quietD [OF quiet_audit [OF assms(1)] surjective_pairing] by (auto simp: ebind_def)
    have "j\<lparr>ApprovedAt := map_option stored (ApprovedAt j)\<rparr> = j" using d by (simp add: drafted_def)
    then show ?thesis
      using create [OF continued(1)] preservesD [OF inv_create continued(1) i(1)] keepsD [OF reads_stop(6) continued(1)] i a d
      by auto
  qed
qed

lemma Cancel_outcome:
  assumes "store sv = st" and "Cancel sv k w = (res, w')" and "inv w"
  shows "inv w' \<and> stop_of w' = stop_of w \<and>
    ((\<exists>j t. jobs_of w k = Some j \<and> CanTransition (job_state j) StateCancelled \<and>
        jobs_of w' = (jobs_of w)(k \<mapsto> j\<lparr>job_state := StateCancelled, UpdatedAt := stored t\<rparr>))
     \<or> jobs_of w' = jobs_of w \<and> (\<exists>e. res = Inl e))"
  using assms(2) unfolding Cancel_def assms(1)
proof (cases rule: ebind_cases)
  case (failed e)
  then show ?thesis using quietD [OF quiet_store(1)] assms(3) by blast
next
  case (continued job w1)
  let ?w1 = "w1\<lparr>ticks := Suc (ticks w1)\<rparr>"
  have i: "inv ?w1" "jobs_of ?w1 = jobs_of w" "stop_of ?w1 = stop_of w" and j: "jobs_of w k = Some job"
    using quietD [OF quiet_store(1) continued(1)] get [OF continued(1)] assms(3) by auto
  have "ebind (st_TransitionJob st k (job_state job) StateCancelled (clock w1 (ticks w1)))
      (\<lambda>_. audit sv k ''job.cancelled'' ''operator cancelled before completion'') ?w1 = (res, w')"
    using continued(2) by simp
  then show ?thesis
  proof (cases rule: ebind_cases)
    case (failed e)
    then show ?thesis
      using transition_fails [OF i(1) failed(1)] preservesD [OF inv_transition failed(1) i(1)] keepsD [OF reads_stop(8) failed(1)] i
      by simp
  next
    case (continued u w2)
    then show ?thesis
      using transition [OF i(1) continued(1)] preservesD [OF inv_transition continued(1) i(1)] keepsD [OF reads_stop(8) continued(1)]
        quietD [OF quiet_audit [OF assms(1)] continued(2)] i j by auto
  qed
qed

lemma EmergencyStop_outcome:
  assumes "store sv = st" and "EmergencyStop sv flg why w = (res, w')" and "inv w"
  shows "inv w' \<and> jobs_of w' = jobs_of w \<and> (stop_of w' = stop_of w \<and> (\<exists>e. res = Inl e) \<or>
     (stop_of w \<noteq> None \<longrightarrow> (\<exists>t. stop_of w' = Some \<lparr>EmergencyStopped = flg,
        StopReason = (if flg then if why = [] then ''operator activated emergency stop'' else why else []), StopUpdatedAt = stored t\<rparr>)))"
proof -
  let ?why = "if flg then if why = [] then ''operator activated emergency stop'' else why else []"
    and ?w1 = "w\<lparr>ticks := Suc (ticks w)\<rparr>"
  have i: "inv ?w1" using assms(3) by simp
  have "ebind (st_SetEmergencyStop st flg ?why (clock w (ticks w)))
     (\<lambda>_. audit sv [] (if flg then ''system.emergency_stop.enabled'' else ''system.emergency_stop.disabled'') ?why) ?w1 = (res, w')"
    using assms(1,2) by (cases flg; cases "why = []") (simp_all add: EmergencyStop_def Let_def)
  then show ?thesis
  proof (cases rule: ebind_cases)
    case (failed e)
    then show ?thesis
      using set_stop_fails [OF failed(1)] preservesD [OF inv_stop failed(1) i] keepsD [OF reads_jobs(6) failed(1)] by simp
  next
    case (continued u w2)
    then show ?thesis
      using set_stop [OF continued(1)] preservesD [OF inv_stop continued(1) i] keepsD [OF reads_jobs(6) continued(1)]
        quietD [OF quiet_audit [OF assms(1)] continued(2)] by auto
  qed
qed

text \<open>Every call of the service, and what no sequence of calls can do to a job.\<close>

lemma Approve_evolves:
  assumes "store sv = st" and "Approve sv k h w = (res, w')" and "inv w"
  shows "jobs_evolve (jobs_of w) (jobs_of w')"
proof (cases "approved (svc_sealer sv) k h w w'")
  case True
  then obtain j t where j: "jobs_of w k = Some j" "job_state j = StateDraft"
      and w': "jobs_of w' = (jobs_of w)(k \<mapsto> j\<lparr>PayloadHash := h, job_state := StateApproved,
         ApprovedAt := Some (stored t), UpdatedAt := stored t\<rparr>)"
    unfolding approved_def by blast
  show ?thesis unfolding w' using j by (intro jobs_evolve_update(1)) (auto simp: evolves_def)
qed (use Approve_outcome [OF assms] in simp)

lemma CreateDraft_evolves:
  assumes "store sv = st" and "CreateDraft sv input w = (res, w')" and "inv w"
  shows "jobs_evolve (jobs_of w) (jobs_of w')"
  using CreateDraft_outcome [OF assms] jobs_evolve_update(2) [of "jobs_of w"] by auto

lemma Cancel_evolves:
  assumes "store sv = st" and "Cancel sv k w = (res, w')" and "inv w"
  shows "jobs_evolve (jobs_of w) (jobs_of w')"
proof (cases "jobs_of w' = jobs_of w")
  case False
  then obtain j t where j: "jobs_of w k = Some j" and
      w': "jobs_of w' = (jobs_of w)(k \<mapsto> j\<lparr>job_state := StateCancelled, UpdatedAt := stored t\<rparr>)"
    using Cancel_outcome [OF assms] by blast
  show ?thesis unfolding w' using j by (intro jobs_evolve_update(1)) (auto simp: evolves_def)
qed simp

lemma run_svc_evolves:
  assumes "store sv = st" and "inv w"
  shows "inv (run_svc sv op w) \<and> jobs_evolve (jobs_of w) (jobs_of (run_svc sv op w)) \<and>
    ((\<forall>flg why. op \<noteq> OpStop flg why) \<longrightarrow> stop_of (run_svc sv op w) = stop_of w)"
proof -
  have q: "inv (snd (m w)) \<and> jobs_of (snd (m w)) = jobs_of w \<and> stop_of (snd (m w)) = stop_of w" if "quiet m"
    for m :: "('z world_scheme, 'b) act"
    using quietD [OF that surjective_pairing] assms(2) by blast
  show ?thesis
  proof (cases op)
    case (OpCreate i)
    then show ?thesis
      using CreateDraft_evolves [OF assms(1) surjective_pairing assms(2)] CreateDraft_outcome [OF assms(1) surjective_pairing assms(2)]
      by simp
  next
    case (OpApprove k h)
    then show ?thesis
      using Approve_evolves [OF assms(1) surjective_pairing assms(2)] Approve_outcome [OF assms(1) surjective_pairing assms(2)]
      by simp
  next
    case (OpCancel k)
    then show ?thesis
      using Cancel_evolves [OF assms(1) surjective_pairing assms(2)] Cancel_outcome [OF assms(1) surjective_pairing assms(2)]
      by simp
  next
    case (OpStop flg why)
    then show ?thesis using EmergencyStop_outcome [OF assms(1) surjective_pairing assms(2)] by auto
  qed (use assms(1) q [OF quiet_Preview] q [OF quiet_Payload] q [OF quiet_Reconcile] q [OF quiet_store(2)]
      q [OF quiet_store(3)] q [OF quiet_store(4)] in \<open>simp_all add: Jobs_def Audit_def Service_SystemState_def\<close>)
qed

lemma run_svcs_evolves:
  "store sv = st \<Longrightarrow> inv w \<Longrightarrow> inv (run_svcs sv ops w) \<and> jobs_evolve (jobs_of w) (jobs_of (run_svcs sv ops w))"
proof (induction ops arbitrary: w)
  case (Cons op ops)
  show ?case
    using run_svc_evolves [OF Cons.prems, of op] Cons.IH [OF Cons.prems(1)] jobs_evolve_trans by fastforce
qed simp

lemma run_svcs_stop:
  "store sv = st \<Longrightarrow> inv w \<Longrightarrow> (\<And>flg why. OpStop flg why \<notin> set ops) \<Longrightarrow> stop_of (run_svcs sv ops w) = stop_of w"
proof (induction ops arbitrary: w)
  case (Cons op ops)
  have "\<forall>flg why. op \<noteq> OpStop flg why" using Cons.prems(3) by (metis list.set_intros(1))
  then show ?case
    using run_svc_evolves [OF Cons.prems(1,2), of op] Cons.IH [OF Cons.prems(1), of "run_svc sv op w"] Cons.prems(3) by auto
qed simp

end

section \<open>The SQLite store implements the interface\<close>

definition job_map :: "'z sqlite_world_scheme \<Rightarrow> string \<Rightarrow> PostJob option" where
  "job_map w k = map_option scanJob (find_job k (db w))"

definition system_of :: "'z sqlite_world_scheme \<Rightarrow> SystemState option" where
  "system_of w = map_option (\<lambda>r. \<lparr>EmergencyStopped = (sr_stop r = 1), StopReason = sr_reason r,
     StopUpdatedAt = fromMillis (sr_updated_at r)\<rparr>) (t_system (db w))"

definition stored_time :: "time \<Rightarrow> time" where
  "stored_time t = fromMillis (millis t)"

lemma timePtr_nullTime: "timePtr (nullTime v) = map_option stored_time v"
  by (cases v) (simp_all add: timePtr_def nullTime_def stored_time_def)

lemma boolInt_eq_1 [simp]: "boolInt b = 1 \<longleftrightarrow> b"
  by (simp add: boolInt_def)

lemma keeps_of_db: "keeps db m \<Longrightarrow> keeps job_map m" "keeps db m \<Longrightarrow> keeps system_of m"
  by (simp_all add: keeps_def job_map_def system_of_def fun_eq_iff)

text \<open>The conditional update on the map of jobs.\<close>

lemma cas_job_map:
  assumes "store_inv w" and "\<And>r. jr_id (f r) = jr_id r" and "\<And>r. row_ok r \<Longrightarrow> scanJob (f r) = g (scanJob r)"
    and "cas_job k Q f w = (res, w')"
  shows "(case res of Inl e \<Rightarrow> job_map w' = job_map w
    | Inr u \<Rightarrow> (\<exists>r. find_job k (db w) = Some r \<and> row_ok r \<and> Q r \<and> job_map w' = (job_map w)(k \<mapsto> g (scanJob r))))"
proof -
  have d: "distinct (job_ids (db w))" and rows: "\<And>r. find_job k (db w) = Some r \<Longrightarrow> row_ok r"
    using assms(1) find_job_Some by (auto simp: db_inv_def)
  note out = cas_job_outcome [OF assms(4) d assms(2)]
  show ?thesis
  proof (cases res)
    case (Inl e)
    then show ?thesis using out by (simp add: job_map_def fun_eq_iff)
  next
    case (Inr u)
    then obtain r where r: "find_job k (db w) = Some r" "Q r"
        "\<And>i. find_job i (db w') = (if i = k then Some (f r) else find_job i (db w))"
      using out by auto
    have "job_map w' = (job_map w)(k \<mapsto> g (scanJob r))"
      using r assms(3) [OF rows [OF r(1)]] by (auto simp: job_map_def fun_eq_iff)
    then show ?thesis using Inr r rows by auto
  qed
qed

lemma CreateJob_map:
  "CreateJob j w = (Inr u, w') \<Longrightarrow> job_map w (job_id j) = None \<and>
     job_map w' = (job_map w)(job_id j \<mapsto> j\<lparr>ApprovedAt := map_option stored_time (ApprovedAt j),
       ScheduledAt := map_option stored_time (ScheduledAt j), CreatedAt := stored_time (CreatedAt j),
       UpdatedAt := stored_time (UpdatedAt j)\<rparr>)"
  "CreateJob j w = (Inl e, w') \<Longrightarrow> job_map w' = job_map w"
proof -
  let ?row = "\<lparr>jr_id = job_id j, encrypted_content = EncryptedContent j, payload_hash = PayloadHash j,
           post_to_x = boolInt (PostToX j), post_to_nostr = boolInt (PostToNostr j), jr_state = job_state j,
           approved_at = nullTime (ApprovedAt j), scheduled_at = nullTime (ScheduledAt j),
           created_at = millis (CreatedAt j), updated_at = millis (UpdatedAt j),
           last_nostr_country = LastNostrCountry j, content_destroyed = boolInt (ContentDestroyed j)\<rparr>"
  have scan: "scanJob ?row = j\<lparr>ApprovedAt := map_option stored_time (ApprovedAt j),
       ScheduledAt := map_option stored_time (ScheduledAt j), CreatedAt := stored_time (CreatedAt j),
       UpdatedAt := stored_time (UpdatedAt j)\<rparr>"
    by (simp add: scanJob_def timePtr_nullTime stored_time_def)
  show "job_map w' = job_map w" if "CreateJob j w = (Inl e, w')"
    using that exec_Inl by (fastforce simp: CreateJob_def wrap_err_eq_Inl job_map_def fun_eq_iff)
  assume "CreateJob j w = (Inr u, w')"
  then have "exec (insert_job ?row) w = (Inr u, w')" by (simp add: CreateJob_def)
  from exec_Inr [OF this] have "insert_job ?row (db w) = Inr (u, db w')" by simp
  then have new: "job_id j \<notin> jr_id ` set (t_jobs (db w))" and d: "db w' = (db w)\<lparr>t_jobs := t_jobs (db w) @ [?row]\<rparr>"
    by (auto simp: insert_job_def split: if_splits)
  have none: "find_job (job_id j) (db w) = None" using new by (simp add: find_job_None job_ids_def)
  have app: "find P (xs @ [y]) = (case find P xs of None \<Rightarrow> if P y then Some y else None | Some x \<Rightarrow> Some x)"
    for P xs and y :: job_row by (induction xs) auto
  have "find_job k (db w') = (if k = job_id j then Some ?row else find_job k (db w))" for k
    using none by (simp add: find_job_def d app split: option.split)
  then have "job_map w' = (job_map w)(job_id j \<mapsto> scanJob ?row)" by (auto simp: job_map_def fun_eq_iff)
  then show "job_map w (job_id j) = None \<and>
     job_map w' = (job_map w)(job_id j \<mapsto> j\<lparr>ApprovedAt := map_option stored_time (ApprovedAt j),
       ScheduledAt := map_option stored_time (ScheduledAt j), CreatedAt := stored_time (CreatedAt j),
       UpdatedAt := stored_time (UpdatedAt j)\<rparr>)"
    unfolding scan using none by (simp add: job_map_def)
qed

lemma ApproveJob_map:
  assumes "store_inv w"
  shows "ApproveJob k h t w = (Inr u, w') \<Longrightarrow> \<exists>j. job_map w k = Some j \<and> job_state j = StateDraft \<and> \<not> ContentDestroyed j \<and>
     job_map w' = (job_map w)(k \<mapsto> j\<lparr>PayloadHash := h, job_state := StateApproved,
       ApprovedAt := Some (stored_time t), UpdatedAt := stored_time t\<rparr>)"
    and "ApproveJob k h t w = (Inl e, w') \<Longrightarrow> job_map w' = job_map w"
proof -
  note out = cas_job_map [OF assms, of "\<lambda>r. r\<lparr>payload_hash := h, jr_state := StateApproved, approved_at := Some (millis t),
      updated_at := millis t\<rparr>" "\<lambda>j. j\<lparr>PayloadHash := h, job_state := StateApproved,
       ApprovedAt := Some (stored_time t), UpdatedAt := stored_time t\<rparr>"
      k "\<lambda>r. jr_state r = StateDraft \<and> content_destroyed r = 0" _ w', folded ApproveJob_cas]
  show "ApproveJob k h t w = (Inl e, w') \<Longrightarrow> job_map w' = job_map w"
    using out [of "Inl e"] by (simp add: scanJob_def timePtr_def stored_time_def)
  assume "ApproveJob k h t w = (Inr u, w')"
  then obtain r where r: "find_job k (db w) = Some r" "jr_state r = StateDraft" "content_destroyed r = 0"
      "job_map w' = (job_map w)(k \<mapsto> (scanJob r)\<lparr>PayloadHash := h, job_state := StateApproved,
         ApprovedAt := Some (stored_time t), UpdatedAt := stored_time t\<rparr>)"
    using out [of "Inr u"] by (auto simp: scanJob_def timePtr_def stored_time_def)
  have "job_map w k = Some (scanJob r)" "job_state (scanJob r) = StateDraft" "\<not> ContentDestroyed (scanJob r)"
    using r(1-3) by (simp_all add: job_map_def scanJob_def)
  then show "\<exists>j. job_map w k = Some j \<and> job_state j = StateDraft \<and> \<not> ContentDestroyed j \<and>
     job_map w' = (job_map w)(k \<mapsto> j\<lparr>PayloadHash := h, job_state := StateApproved,
       ApprovedAt := Some (stored_time t), UpdatedAt := stored_time t\<rparr>)"
    using r(4) by blast
qed

lemma TransitionJob_map:
  assumes "store_inv w"
  shows "TransitionJob k a b t w = (Inr u, w') \<Longrightarrow> CanTransition a b \<and> (\<exists>j. job_map w k = Some j \<and> job_state j = a \<and>
     job_map w' = (job_map w)(k \<mapsto> j\<lparr>job_state := b, UpdatedAt := stored_time t\<rparr>))"
    and "TransitionJob k a b t w = (Inl e, w') \<Longrightarrow> job_map w' = job_map w"
proof -
  note out = cas_job_map [OF assms, of "\<lambda>r. r\<lparr>jr_state := b, updated_at := millis t\<rparr>"
      "\<lambda>j. j\<lparr>job_state := b, UpdatedAt := stored_time t\<rparr>" k "\<lambda>r. jr_state r = a" _ w']
  show "TransitionJob k a b t w = (Inl e, w') \<Longrightarrow> job_map w' = job_map w"
    using out [of "Inl e"]
    by (auto simp: TransitionJob_cas ValidateTransition_def scanJob_def stored_time_def ebind_eq_Inl split: if_splits)
  assume t: "TransitionJob k a b t w = (Inr u, w')"
  then have c: "CanTransition a b" by (auto simp: TransitionJob_cas ValidateTransition_def ebind_eq_Inr split: if_splits)
  with t obtain r where r: "find_job k (db w) = Some r" "jr_state r = a"
      "job_map w' = (job_map w)(k \<mapsto> (scanJob r)\<lparr>job_state := b, UpdatedAt := stored_time t\<rparr>)"
    using out [of "Inr u"] by (auto simp: TransitionJob_cas ValidateTransition_def scanJob_def stored_time_def)
  have "job_map w k = Some (scanJob r)" "job_state (scanJob r) = a" using r(1,2) by (simp_all add: job_map_def scanJob_def)
  then show "CanTransition a b \<and> (\<exists>j. job_map w k = Some j \<and> job_state j = a \<and>
     job_map w' = (job_map w)(k \<mapsto> j\<lparr>job_state := b, UpdatedAt := stored_time t\<rparr>))"
    using r(3) c by blast
qed

lemma SQLite_Store_simps [simp]:
  "st_CreateJob (SQLite_Store s) = CreateJob" "st_GetJob (SQLite_Store s) = GetJob"
  "st_ListJobs (SQLite_Store s) = ListJobs s" "st_ApproveJob (SQLite_Store s) = ApproveJob"
  "st_TransitionJob (SQLite_Store s) = TransitionJob" "st_DestroyJobContent (SQLite_Store s) = DestroyJobContent"
  "st_AddAudit (SQLite_Store s) = AddAudit s" "st_ListAudit (SQLite_Store s) = ListAudit s"
  "st_SystemState (SQLite_Store s) = SystemState_get" "st_SetEmergencyStop (SQLite_Store s) = SetEmergencyStop"
  by (simp_all add: SQLite_Store_def)

lemma keeps_AddAudit:
  assumes "\<And>d rows n. g (d\<lparr>t_audit := rows, audit_seq := n\<rparr>) = g d"
  shows "keeps (\<lambda>w. g (db w)) (AddAudit s ev)"
proof -
  have "keeps (\<lambda>w. g (db w)) (exec (insert_audit r))" for r
    by (rule exec_keeps) (auto simp: insert_audit_def assms)
  moreover have "ambient_free (\<lambda>w. g (db w))" by (simp add: ambient_free_def)
  ultimately show ?thesis
    unfolding AddAudit_def by (auto intro!: keeps_ebind keeps_wrap_err keeps_Seal split: option.splits)
qed

lemma keeps_system_update:
  "keeps (\<lambda>w. t_system (db w)) (exec (update_jobs P f))" "keeps (\<lambda>w. t_system (db w)) (exec (insert_job r))"
  by (rule exec_keeps; auto simp: update_jobs_def insert_job_def split: if_splits)+

lemma keeps_system_of: "keeps (\<lambda>w. t_system (db w)) m \<Longrightarrow> keeps system_of m"
  by (simp add: keeps_def system_of_def)

lemma keeps_job_map: "keeps (\<lambda>w. t_jobs (db w)) m \<Longrightarrow> keeps job_map m"
  by (simp add: keeps_def job_map_def find_job_def fun_eq_iff)

lemma keeps_requireOne: "keeps g (requireOne n)"
  by (simp add: requireOne_def)

interpretation sqlite: job_store "SQLite_Store s" job_map system_of store_inv stored_time for s
proof (unfold_locales, simp_all only: SQLite_Store_simps)
  show "ambient_free job_map" "ambient_free system_of" "ambient_free store_inv"
    by (simp_all add: ambient_free_def job_map_def system_of_def fun_eq_iff)
  show "preserves store_inv (GetJob k)" "preserves store_inv (ListJobs s n)" "preserves store_inv (ListAudit s n)"
    "preserves store_inv SystemState_get" for k n
    by (simp_all add: preserves_def)
  show "keeps job_map (GetJob k)" "keeps job_map (ListJobs s n)" "keeps job_map (ListAudit s n)" "keeps job_map SystemState_get"
    "keeps system_of (GetJob k)" "keeps system_of (ListJobs s n)" "keeps system_of (ListAudit s n)"
    "keeps system_of SystemState_get" for k n
    by (intro keeps_of_db keeps_db_GetJob keeps_db_ListJobs keeps_db_ListAudit keeps_db_SystemState)+
  show "keeps job_map (AddAudit s ev)" "keeps system_of (AddAudit s ev)" for ev
    by (intro keeps_job_map keeps_system_of keeps_AddAudit; simp)+
  show "keeps job_map (SetEmergencyStop flg why t)" for flg why t
    unfolding SetEmergencyStop_def by (intro keeps_job_map exec_keeps) auto
  show "keeps system_of (CreateJob j)" "keeps system_of (ApproveJob k h t)" "keeps system_of (TransitionJob k a b t)" for j k h t a b
    unfolding CreateJob_def ApproveJob_def TransitionJob_def
    by (intro keeps_system_of keeps_ebind keeps_wrap_err keeps_system_update keeps_lift keeps_requireOne)+
  show "GetJob k w = (Inr j, w') \<Longrightarrow> job_map w k = Some j" for k w j w'
    by (auto simp: GetJob_def ebind_eq_Inr job_map_def dest!: query_outcome split: option.splits) (metis)
  show "SystemState_get w = (Inr st, w') \<Longrightarrow> system_of w = Some st" for w st w'
    by (auto simp: SystemState_get_def ebind_eq_Inr system_of_def dest!: query_outcome split: option.splits) (metis)
  show "SetEmergencyStop flg why t w = (Inr u, w') \<Longrightarrow> system_of w \<noteq> None \<longrightarrow>
      system_of w' = Some \<lparr>EmergencyStopped = flg, StopReason = why, StopUpdatedAt = stored_time t\<rparr>" for flg why t w u w'
    by (auto simp: SetEmergencyStop_def system_of_def stored_time_def dest!: exec_put)
  show "SetEmergencyStop flg why t w = (Inl err, w') \<Longrightarrow> system_of w' = system_of w" for flg why t w err w'
    by (auto simp: SetEmergencyStop_def system_of_def dest!: exec_Inl)
qed (rule inv_writes CreateJob_map ApproveJob_map TransitionJob_map; assumption?)+

section \<open>Properties\<close>

text \<open>A job found before a sequence of calls is found after it, as far as \<open>evolves\<close> allows it to change.\<close>

lemma run_svcs_job:
  assumes "store sv = SQLite_Store s" and "store_inv w" and "job_map w k = Some j"
  obtains j' where "job_map (run_svcs sv ops w) k = Some j'" and "evolves j j'" and "store_inv (run_svcs sv ops w)"
  using sqlite.run_svcs_evolves [OF assms(1,2), of ops] assms(3) unfolding jobs_evolve_def by blast

text \<open>
  C17: what is dispatched is what was previewed and approved. If a job was previewed, then approved
  under some hash, and is then released for dispatch, with any other service calls between these
  steps, the approval carried the hash of the preview, and the released content, destinations and
  schedule are the previewed ones and hash to it; the job is approved and not stopped, and its
  schedule has passed.
\<close>

theorem dispatch_is_approved_preview:
  assumes "store sv = SQLite_Store s" and "store_inv w"
    and "Preview_get sv k w = (Inr pv, w1)"
    and "Approve sv k h (run_svcs sv ops1 w1) = (Inr (), w2)"
    and "PayloadForDispatch sv k (run_svcs sv ops2 w2) = (Inr p, w3)"
  shows "h = pv_hash pv \<and> ap_content p = pv_content pv \<and> PostToX (ap_job p) = PostToX (pv_job pv) \<and>
    PostToNostr (ap_job p) = PostToNostr (pv_job pv) \<and> ScheduledAt (ap_job p) = ScheduledAt (pv_job pv) \<and>
    ApprovalHash (ap_content p) (PostToX (ap_job p)) (PostToNostr (ap_job p)) (schedule_text (ap_job p)) = Inr h \<and>
    job_state (ap_job p) = StateApproved \<and>
    (\<exists>sys. system_of (run_svcs sv ops2 w2) = Some sys \<and> \<not> EmergencyStopped sys) \<and>
    (\<forall>t. ScheduledAt (ap_job p) = Some t \<longrightarrow> t \<le> clock w3 (ticks w3 - 1))"
proof -
  let ?e = "svc_sealer sv"
  have pv: "job_map w k = Some (pv_job pv)" "hash_of ?e k (pv_job pv) (pv_content pv) (pv_hash pv)"
    using sqlite.Preview_Inr [OF assms(1,3)] by auto
  have w1: "store_inv w1" "job_map w1 = job_map w"
    using sqlite.quietD [OF sqlite.quiet_Preview [OF assms(1)] assms(3)] assms(2) by auto
  obtain j1 where j1: "job_map (run_svcs sv ops1 w1) k = Some j1" "evolves (pv_job pv) j1"
      "store_inv (run_svcs sv ops1 w1)"
    using run_svcs_job [OF assms(1) w1(1)] pv(1) w1(2) by metis
  have ap: "store_inv w2" "sqlite.approved ?e k h (run_svcs sv ops1 w1) w2"
    using sqlite.Approve_outcome [OF assms(1,4) j1(3)] by auto
  then obtain pt t where h: "hash_of ?e k j1 pt h" "job_state j1 = StateDraft" and j2: "job_map w2 k = Some (j1\<lparr>PayloadHash := h, job_state := StateApproved,
       ApprovedAt := Some (stored_time t), UpdatedAt := stored_time t\<rparr>)"
    using j1(1) unfolding sqlite.approved_def by auto
  have eq: "h = pv_hash pv" using hash_of_unique [OF hash_of_evolves [OF pv(2) j1(2)] h(1)] by simp
  obtain j3 where j3: "job_map (run_svcs sv ops2 w2) k = Some j3" and ev: "evolves (j1\<lparr>PayloadHash := h,
       job_state := StateApproved, ApprovedAt := Some (stored_time t), UpdatedAt := stored_time t\<rparr>) j3"
    using run_svcs_job [OF assms(1) ap(1) j2] by metis
  have ev3: "PayloadHash j3 = h" "evolves (pv_job pv) j3" using ev j1(2) h(2) by (auto simp: evolves_def)
  note pay = sqlite.Payload_Inr [OF assms(1,5)]
  have p: "ap_job p = j3" using pay j3(1) by simp
  have "ap_content p = pv_content pv"
    using hash_of_unique [OF hash_of_evolves [OF pv(2) ev3(2)]] pay p by blast
  moreover have "PostToX j3 = PostToX (pv_job pv)" "PostToNostr j3 = PostToNostr (pv_job pv)" "ScheduledAt j3 = ScheduledAt (pv_job pv)"
    using ev3(2) by (simp_all add: evolves_def)
  moreover have "ApprovalHash (ap_content p) (PostToX (ap_job p)) (PostToNostr (ap_job p)) (schedule_text (ap_job p)) = Inr h"
    using pay p ev3(1) by (simp add: hash_of_def)
  ultimately show ?thesis using pay p eq by simp
qed

text \<open>
  C18: while the emergency stop is set nothing is approved and nothing is released. After a
  successful stop, and until the next call that sets or clears it, every approval and every release
  fails, no job changes, and, as long as the database answers, the error carries the stop's reason.
\<close>

theorem emergency_stop_blocks:
  assumes "store sv = SQLite_Store s" and "store_inv w" and "EmergencyStop sv True why w = (Inr (), w1)"
    and "\<And>flg r. OpStop flg r \<notin> set ops"
  defines "w2 \<equiv> run_svcs sv ops w1"
    and "err \<equiv> Errorf ''emergency stop is active: %s'' [ArgS (if why = [] then ''operator activated emergency stop'' else why)] None"
  shows "(\<exists>e w3. Approve sv k h w2 = (Inl e, w3) \<and> job_map w3 = job_map w2 \<and> (faults w2 = [] \<longrightarrow> e = err)) \<and>
    (\<exists>e w3. PayloadForDispatch sv k w2 = (Inl e, w3) \<and> job_map w3 = job_map w2 \<and> (faults w2 = [] \<longrightarrow> e = err))"
proof -
  have inv: "store_inv w1" "store_inv w2"
    using sqlite.EmergencyStop_outcome [OF assms(1,3,2)] sqlite.run_svcs_evolves [OF assms(1)] unfolding w2_def by blast+
  have "system_of w \<noteq> None" using assms(2) by (auto simp: db_inv_def system_of_def)
  then obtain st where st: "system_of w2 = Some st" "EmergencyStopped st" "emergency_error st = err"
    using sqlite.EmergencyStop_outcome [OF assms(1,3,2)] sqlite.run_svcs_stop [OF assms(1) inv(1) assms(4)]
    by (auto simp: w2_def emergency_error_def err_def)
  obtain r w3 where r: "SystemState_get w2 = (r, w3)" by fastforce
  have same: "job_map w3 = job_map w2" using keepsD [OF keeps_of_db(1) [OF keeps_db_SystemState] r] .
  have rcases: "(\<exists>e. r = Inl e) \<or> r = Inr st" using sqlite.system [of s w2 _ w3] r st(1) by (cases r) auto
  have nf: "r = Inr st" if "faults w2 = []"
    using that r st(1) by (auto simp: SystemState_get_def system_of_def split: option.splits)
  have "\<exists>e. (Approve sv k h w2 = (Inl e, w3) \<and> PayloadForDispatch sv k w2 = (Inl e, w3)) \<and> (faults w2 = [] \<longrightarrow> e = err)"
    using rcases nf r st assms(1) by (auto simp: Approve_def PayloadForDispatch_def ebind_def)
  then show ?thesis using same by blast
qed

text \<open>
  C19: a draft reads back. If \<open>CreateDraft\<close> succeeds, then after any other service calls, as long as the
  database answers, the preview of the draft succeeds and gives the normalized content, the chosen
  destinations, the schedule at the store's resolution and the hash that \<open>Approve\<close> will demand.
\<close>

theorem draft_reads_back:
  assumes "store sv = SQLite_Store s" and "store_inv w" and "envelope_ok (svc_sealer sv)"
    and "CreateDraft sv input w = (Inr j, w1)" and "faults (run_svcs sv ops w1) = []"
  shows "\<exists>pv c w2. Preview_get sv (job_id j) (run_svcs sv ops w1) = (Inr pv, w2) \<and>
    NormalizeContent (in_content input) = Inr c \<and> pv_content pv = c \<and>
    PostToX (pv_job pv) = in_post_to_x input \<and> PostToNostr (pv_job pv) = in_post_to_nostr input \<and>
    ScheduledAt (pv_job pv) = map_option stored_time (in_scheduled_at input) \<and>
    ApprovalHash c (in_post_to_x input) (in_post_to_nostr input) (schedule_text (pv_job pv)) = Inr (pv_hash pv)"
proof -
  let ?w = "run_svcs sv ops w1"
  note out = sqlite.CreateDraft_outcome [OF assms(1,4,2)]
  have inv: "store_inv w1" and d: "drafted (svc_sealer sv) input j" and
      m: "job_map w1 (job_id j) = Some (j\<lparr>ScheduledAt := map_option stored_time (ScheduledAt j),
         CreatedAt := stored_time (CreatedAt j), UpdatedAt := stored_time (UpdatedAt j)\<rparr>)"
    using out by auto
  obtain c sealed where c: "NormalizeContent (in_content input) = Inr c" "EncryptedContent j = Some sealed"
      and opn: "Open (svc_sealer sv) sealed (job_id j) = Inr c" "sealed \<noteq> []"
    using d assms(3) unfolding drafted_def by blast
  have dd: "PostToX j = in_post_to_x input" "PostToNostr j = in_post_to_nostr input" "ScheduledAt j = in_scheduled_at input"
      "\<not> ContentDestroyed j" "in_post_to_x input \<or> in_post_to_nostr input"
    using d unfolding drafted_def by auto
  obtain j' where j': "job_map ?w (job_id j) = Some j'" "EncryptedContent j' = Some sealed" "\<not> ContentDestroyed j'"
      "PostToX j' = in_post_to_x input" "PostToNostr j' = in_post_to_nostr input"
      "ScheduledAt j' = map_option stored_time (in_scheduled_at input)"
    using run_svcs_job [OF assms(1) inv m, of ops thesis] c(2) dd by (auto simp: evolves_def)
  obtain h where h: "ApprovalHash c (in_post_to_x input) (in_post_to_nostr input) (schedule_text j') = Inr h"
    using NormalizeContent_idem [OF c(1)] dd(5) by (auto simp: ApprovalHash_Inr)
  have g: "GetJob (job_id j) ?w = (Inr j', ?w)"
    using j'(1) assms(5) by (auto simp: GetJob_def job_map_def)
  have "Preview_get sv (job_id j) ?w = (Inr \<lparr>pv_job = j', pv_content = c, pv_hash = h, pv_x_cost = xEstimatedCharge sv\<rparr>, ?w)"
    using g j' opn h assms(1) by (simp add: Preview_get_def ebind_def)
  then show ?thesis using c(1) j' h by auto
qed

section \<open>From a draft to its release\<close>

text \<open>
  A world in which nothing external fails: the database answers, at least \<open>n\<close> bytes of entropy are
  left, and the clock stays within the years JSON can carry.
\<close>

definition healthy :: "nat \<Rightarrow> 'z sqlite_world_scheme \<Rightarrow> bool" where
  "healthy n w \<longleftrightarrow> faults w = [] \<and> n \<le> length (entropy w) \<and> (\<forall>i. json_year_ok (clock w i))"

lemma healthy_tick [simp]: "healthy n (w\<lparr>ticks := i\<rparr>) = healthy n w"
  by (simp add: healthy_def)

lemma AddAudit_healthy:
  assumes "healthy (56 + n) w" and "\<And>e. sealer s = Some e \<Longrightarrow> envelope_ok e" and "json_year_ok (ev_created_at ev)"
  shows "\<exists>w'. AddAudit s ev w = (Inr (), w') \<and> healthy n w' \<and> clock w' = clock w"
proof (cases "sealer s")
  case None
  then show ?thesis using assms by (simp add: AddAudit_def healthy_def exec_nofault insert_audit_def)
next
  case (Some e)
  from assms(1) have "56 \<le> length (entropy w)" by (simp add: healthy_def)
  note sl = Seal_success [OF assms(2) [OF Some] this]
  show ?thesis
    using assms Some
    by (auto simp: AddAudit_def MarshalEvent_def healthy_def exec_nofault insert_audit_def wrap_err_def ebind_def sl Let_def)
qed

lemma audit_healthy:
  assumes "healthy (56 + n) w" and "\<And>e. sealer s = Some e \<Longrightarrow> envelope_ok e" and "store sv = SQLite_Store s"
  shows "\<exists>w'. audit sv k kind detail w = (Inr (), w') \<and> healthy n w' \<and> clock w' = clock w"
  using AddAudit_healthy [of n "w\<lparr>ticks := Suc (ticks w)\<rparr>" s] assms by (simp add: audit_def healthy_def)

lemma draft_prepare_healthy:
  assumes "healthy (72 + n) w" and "envelope_ok (svc_sealer sv)"
    and "NormalizeContent (in_content input) = Inr c" and "in_post_to_x input \<or> in_post_to_nostr input"
  shows "\<exists>j w'. sqlite.draft_prepare sv input w = (Inr j, w') \<and> healthy n w' \<and> clock w' = clock w \<and>
    job_id j = hex_encode (take 16 (entropy w)) \<and> db w' = db w"
proof -
  have "56 \<le> length (entropy (w\<lparr>entropy := drop 16 (entropy w)\<rparr>))" "16 \<le> length (entropy w)"
    using assms(1) by (auto simp: healthy_def)
  then show ?thesis
    using assms Seal_success [OF assms(2), of "w\<lparr>entropy := drop 16 (entropy w)\<rparr>"]
    by (auto simp: sqlite.draft_prepare_def randomID_def ebind_def Let_def healthy_def)
qed

lemma CreateDraft_healthy:
  assumes "store sv = SQLite_Store s" and "healthy (128 + n) w" and "envelope_ok (svc_sealer sv)"
    and "\<And>e. sealer s = Some e \<Longrightarrow> envelope_ok e"
    and "NormalizeContent (in_content input) = Inr c" and "in_post_to_x input \<or> in_post_to_nostr input"
    and "hex_encode (take 16 (entropy w)) \<notin> set (job_ids (db w))"
  shows "\<exists>j w'. CreateDraft sv input w = (Inr j, w') \<and> healthy n w' \<and> clock w' = clock w"
proof -
  have "healthy (72 + (56 + n)) w" using assms(2) by (simp add: healthy_def)
  then obtain j w1 where p: "sqlite.draft_prepare sv input w = (Inr j, w1)" "healthy (56 + n) w1" "clock w1 = clock w"
      "job_id j = hex_encode (take 16 (entropy w))" "db w1 = db w"
    using draft_prepare_healthy [OF _ assms(3,5,6)] by blast
  then have "job_id j \<notin> jr_id ` set (t_jobs (db w1))" using assms(7) by (simp add: job_ids_def)
  then obtain w2 where c: "CreateJob j w1 = (Inr (), w2)" "healthy (56 + n) w2" "clock w2 = clock w1"
    using p(2) by (simp add: CreateJob_def healthy_def exec_nofault insert_job_def wrap_err_def)
  show ?thesis
    using p(1,3) c(1,3) audit_healthy [OF c(2) assms(4,1)] assms(1)
    by (auto simp: sqlite.CreateDraft_split ebind_def) (metis snd_conv)+
qed

lemma SystemState_get_nofault: "faults w = [] \<Longrightarrow> system_of w = Some st \<Longrightarrow> SystemState_get w = (Inr st, w)"
  by (auto simp: SystemState_get_def system_of_def split: option.splits)

lemma GetJob_nofault: "faults w = [] \<Longrightarrow> job_map w k = Some j \<Longrightarrow> GetJob k w = (Inr j, w)"
  by (auto simp: GetJob_def job_map_def)

lemma Preview_healthy:
  assumes "store sv = SQLite_Store s" and "faults w = []" and "job_map w k = Some j" and "hash_of (svc_sealer sv) k j c h"
  shows "Preview_get sv k w = (Inr \<lparr>pv_job = j, pv_content = c, pv_hash = h, pv_x_cost = xEstimatedCharge sv\<rparr>, w)"
  using assms GetJob_nofault [OF assms(2,3)] by (auto simp: Preview_get_def hash_of_def ebind_def)

lemma Approve_healthy:
  assumes "store sv = SQLite_Store s" and "store_inv w" and "healthy (56 + n) w" and "\<And>e. sealer s = Some e \<Longrightarrow> envelope_ok e"
    and "system_of w = Some sys" and "\<not> EmergencyStopped sys"
    and "job_map w k = Some j" and "job_state j = StateDraft" and "hash_of (svc_sealer sv) k j c h"
  shows "\<exists>w'. Approve sv k h w = (Inr (), w') \<and> healthy n w' \<and> clock w' = clock w"
proof -
  let ?w = "w\<lparr>ticks := Suc (ticks w)\<rparr>" and ?t = "clock w (ticks w)"
  have f: "faults w = []" using assms(3) by (simp add: healthy_def)
  have "h \<noteq> []" using ApprovalHash_shape assms(9) by (fastforce simp: hash_of_def)
  then have chk: "sqlite.approve_check sv k h w =
      (Inr \<lparr>pv_job = j, pv_content = c, pv_hash = h, pv_x_cost = xEstimatedCharge sv\<rparr>, w)"
    using SystemState_get_nofault [OF f assms(5)] Preview_healthy [OF assms(1) f assms(7,9)] assms(1,6,8)
    by (simp add: sqlite.approve_check_def ebind_def)
  obtain r where r: "find_job k (db ?w) = Some r" "jr_state r = StateDraft" "content_destroyed r = 0"
    using assms(2,7-9) find_job_Some
    by (fastforce simp: job_map_def scanJob_def hash_of_def db_inv_def row_ok_def flag_def)
  have d: "distinct (job_ids (db ?w))" using assms(2) by (simp add: db_inv_def)
  have "fst (ApproveJob k h ?t ?w) = Inr ()"
    using cas_job_nofault [OF _ d] f r by (simp add: ApproveJob_cas)
  then obtain w1 where a: "ApproveJob k h ?t ?w = (Inr (), w1)" by (metis prod.collapse)
  then have w1: "healthy (56 + n) w1" "clock w1 = clock w"
    using assms(3) f by (auto simp: ApproveJob_def exec_nofault update_jobs_def requireOne_def healthy_def split: if_splits)
  show ?thesis
    using audit_healthy [OF w1(1) assms(4,1)] w1(2) chk a assms(1) by (simp add: sqlite.Approve_split ebind_def)
qed

lemma Payload_healthy:
  assumes "store sv = SQLite_Store s" and "faults w = []" and "system_of w = Some sys" and "\<not> EmergencyStopped sys"
    and "job_map w k = Some j" and "job_state j = StateApproved" and "hash_of (svc_sealer sv) k j c (PayloadHash j)"
    and "\<And>t. ScheduledAt j = Some t \<Longrightarrow> t \<le> clock w (ticks w)"
  shows "\<exists>w'. PayloadForDispatch sv k w = (Inr \<lparr>ap_job = j, ap_content = c\<rparr>, w')"
  using SystemState_get_nofault [OF assms(2,3)] Preview_healthy [OF assms(1,2,5,7)] assms
  by (auto simp: PayloadForDispatch_def ebind_def not_less split: option.splits)

lemma draft_to_release:
  assumes "store sv = SQLite_Store s" and "store_inv w" and "healthy 184 w" and "envelope_ok (svc_sealer sv)"
    and "\<And>e. sealer s = Some e \<Longrightarrow> envelope_ok e"
    and "system_of w = Some sys" and "\<not> EmergencyStopped sys"
    and "NormalizeContent (in_content input) = Inr c" and "in_post_to_x input \<or> in_post_to_nostr input"
    and "hex_encode (take 16 (entropy w)) \<notin> set (job_ids (db w))"
    and "\<And>t i. in_scheduled_at input = Some t \<Longrightarrow> stored_time t \<le> clock w i"
  shows "\<exists>j w1 pv w2 p w3. CreateDraft sv input w = (Inr j, w1) \<and> Preview_get sv (job_id j) w1 = (Inr pv, w1) \<and>
    Approve sv (job_id j) (pv_hash pv) w1 = (Inr (), w2) \<and> PayloadForDispatch sv (job_id j) w2 = (Inr p, w3) \<and>
    ap_content p = c \<and> faults w1 = []"
proof -
  let ?e = "svc_sealer sv"
  have "healthy (128 + 56) w" using assms(3) by simp
  then obtain j w1 where cr: "CreateDraft sv input w = (Inr j, w1)" "healthy (56 + 0) w1" "clock w1 = clock w"
    using CreateDraft_healthy [OF assms(1) _ assms(4,5,8,9,10), of 56] by auto
  let ?j = "j\<lparr>ScheduledAt := map_option stored_time (ScheduledAt j), CreatedAt := stored_time (CreatedAt j),
      UpdatedAt := stored_time (UpdatedAt j)\<rparr>"
  have w1: "store_inv w1" "system_of w1 = Some sys" "job_map w1 (job_id j) = Some ?j" and d: "drafted ?e input j"
    using sqlite.CreateDraft_outcome [OF assms(1) cr(1) assms(2)] assms(6) by auto
  obtain h where h: "ApprovalHash c (PostToX j) (PostToNostr j) (schedule_text ?j) = Inr h"
    using NormalizeContent_idem [OF assms(8)] d by (auto simp: ApprovalHash_Inr drafted_def)
  then have ho: "hash_of ?e (job_id j) ?j c h" using d assms(4,8) by (auto simp: hash_of_def drafted_def)
  have f1: "faults w1 = []" using cr(2) by (simp add: healthy_def)
  have st: "job_state ?j = StateDraft" using d by (simp add: drafted_def)
  obtain w2 where ap: "Approve sv (job_id j) h w1 = (Inr (), w2)" "healthy 0 w2" "clock w2 = clock w1"
    using Approve_healthy [OF assms(1) w1(1) cr(2) assms(5) w1(2) assms(7) w1(3) st ho] by blast
  have ap2: "system_of w2 = Some sys" "sqlite.approved ?e (job_id j) h w1 w2"
    using sqlite.Approve_outcome [OF assms(1) ap(1) w1(1)] w1(2) by auto
  then obtain t where j2: "job_map w2 (job_id j) = Some (?j\<lparr>PayloadHash := h, job_state := StateApproved,
       ApprovedAt := Some (stored_time t), UpdatedAt := stored_time t\<rparr>)"
    using w1(3) unfolding sqlite.approved_def by auto
  let ?j2 = "?j\<lparr>PayloadHash := h, job_state := StateApproved, ApprovedAt := Some (stored_time t), UpdatedAt := stored_time t\<rparr>"
  have sched: "t' \<le> clock w2 (ticks w2)" if "ScheduledAt ?j2 = Some t'" for t'
    using that assms(11) d ap(3) cr(3) by (auto simp: drafted_def)
  have h2: "hash_of ?e (job_id j) ?j2 c (PayloadHash ?j2)" "job_state ?j2 = StateApproved"
    using ho by (simp_all add: hash_of_def schedule_text_def)
  have f2: "faults w2 = []" using ap(2) by (simp add: healthy_def)
  from Payload_healthy [OF assms(1) f2 ap2(1) assms(7) j2 h2(2,1) sched] obtain w3 where
    "PayloadForDispatch sv (job_id j) w2 = (Inr \<lparr>ap_job = ?j2, ap_content = c\<rparr>, w3)" by blast
  moreover note Preview_healthy [OF assms(1) f1 w1(3) ho]
  ultimately show ?thesis
    by (intro exI [of _ j] exI [of _ w1] exI [of _ "\<lparr>pv_job = ?j, pv_content = c, pv_hash = h, pv_x_cost = xEstimatedCharge sv\<rparr>"]
        exI [of _ w2] exI [of _ "\<lparr>ap_job = ?j2, ap_content = c\<rparr>"] exI [of _ w3])
      (simp add: cr(1) ap(1) f1)
qed

definition sample_service :: "sqlite_world Service" where
  "sample_service = NewService (SQLite_Store \<lparr>sealer = None\<rparr>) \<lparr>master = replicate 32 CHR 0x01\<rparr> []"

definition service_world :: sqlite_world where
  "service_world = sample_jobs\<lparr>clock := \<lambda>_. y2000\<rparr>"

definition sample_input :: CreateDraftInput where
  "sample_input = \<lparr>in_content = sample_post, in_post_to_x = True, in_post_to_nostr = False, in_scheduled_at = Some 1000000\<rparr>"

lemma sample_service_facts:
  "store sample_service = SQLite_Store \<lparr>sealer = None\<rparr>" "envelope_ok (svc_sealer sample_service)"
  "store_inv service_world" "faults service_world = []" "healthy 184 service_world"
  "system_of service_world = Some \<lparr>EmergencyStopped = False, StopReason = [], StopUpdatedAt = zero_time\<rparr>"
  "hex_encode (take 16 (entropy service_world)) \<notin> set (job_ids (db service_world))"
  using sample_jobs_inv(1) year_y2000
  by (simp_all add: sample_service_def NewService_def envelope_ok_def service_world_def)
    (auto simp: healthy_def sample_jobs_def sample_store_def system_of_def fromMillis_def job_ids_def sample_row_def
      empty_db_def dest: arg_cong [of _ _ length])

lemma sample_draft_to_release:
  "\<exists>j w1 pv w2 p w3. CreateDraft sample_service sample_input service_world = (Inr j, w1) \<and>
    Preview_get sample_service (job_id j) w1 = (Inr pv, w1) \<and>
    Approve sample_service (job_id j) (pv_hash pv) w1 = (Inr (), w2) \<and>
    PayloadForDispatch sample_service (job_id j) w2 = (Inr p, w3) \<and> ap_content p = [CHR ''h'', CHR ''i'', LF, CHR ''!''] \<and>
    faults w1 = []"
proof (rule draft_to_release [where s = "\<lparr>sealer = None\<rparr>" and
      sys = "\<lparr>EmergencyStopped = False, StopReason = [], StopUpdatedAt = zero_time\<rparr>"])
  show "NormalizeContent (in_content sample_input) = Inr [CHR ''h'', CHR ''i'', LF, CHR ''!'']"
    using normalize_sample by (simp add: sample_input_def)
  show "stored_time t \<le> clock service_world i" if "in_scheduled_at sample_input = Some t" for t i
    using that by (auto simp: sample_input_def service_world_def stored_time_def fromMillis_def millis_def UnixMilli_def y2000_def)
qed (use sample_service_facts in \<open>simp_all add: sample_input_def\<close>)

theorem dispatch_is_approved_preview_witness:
  "\<exists>j w1 pv w2 p w3. CreateDraft sample_service sample_input service_world = (Inr j, w1) \<and>
    Preview_get sample_service (job_id j) w1 = (Inr pv, w1) \<and>
    Approve sample_service (job_id j) (pv_hash pv) w1 = (Inr (), w2) \<and>
    PayloadForDispatch sample_service (job_id j) w2 = (Inr p, w3) \<and> ap_content p = pv_content pv"
proof -
  obtain j w1 pv w2 p w3 where c: "CreateDraft sample_service sample_input service_world = (Inr j, w1)" and
      r: "Preview_get sample_service (job_id j) w1 = (Inr pv, w1)"
      "Approve sample_service (job_id j) (pv_hash pv) w1 = (Inr (), w2)"
      "PayloadForDispatch sample_service (job_id j) w2 = (Inr p, w3)"
    using sample_draft_to_release by blast
  note f = sample_service_facts(1)
  have "store_inv w1" using sqlite.CreateDraft_outcome [OF f c sample_service_facts(3)] by simp
  then have "ap_content p = pv_content pv"
    using dispatch_is_approved_preview [OF f _ r(1), of "pv_hash pv" "[]" w2 "[]" p w3] r by simp
  with c r show ?thesis by blast
qed

text \<open>
  The switch and its audit event are two statements: when the second one fails, \<open>EmergencyStop\<close> reports
  an error although the switch has taken effect, and no event records it. The same holds for releasing
  the stop.
\<close>

lemma stop_stands_without_audit:
  assumes "store sv = SQLite_Store s" and "faults w = None # Some err # fs" and "system_of w \<noteq> None"
    and "sealer s = None"
  shows "fst (EmergencyStop sv flg why w) = Inl err"
    and "map_option EmergencyStopped (system_of (snd (EmergencyStop sv flg why w))) = Some flg"
    and "t_audit (db (snd (EmergencyStop sv flg why w))) = t_audit (db w)"
  using assms
  by (auto simp: EmergencyStop_def SetEmergencyStop_def audit_def AddAudit_def exec_def sql_def system_of_def
      ebind_def Let_def now_def boolInt_def)

theorem emergency_stop_blocks_witness:
  "\<exists>w1 e w3. EmergencyStop sample_service True ''drill'' service_world = (Inr (), w1) \<and>
     Approve sample_service ''job-1'' ''x'' (run_svcs sample_service [OpCancel ''job-1''] w1) = (Inl e, w3)"
proof -
  note f = sample_service_facts
  obtain w1 where w1: "EmergencyStop sample_service True ''drill'' service_world = (Inr (), w1)"
    using f(1,4) by (simp add: EmergencyStop_def SetEmergencyStop_def audit_def AddAudit_def exec_nofault insert_audit_def ebind_def Let_def)
  show ?thesis
    using emergency_stop_blocks [OF f(1,3) w1, of "[OpCancel ''job-1'']" "''job-1''" "''x''"] w1 by auto
qed

theorem draft_reads_back_witness:
  "\<exists>j w1 pv w2. CreateDraft sample_service sample_input service_world = (Inr j, w1) \<and>
     Preview_get sample_service (job_id j) w1 = (Inr pv, w2) \<and> pv_content pv = [CHR ''h'', CHR ''i'', LF, CHR ''!'']"
proof -
  obtain j w1 where c: "CreateDraft sample_service sample_input service_world = (Inr j, w1)" "faults w1 = []"
    using sample_draft_to_release by blast
  have "NormalizeContent (in_content sample_input) = Inr [CHR ''h'', CHR ''i'', LF, CHR ''!'']"
    using normalize_sample by (simp add: sample_input_def)
  then show ?thesis
    using draft_reads_back [OF sample_service_facts(1,3,2) c(1), of "[]"] c by auto
qed

text \<open>
  C20: the whole path succeeds. In a world where nothing external fails and the stop is off, every
  valid input can be drafted, previewed, approved with the preview's hash and, once its schedule has
  passed, released with the normalized content.
\<close>

theorem draft_can_be_released:
  assumes "store sv = SQLite_Store s" and "store_inv w" and "healthy 184 w" and "envelope_ok (svc_sealer sv)"
    and "\<And>e. sealer s = Some e \<Longrightarrow> envelope_ok e"
    and "system_of w = Some sys" and "\<not> EmergencyStopped sys"
    and "NormalizeContent (in_content input) = Inr c" and "in_post_to_x input \<or> in_post_to_nostr input"
    and "hex_encode (take 16 (entropy w)) \<notin> set (job_ids (db w))"
    and "\<And>t i. in_scheduled_at input = Some t \<Longrightarrow> stored_time t \<le> clock w i"
  shows "\<exists>j w1 pv w2 p w3. CreateDraft sv input w = (Inr j, w1) \<and> Preview_get sv (job_id j) w1 = (Inr pv, w1) \<and>
    Approve sv (job_id j) (pv_hash pv) w1 = (Inr (), w2) \<and> PayloadForDispatch sv (job_id j) w2 = (Inr p, w3) \<and>
    ap_content p = c"
  using draft_to_release [OF assms] by blast

theorem draft_can_be_released_witness:
  "\<exists>j w1 pv w2 p w3. CreateDraft sample_service sample_input service_world = (Inr j, w1) \<and>
    Preview_get sample_service (job_id j) w1 = (Inr pv, w1) \<and>
    Approve sample_service (job_id j) (pv_hash pv) w1 = (Inr (), w2) \<and>
    PayloadForDispatch sample_service (job_id j) w2 = (Inr p, w3) \<and> ap_content p = [CHR ''h'', CHR ''i'', LF, CHR ''!'']"
proof (rule draft_can_be_released [where s = "\<lparr>sealer = None\<rparr>" and
      sys = "\<lparr>EmergencyStopped = False, StopReason = [], StopUpdatedAt = zero_time\<rparr>"])
  show "NormalizeContent (in_content sample_input) = Inr [CHR ''h'', CHR ''i'', LF, CHR ''!'']"
    using normalize_sample by (simp add: sample_input_def)
  show "stored_time t \<le> clock service_world i" if "in_scheduled_at sample_input = Some t" for t i
    using that by (auto simp: sample_input_def service_world_def stored_time_def fromMillis_def millis_def UnixMilli_def y2000_def)
qed (use sample_service_facts in \<open>simp_all add: sample_input_def\<close>)

end
