(* ===== verification/Platform.thy ===== *)
theory Platform
  imports Go_Text Go_JSON Go_Crypto
begin

text \<open>
  Package \<open>internal/platform\<close>, the shared part: commands, receipts and normalized errors
  (\<open>contracts.go\<close>, \<open>errors.go\<close>), and the requests and responses of the HTTP client that the X
  connector and the OAuth manager use.
\<close>

section \<open>Contracts (contracts.go)\<close>

definition PubPlatformX :: string where "PubPlatformX = ''x''"
definition PubPlatformNostr :: string where "PubPlatformNostr = ''nostr''"

datatype PublicationState = PubComplete | PubPartial | PubFailed | PubUnknown

record PublishCommand =
  pc_job_id :: string
  pc_content :: string
  pc_payload_hash_hex :: string
  pc_egress_policy_id :: string

record RelayResult =
  rl_endpoint_id :: string
  rl_accepted :: bool
  rl_code :: string

record Receipt =
  pr_platform :: string
  pr_state :: PublicationState
  pr_external_id :: string
  pr_attempt_count :: int
  pr_country_code :: string
  pr_relay_results :: "RelayResult list"
  pr_created_at :: time

text \<open>
  \<open>Publish\<close> returns a receipt and an error together; the model's result is the pair, so the
  computation itself never fails.
\<close>

type_synonym 'w publish = "PublishCommand \<Rightarrow> ('w, Receipt \<times> go_error option) act"

record 'w Connector =
  connector_Publish :: "'w publish"

text \<open>\<open>x, err := f()\<close> where the code goes on after an error: the outcome as a value.\<close>

definition attempt :: "('w, 'a) act \<Rightarrow> ('w, go_error + 'a) act" where
  "attempt m w = (let (r, w') = m w in (Inr r, w'))"

lemma attempt_eq [simp]: "attempt m w = (Inr r, w') \<longleftrightarrow> m w = (r, w')"
  by (auto simp: attempt_def split: prod.splits)

lemma attempt_never_fails [simp]: "attempt m w \<noteq> (Inl e, w')"
  by (simp add: attempt_def split: prod.splits)

lemma ebind_attempt: "ebind (attempt m) f w = (case m w of (r, w') \<Rightarrow> f r w')"
  by (simp add: ebind_def attempt_def split: prod.splits)

section \<open>Errors (errors.go)\<close>

definition ErrInvalidPayload :: error_code where "ErrInvalidPayload = ''invalid_payload''"
definition ErrUnauthorized :: error_code where "ErrUnauthorized = ''unauthorized''"
definition ErrForbidden :: error_code where "ErrForbidden = ''forbidden''"
definition ErrRateLimited :: error_code where "ErrRateLimited = ''rate_limited''"
definition ErrRemoteRejected :: error_code where "ErrRemoteRejected = ''remote_rejected''"
definition ErrTemporary :: error_code where "ErrTemporary = ''temporary_failure''"
definition ErrAmbiguous :: error_code where "ErrAmbiguous = ''ambiguous_result''"
definition ErrResponseTooLarge :: error_code where "ErrResponseTooLarge = ''response_too_large''"
definition ErrProtocol :: error_code where "ErrProtocol = ''protocol_error''"
definition ErrSigning :: error_code where "ErrSigning = ''signing_failure''"

text \<open>\<open>&PlatformError{Platform: p, Code: c, Message: m, cause: x}\<close>, the other fields zero.\<close>

definition platform_error :: "string \<Rightarrow> error_code \<Rightarrow> string \<Rightarrow> go_error option \<Rightarrow> go_error" where
  "platform_error p c m x = PlatformError p c 0 0 m False x"

fun PlatformError_Error :: "go_error \<Rightarrow> string" where
  "PlatformError_Error (PlatformError p c h r m a x) =
     (if m \<noteq> [] then p @ '' publish: '' @ m else p @ '' publish: '' @ c)"
| "PlatformError_Error _ = ''<nil>''"

definition ErrorCodeOf :: "go_error \<Rightarrow> error_code \<times> bool" where
  "ErrorCodeOf err = (case errors_As_platform err of None \<Rightarrow> ([], False) | Some e \<Rightarrow> (pe_code e, True))"

section \<open>HTTP\<close>

text \<open>
  A request as the code builds it, and the outcome of \<open>client.Do\<close> over the injected transport: an
  error, or a status, the headers the code reads and the body, which may itself fail while it is
  read. The client has redirects switched off, so one \<open>Do\<close> is one exchange with the transport.
\<close>

record http_request =
  rq_method :: string
  rq_url :: string
  rq_header :: "(string \<times> string) list"
  rq_body :: bytes

datatype body = Body bytes | BrokenBody go_error

record http_response =
  rs_status :: int
  rs_header :: "string \<Rightarrow> string"
  rs_body :: body

type_synonym 'w round_tripper = "http_request \<Rightarrow> ('w, http_response) act"

text \<open>\<open>readBounded\<close> (x.go): the data unless it is longer than the maximum; reading stops one byte beyond it.\<close>

definition readBounded :: "body \<Rightarrow> nat \<Rightarrow> go_error + (bytes \<times> bool)" where
  "readBounded reader maximum =
     (case reader of
        BrokenBody err \<Rightarrow> Inl err
      | Body data \<Rightarrow> (let data = take (maximum + 1) data in if length data > maximum then Inr ([], True) else Inr (data, False)))"

lemma readBounded_Inr:
  "readBounded r n = Inr (d, False) \<longleftrightarrow> r = Body d \<and> length d \<le> n"
  by (cases r) (auto simp: readBounded_def Let_def)

lemma readBounded_large: "readBounded r n = Inr (d, True) \<longleftrightarrow> d = [] \<and> (\<exists>b. r = Body b \<and> n < length b)"
  by (cases r) (auto simp: readBounded_def Let_def)

end
