(* ===== verification/Go_URL.thy ===== *)
theory Go_URL
  imports Go_Text
begin

text \<open>
  Package \<open>net/url\<close> as far as the program uses it: \<open>Parse\<close>, \<open>Hostname\<close>, \<open>Port\<close>, and the encoding of query
  values. A URL is a record of the parts that the code reads.
\<close>

section \<open>Cutting strings\<close>

text \<open>\<open>strings.Cut\<close> at one byte: what is before and what is after its first occurrence.\<close>

definition Cut :: "char \<Rightarrow> string \<Rightarrow> string \<times> string" where
  "Cut c s = (takeWhile (\<lambda>x. x \<noteq> c) s, tl (dropWhile (\<lambda>x. x \<noteq> c) s))"

text \<open>Cutting at the last occurrence, if there is one.\<close>

definition CutLast :: "char \<Rightarrow> string \<Rightarrow> (string \<times> string) option" where
  "CutLast c s =
     (if c \<in> set s
      then Some (rev (tl (dropWhile (\<lambda>x. x \<noteq> c) (rev s))), rev (takeWhile (\<lambda>x. x \<noteq> c) (rev s)))
      else None)"

definition HasPrefix :: "string \<Rightarrow> string \<Rightarrow> bool" where
  "HasPrefix s p \<longleftrightarrow> take (length p) s = p"

definition HasSuffix :: "string \<Rightarrow> string \<Rightarrow> bool" where
  "HasSuffix s p \<longleftrightarrow> length p \<le> length s \<and> drop (length s - length p) s = p"

fun split_on :: "char \<Rightarrow> string \<Rightarrow> string list" where
  "split_on c [] = [[]]"
| "split_on c (x # s) =
     (if x = c then [] # split_on c s
      else case split_on c s of [] \<Rightarrow> [[x]] | y # ys \<Rightarrow> (x # y) # ys)"

section \<open>Percent encoding\<close>

definition is_letter :: "char \<Rightarrow> bool" where
  "is_letter c \<longleftrightarrow> 65 \<le> bv c \<and> bv c \<le> 90 \<or> 97 \<le> bv c \<and> bv c \<le> 122"

definition is_alnum :: "char \<Rightarrow> bool" where
  "is_alnum c \<longleftrightarrow> is_letter c \<or> is_digit c"

datatype url_mode = EncodePath | EncodeUser | EncodeFragment | EncodeHost | EncodeZone

text \<open>\<open>shouldEscape\<close> for hosts and zones: which ASCII bytes may not appear as they are.\<close>

definition host_char :: "char \<Rightarrow> bool" where
  "host_char c \<longleftrightarrow> is_alnum c \<or> c \<in> set ''!$&'' \<or> c = CHR 0x27 \<or> c \<in> set ''()*+,;=:[]<>'' \<or> c = CHR 0x22 \<or> c \<in> set ''-_.~''"

fun unescape :: "url_mode \<Rightarrow> string \<Rightarrow> string option" where
  "unescape m [] = Some []"
| "unescape m (c # s) =
     (if c = CHR ''%'' then
        (case s of
           a # b # t \<Rightarrow>
             (case (hex_val a, hex_val b) of
                (Some x, Some y) \<Rightarrow>
                  if m = EncodeHost \<and> x < 8 \<and> \<not> (a = CHR ''2'' \<and> b = CHR ''5'') then None
                  else if m = EncodeZone \<and> \<not> (a = CHR ''2'' \<and> b = CHR ''5'') \<and> 16 * x + y \<noteq> 32 \<and>
                          \<not> host_char (bc (16 * x + y)) then None
                  else map_option ((#) (bc (16 * x + y))) (unescape m t)
              | _ \<Rightarrow> None)
         | _ \<Rightarrow> None)
      else if (m = EncodeHost \<or> m = EncodeZone) \<and> bv c < 128 \<and> \<not> host_char c then None
      else map_option ((#) c) (unescape m s))"

text \<open>\<open>QueryEscape\<close>: unreserved bytes stay, a space becomes \<open>+\<close>, other bytes a percent and two upper-case digits.\<close>

definition upper_hex :: "nat \<Rightarrow> char" where
  "upper_hex n = (if n < 10 then bc (48 + n) else bc (55 + n))"

definition query_byte :: "char \<Rightarrow> string" where
  "query_byte c =
     (if is_alnum c \<or> c \<in> set ''-_.~'' then [c]
      else if c = CHR '' '' then ''+''
      else [CHR ''%'', upper_hex (bv c div 16), upper_hex (bv c mod 16)])"

definition QueryEscape :: "string \<Rightarrow> string" where
  "QueryEscape s = concat (map query_byte s)"

fun amp_join :: "string list \<Rightarrow> string" where
  "amp_join [] = []"
| "amp_join [x] = x"
| "amp_join (x # xs) = x @ CHR ''&'' # amp_join xs"

text \<open>\<open>Values.Encode\<close> for values with one entry per key: sorted by key.\<close>

definition Values_Encode :: "(string \<times> string) list \<Rightarrow> string" where
  "Values_Encode vs = amp_join (map (\<lambda>(k, v). QueryEscape k @ CHR ''='' # QueryEscape v) (sort_key fst vs))"

section \<open>IP literals\<close>

text \<open>The IPv6 addresses that \<open>netip.ParseAddr\<close> accepts between brackets, with an optional zone.\<close>

definition ipv4_field :: "string \<Rightarrow> bool" where
  "ipv4_field s \<longleftrightarrow> s \<noteq> [] \<and> list_all is_digit s \<and> length s \<le> 3 \<and> (hd s = CHR ''0'' \<longrightarrow> s = ''0'') \<and> read_nat s \<le> 255"

definition is_ipv4 :: "string \<Rightarrow> bool" where
  "is_ipv4 s \<longleftrightarrow> (let fs = split_on CHR ''.'' s in length fs = 4 \<and> list_all ipv4_field fs)"

definition hex_group :: "string \<Rightarrow> bool" where
  "hex_group s \<longleftrightarrow> s \<noteq> [] \<and> length s \<le> 4 \<and> list_all (\<lambda>c. hex_val c \<noteq> None) s"

text \<open>The number of 16-bit groups in a colon-separated list whose last part may be a dotted IPv4 address.\<close>

definition group_count :: "string \<Rightarrow> nat option" where
  "group_count s =
     (if s = [] then Some 0
      else let gs = split_on CHR '':'' s
           in if list_all hex_group gs then Some (length gs)
              else if list_all hex_group (butlast gs) \<and> is_ipv4 (last gs) then Some (length gs + 1)
              else None)"

fun cut_ellipsis :: "string \<Rightarrow> (string \<times> string) option" where
  "cut_ellipsis (a # b # s) =
     (if a = CHR '':'' \<and> b = CHR '':'' then Some ([], s)
      else map_option (\<lambda>(x, y). (a # x, y)) (cut_ellipsis (b # s)))"
| "cut_ellipsis _ = None"

definition ipv6_groups :: "string \<Rightarrow> bool" where
  "ipv6_groups s =
     (case cut_ellipsis s of
        None \<Rightarrow> group_count s = Some 8
      | Some (l, r) \<Rightarrow>
          (CHR ''.'' \<notin> set l) \<and>
          (case (group_count l, group_count r) of (Some m, Some n) \<Rightarrow> m + n \<le> 7 | _ \<Rightarrow> False))"

definition is_ipv6 :: "string \<Rightarrow> bool" where
  "is_ipv6 s \<longleftrightarrow>
     (if CHR ''%'' \<in> set s then let (a, z) = Cut CHR ''%'' s in z \<noteq> [] \<and> ipv6_groups a
      else ipv6_groups s)"

section \<open>Parsing\<close>

record URL =
  Scheme :: string
  Opaque :: string
  User :: "(string \<times> string option) option"
  Host :: string
  Path :: string
  RawQuery :: string
  Fragment :: string

fun scheme_scan :: "string \<Rightarrow> string \<Rightarrow> (string \<times> string) option" where
  "scheme_scan acc [] = None"
| "scheme_scan acc (c # s) =
     (if is_letter c then scheme_scan (acc @ [c]) s
      else if is_digit c \<or> c \<in> set ''+-.'' then (if acc = [] then None else scheme_scan (acc @ [c]) s)
      else if c = CHR '':'' then Some (acc, s)
      else None)"

text \<open>\<open>getScheme\<close>: the scheme and the rest, or the error of a leading colon.\<close>

definition getScheme :: "string \<Rightarrow> (string \<times> string) option" where
  "getScheme s =
     (case scheme_scan [] s of
        None \<Rightarrow> Some ([], s)
      | Some ([], _) \<Rightarrow> None
      | Some (sc, rest) \<Rightarrow> Some (sc, rest))"

definition validOptionalPort :: "string \<Rightarrow> bool" where
  "validOptionalPort port \<longleftrightarrow> port = [] \<or> hd port = CHR '':'' \<and> list_all is_digit (tl port)"

definition userinfo_char :: "char \<Rightarrow> bool" where
  "userinfo_char c \<longleftrightarrow> is_alnum c \<or> c \<in> set ''-._:~!$&'' \<or> c = CHR 0x27 \<or> c \<in> set ''()*+,;=%@''"

text \<open>The text of a host between brackets, its zone unescaped by its own rules.\<close>

fun cut_zone :: "string \<Rightarrow> string \<times> string" where
  "cut_zone [] = ([], [])"
| "cut_zone (c # s) =
     (if take 3 (c # s) = ''%25'' then ([], c # s)
      else let (a, z) = cut_zone s in (c # a, z))"

definition bracketed :: "string \<Rightarrow> string option" where
  "bracketed h =
     (let (a, z) = cut_zone h
      in case (unescape EncodeHost a, unescape EncodeZone z) of
           (Some a', Some z') \<Rightarrow> if is_ipv6 (a' @ z') then Some (a' @ z') else None
         | _ \<Rightarrow> None)"

definition parseHost :: "string \<Rightarrow> string \<Rightarrow> string option" where
  "parseHost scheme host =
     (if CHR ''['' \<in> set host then
        (if hd host \<noteq> CHR ''['' \<or> CHR ''['' \<in> set (tl host) then None
         else case CutLast CHR '']'' (tl host) of
           None \<Rightarrow> None
         | Some (h, port) \<Rightarrow>
             if \<not> validOptionalPort port then None
             else map_option (\<lambda>a. CHR ''['' # a @ CHR '']'' # port) (bracketed h))
      else if CHR '':'' \<in> set host then
        (let (_, p) = (if scheme = ''postgres'' \<or> scheme = ''postgresql'' then the (CutLast CHR '':'' host) else Cut CHR '':'' host)
         in if list_all is_digit p then unescape EncodeHost host else None)
      else unescape EncodeHost host)"

definition parse_user :: "string \<Rightarrow> (string \<times> string option) option" where
  "parse_user u =
     (if \<not> list_all userinfo_char u then None
      else if CHR '':'' \<in> set u then
        (let (n, p) = Cut CHR '':'' u
         in case (unescape EncodeUser n, unescape EncodeUser p) of (Some n', Some p') \<Rightarrow> Some (n', Some p') | _ \<Rightarrow> None)
      else map_option (\<lambda>n. (n, None)) (unescape EncodeUser u))"

definition parseAuthority :: "string \<Rightarrow> string \<Rightarrow> ((string \<times> string option) option \<times> string) option" where
  "parseAuthority scheme a =
     (case CutLast CHR ''@'' a of
        None \<Rightarrow> map_option (\<lambda>h. (None, h)) (parseHost scheme a)
      | Some (u, h) \<Rightarrow>
          (case (parseHost scheme h, parse_user u) of (Some h', Some u') \<Rightarrow> Some (Some u', h') | _ \<Rightarrow> None))"

definition set_path :: "URL \<Rightarrow> string \<Rightarrow> URL option" where
  "set_path u p = map_option (\<lambda>q. u\<lparr>Path := q\<rparr>) (unescape EncodePath p)"

definition empty_url :: URL where
  "empty_url = \<lparr>Scheme = [], Opaque = [], User = None, Host = [], Path = [], RawQuery = [], Fragment = []\<rparr>"

definition parse_url :: "string \<Rightarrow> URL option" where
  "parse_url s =
     (if list_ex (\<lambda>c. bv c < 32 \<or> bv c = 127) s then None
      else if s = ''*'' then Some (empty_url\<lparr>Path := ''*''\<rparr>)
      else case getScheme s of
        None \<Rightarrow> None
      | Some (sc, rest) \<Rightarrow>
          let sc = to_lower sc;
              (rest, q) = Cut CHR ''?'' rest;
              u = empty_url\<lparr>Scheme := sc, RawQuery := q\<rparr>
          in if \<not> HasPrefix rest ''/'' \<and> sc \<noteq> [] then Some (u\<lparr>Opaque := rest\<rparr>)
             else if \<not> HasPrefix rest ''/'' \<and> CHR '':'' \<in> set (fst (Cut CHR ''/'' rest)) then None
             else if (sc \<noteq> [] \<or> \<not> HasPrefix rest ''///'') \<and> HasPrefix rest ''//'' then
               (let a = drop 2 rest; auth = takeWhile (\<lambda>c. c \<noteq> CHR ''/'') a; p = dropWhile (\<lambda>c. c \<noteq> CHR ''/'') a
                in case parseAuthority sc auth of
                     None \<Rightarrow> None
                   | Some (usr, h) \<Rightarrow> set_path (u\<lparr>User := usr, Host := h\<rparr>) p)
             else set_path u rest)"

text \<open>\<open>url.Parse\<close>; \<open>None\<close> is its error.\<close>

definition URL_Parse :: "string \<Rightarrow> URL option" where
  "URL_Parse s =
     (let (u, frag) = Cut CHR ''#'' s
      in case parse_url u of
           None \<Rightarrow> None
         | Some url \<Rightarrow>
             if frag = [] then Some url
             else map_option (\<lambda>f. url\<lparr>Fragment := f\<rparr>) (unescape EncodeFragment frag))"

definition splitHostPort :: "string \<Rightarrow> string \<times> string" where
  "splitHostPort hp =
     (let (h, p) = (case CutLast CHR '':'' hp of
                      Some (h, p) \<Rightarrow> if list_all is_digit p then (h, p) else (hp, [])
                    | None \<Rightarrow> (hp, []))
      in (if HasPrefix h ''['' \<and> HasSuffix h '']'' then butlast (tl h) else h, p))"

definition Hostname :: "URL \<Rightarrow> string" where "Hostname u = fst (splitHostPort (Host u))"
definition Port :: "URL \<Rightarrow> string" where "Port u = snd (splitHostPort (Host u))"

section \<open>Facts\<close>

lemma host_no_blank: "unescape EncodeHost h = Some t \<Longrightarrow> c \<in> set h \<Longrightarrow> bv c < 128 \<Longrightarrow> host_char c \<or> c = CHR ''%''"
proof (induction EncodeHost h arbitrary: t rule: unescape.induct)
  case (2 x s)
  show ?case
  proof (cases "x = CHR ''%''")
    case True
    then obtain a b r v y z where s: "s = a # b # r" "unescape EncodeHost r = Some v" "hex_val a = Some y" "hex_val b = Some z"
      using "2.prems"(1) by (auto split: list.splits option.splits if_splits)
    have hx: "host_char d" if "hex_val d = Some k" for d k
      using that by (auto simp: hex_val_def host_char_def is_alnum_def is_letter_def is_digit_def split: if_splits)
    show ?thesis
      using "2.hyps" "2.prems" True s hx by (auto split: if_splits)
  next
    case False
    then show ?thesis using "2.hyps" "2.prems" by (auto split: if_splits)
  qed
qed simp

end
