(* ===== verification/Platform_Nostr.thy ===== *)
theory Platform_Nostr
  imports Platform Go_URL "HOL-Library.Sublist"
begin

text \<open>
  Package \<open>internal/platform\<close>, \<open>nostr.go\<close>: validation, canonical serialization and signing of Nostr
  events, and the connector that submits one signed event to three relays.
\<close>

section \<open>Definitions\<close>

definition NostrKindTextNote :: int where "NostrKindTextNote = 1"
definition NostrKindRelayAuth :: int where "NostrKindRelayAuth = 22242"
definition NostrMaxContent :: nat where "NostrMaxContent = 65536"

text \<open>A Go slice may be nil, which the code tells from an empty one.\<close>

type_synonym NostrTag = "string list option"

record UnsignedNostrEvent =
  ue_pubkey :: string
  ue_created_at :: int
  ue_kind :: int
  ue_tags :: "NostrTag list option"
  ue_content :: string

record NostrEvent =
  ne_id :: string
  ne_pubkey :: string
  ne_created_at :: int
  ne_kind :: int
  ne_tags :: "NostrTag list option"
  ne_content :: string
  ne_sig :: string

record 'w NIP46Signer =
  PublicKey :: "('w, string) act"
  SignEvent :: "UnsignedNostrEvent \<Rightarrow> ('w, NostrEvent) act"

record 'w NostrRelayPublisher =
  PublishEvent :: "string \<Rightarrow> NostrEvent \<Rightarrow> ('w, RelayResult) act"

record 'w NostrConnector =
  nc_signer :: "'w NIP46Signer"
  nc_publisher :: "'w NostrRelayPublisher"
  nc_relays :: "string list"

fun adjacent_equal :: "string list \<Rightarrow> bool" where
  "adjacent_equal (a # b # xs) \<longleftrightarrow> b = a \<or> adjacent_equal (b # xs)"
| "adjacent_equal _ \<longleftrightarrow> False"

definition invalid_relay_id :: "string \<Rightarrow> bool" where
  "invalid_relay_id relay \<longleftrightarrow>
     TrimSpace relay = [] \<or> length relay > 128 \<or> ContainsAny relay [CR, LF, CHR ''/'', BACKSLASH, CHR '':'', CHR '' '']"

definition NewNostrConnector :: "'w NIP46Signer option \<Rightarrow> 'w NostrRelayPublisher option \<Rightarrow> string list \<Rightarrow>
    go_error + 'w NostrConnector" where
  "NewNostrConnector signer publisher relayEndpointIDs =
     (case (signer, publisher) of
        (Some s, Some p) \<Rightarrow>
          if length relayEndpointIDs \<noteq> 3 then Inl (ErrorsNew ''Nostr connector requires exactly three reviewed relays'')
          else if list_ex invalid_relay_id relayEndpointIDs then Inl (ErrorsNew ''Nostr relay endpoint ID is invalid'')
          else if adjacent_equal (sort relayEndpointIDs) then Inl (ErrorsNew ''Nostr relay endpoint IDs must be unique'')
          else Inr \<lparr>nc_signer = s, nc_publisher = p, nc_relays = relayEndpointIDs\<rparr>
      | _ \<Rightarrow> Inl (ErrorsNew ''Nostr connector requires a remote signer and relay publisher''))"

definition isLowerHex :: "string \<Rightarrow> nat \<Rightarrow> bool" where
  "isLowerHex value len \<longleftrightarrow> \<not> (length value \<noteq> len \<or> value \<noteq> to_lower value) \<and> hex_decode value \<noteq> None"

abbreviation nostr_error :: "error_code \<Rightarrow> string \<Rightarrow> go_error option \<Rightarrow> go_error" where
  "nostr_error c m x \<equiv> platform_error PubPlatformNostr c m x"

text \<open>The loops over the tags return at the first tag that is nil or has an ill-formed value.\<close>

fun validate_tags :: "NostrTag list \<Rightarrow> go_error option" where
  "validate_tags [] = None"
| "validate_tags (tag # tags) =
     (case tag of
        None \<Rightarrow> Some (nostr_error ErrInvalidPayload ''event contains a null tag'' None)
      | Some vs \<Rightarrow>
          if list_ex (\<lambda>v. \<not> ValidString v) vs then Some (nostr_error ErrInvalidPayload ''event tag is not valid UTF-8'' None)
          else validate_tags tags)"

definition Event_Validate :: "UnsignedNostrEvent \<Rightarrow> go_error option" where
  "Event_Validate event =
     (if \<not> isLowerHex (ue_pubkey event) 64
      then Some (nostr_error ErrInvalidPayload ''public key must be 32-byte lowercase hex'' None)
      else if ue_created_at event < 0 then Some (nostr_error ErrInvalidPayload ''created_at is invalid'' None)
      else if ue_kind event < 0 then Some (nostr_error ErrInvalidPayload ''event kind is invalid'' None)
      else case ue_tags event of
        None \<Rightarrow> Some (nostr_error ErrInvalidPayload ''event tags must be an array'' None)
      | Some tags \<Rightarrow>
          if \<not> ValidString (ue_content event) \<or> length (ue_content event) > NostrMaxContent
          then Some (nostr_error ErrInvalidPayload ''event content is invalid'' None)
          else validate_tags tags)"

definition tag_json :: "NostrTag \<Rightarrow> json" where
  "tag_json tag = (case tag of None \<Rightarrow> JNull | Some vs \<Rightarrow> JArr (map JStr vs))"

definition event_payload :: "UnsignedNostrEvent \<Rightarrow> json" where
  "event_payload event =
     JArr [JNum (show_int 0), JStr (ue_pubkey event), JNum (show_int (ue_created_at event)), JNum (show_int (ue_kind event)),
           (case ue_tags event of None \<Rightarrow> JNull | Some tags \<Rightarrow> JArr (map tag_json tags)), JStr (ue_content event)]"

definition CanonicalSerialize :: "UnsignedNostrEvent \<Rightarrow> go_error + bytes" where
  "CanonicalSerialize event =
     (case Event_Validate event of
        Some err \<Rightarrow> Inl err
      | None \<Rightarrow> Inr (json_print False (event_payload event)))"

definition Event_ID :: "UnsignedNostrEvent \<Rightarrow> go_error + string" where
  "Event_ID event =
     (case CanonicalSerialize event of Inl err \<Rightarrow> Inl err | Inr serialized \<Rightarrow> Inr (hex_encode (sha256 serialized)))"

definition validateSignedEnvelope :: "UnsignedNostrEvent \<Rightarrow> string \<Rightarrow> NostrEvent \<Rightarrow> go_error option" where
  "validateSignedEnvelope uev expectedID sev =
     (if ne_id sev \<noteq> expectedID \<or> ne_pubkey sev \<noteq> ue_pubkey uev \<or>
         ne_created_at sev \<noteq> ue_created_at uev \<or> ne_kind sev \<noteq> ue_kind uev \<or>
         ne_content sev \<noteq> ue_content uev \<or> ne_tags sev \<noteq> ue_tags uev
      then Some (nostr_error ErrSigning ''remote signer changed the approved event'' None)
      else if \<not> isLowerHex (ne_sig sev) 128
      then Some (nostr_error ErrSigning ''remote signer returned an invalid signature encoding'' None)
      else None)"

definition SignNostrEvent :: "'w NIP46Signer option \<Rightarrow> UnsignedNostrEvent \<Rightarrow> ('w, NostrEvent) act" where
  "SignNostrEvent sg uev =
     (case sg of
        None \<Rightarrow> fail (nostr_error ErrSigning ''remote signer is unavailable'' None)
      | Some signer \<Rightarrow>
          ebind (ensure (\<not> (ue_kind uev \<noteq> NostrKindTextNote \<and> ue_kind uev \<noteq> NostrKindRelayAuth))
                   (nostr_error ErrForbidden ''event kind is not permitted'' None)) (\<lambda>_.
          ebind (wrap_err (\<lambda>err. nostr_error ErrSigning ''remote signer public key lookup failed'' (Some err))
                   (PublicKey signer)) (\<lambda>publicKey.
          ebind (ensure (\<not> (\<not> isLowerHex publicKey 64 \<or> ue_pubkey uev \<noteq> publicKey))
                   (nostr_error ErrSigning ''remote signer identity mismatch'' None)) (\<lambda>_.
          ebind (lift (Event_ID uev)) (\<lambda>expectedID.
          ebind (wrap_err (\<lambda>err. nostr_error ErrSigning ''remote signing failed'' (Some err)) (SignEvent signer uev)) (\<lambda>sev.
          case validateSignedEnvelope uev expectedID sev of
            Some err \<Rightarrow> fail err
          | None \<Rightarrow> ok sev))))))"

definition relay_url_ok :: "string \<Rightarrow> bool" where
  "relay_url_ok relayURL \<longleftrightarrow>
     (case URL_Parse relayURL of
        None \<Rightarrow> False
      | Some parsed \<Rightarrow> \<not> (Scheme parsed \<noteq> ''wss'' \<or> Hostname parsed = [] \<or> User parsed \<noteq> None \<or> RawQuery parsed \<noteq> [] \<or>
          Fragment parsed \<noteq> [] \<or> (Port parsed \<noteq> [] \<and> Port parsed \<noteq> ''443'')))"

definition SignNIP42AuthEvent :: "'w NIP46Signer option \<Rightarrow> string \<Rightarrow> string \<Rightarrow> time \<Rightarrow> ('w, NostrEvent) act" where
  "SignNIP42AuthEvent sg challenge relayURL at =
     ebind (ensure (\<not> (TrimSpace challenge = [] \<or> length challenge > 512 \<or> ContainsAny challenge [CR, LF]))
              (nostr_error ErrInvalidPayload ''relay authentication challenge is invalid'' None)) (\<lambda>_.
     ebind (ensure (relay_url_ok relayURL) (nostr_error ErrInvalidPayload ''relay authentication URL is invalid'' None)) (\<lambda>_.
     case sg of
       None \<Rightarrow> fail (nostr_error ErrSigning ''remote signer is unavailable'' None)
     | Some signer \<Rightarrow>
         ebind (wrap_err (\<lambda>err. nostr_error ErrSigning ''remote signer public key lookup failed'' (Some err))
                  (PublicKey signer)) (\<lambda>publicKey.
         SignNostrEvent sg
           \<lparr>ue_pubkey = publicKey, ue_created_at = Unix at, ue_kind = NostrKindRelayAuth,
            ue_tags = Some [Some [''relay'', relayURL], Some [''challenge'', challenge]], ue_content = []\<rparr>)))"

definition normalizeRelayCode :: "bool \<Rightarrow> string \<Rightarrow> string" where
  "normalizeRelayCode accepted code =
     (if accepted then ''ok''
      else if code \<in> {''rejected'', ''auth_required'', ''duplicate'', ''timeout'', ''protocol_error''} then code
      else ''rejected'')"

text \<open>The relay loop carries the receipt and the number of acknowledgements.\<close>

fun relay_loop :: "'w NostrRelayPublisher \<Rightarrow> NostrEvent \<Rightarrow> string list \<Rightarrow> Receipt \<times> nat \<Rightarrow> ('w, Receipt \<times> nat) act" where
  "relay_loop publisher event [] (receipt, accepted) = ok (receipt, accepted)"
| "relay_loop publisher event (relayID # relays) (receipt, accepted) =
     (let receipt = receipt\<lparr>pr_attempt_count := pr_attempt_count receipt + 1\<rparr>
      in ebind (attempt (PublishEvent publisher relayID event)) (\<lambda>r.
         case r of
           Inl publishErr \<Rightarrow>
             relay_loop publisher event relays
               (receipt\<lparr>pr_relay_results := pr_relay_results receipt @
                  [\<lparr>rl_endpoint_id = relayID, rl_accepted = False, rl_code = ''transport_error''\<rparr>]\<rparr>, accepted)
         | Inr result \<Rightarrow>
             (let result = result\<lparr>rl_endpoint_id := relayID,
                             rl_code := normalizeRelayCode (rl_accepted result) (rl_code result)\<rparr>
              in relay_loop publisher event relays
                   (receipt\<lparr>pr_relay_results := pr_relay_results receipt @ [result]\<rparr>,
                    if rl_accepted result then accepted + 1 else accepted))))"

definition quorum :: "nat \<Rightarrow> Receipt \<Rightarrow> Receipt \<times> go_error option" where
  "quorum accepted receipt =
     (if accepted = 3 \<or> accepted = 2 then (receipt\<lparr>pr_state := PubComplete\<rparr>, None)
      else if accepted = 1 then
        (receipt\<lparr>pr_state := PubPartial\<rparr>, Some (nostr_error ErrRemoteRejected ''Nostr relay quorum was not reached'' None))
      else
        (receipt\<lparr>pr_state := PubFailed\<rparr>, Some (nostr_error ErrRemoteRejected ''Nostr publication was not acknowledged'' None)))"

definition Nostr_Publish :: "'z world_scheme NostrConnector \<Rightarrow> 'z world_scheme publish" where
  "Nostr_Publish c command =
     ebind now (\<lambda>created.
     let receipt = \<lparr>pr_platform = PubPlatformNostr, pr_state = PubFailed, pr_external_id = [], pr_attempt_count = 0,
                    pr_country_code = [], pr_relay_results = [], pr_created_at = created\<rparr>
     in if TrimSpace (pc_content command) = [] \<or> \<not> ValidString (pc_content command) \<or> length (pc_content command) > NostrMaxContent
        then ok (receipt, Some (nostr_error ErrInvalidPayload ''Nostr text is invalid'' None))
        else
          ebind (attempt (PublicKey (nc_signer c))) (\<lambda>pk.
          case pk of
            Inl err \<Rightarrow> ok (receipt, Some (nostr_error ErrSigning ''remote signer public key lookup failed'' (Some err)))
          | Inr pubkey \<Rightarrow>
              let uev = \<lparr>ue_pubkey = pubkey, ue_created_at = Unix created, ue_kind = NostrKindTextNote,
                              ue_tags = Some [], ue_content = pc_content command\<rparr>
              in ebind (attempt (SignNostrEvent (Some (nc_signer c)) uev)) (\<lambda>s.
                 case s of
                   Inl err \<Rightarrow> ok (receipt, Some err)
                 | Inr event \<Rightarrow>
                     ebind (relay_loop (nc_publisher c) event (nc_relays c) (receipt\<lparr>pr_external_id := ne_id event\<rparr>, 0))
                       (\<lambda>(receipt, accepted). ok (quorum accepted receipt)))))"

definition Nostr_Connector :: "'z world_scheme NostrConnector \<Rightarrow> 'z world_scheme Connector" where
  "Nostr_Connector c = \<lparr>connector_Publish = Nostr_Publish c\<rparr>"

section \<open>The environment\<close>

text \<open>
  What the connector says to the outside: every call to the signer and to a relay, in order; and what each relay
  answered. The locale holds for any signer and publisher whose calls and answers are recorded; nothing is assumed
  of what they answer.
\<close>

datatype nostr_call = CallPublicKey | CallSign UnsignedNostrEvent | CallPublish string NostrEvent

type_synonym relay_answer = "string \<times> (go_error + RelayResult)"

definition text_note :: "string \<Rightarrow> time \<Rightarrow> string \<Rightarrow> UnsignedNostrEvent" where
  "text_note pubkey created content =
     \<lparr>ue_pubkey = pubkey, ue_created_at = Unix created, ue_kind = NostrKindTextNote, ue_tags = Some [], ue_content = content\<rparr>"

text \<open>A signed event that is the requested one, with its identifier and a well-formed signature.\<close>

definition signed_as :: "UnsignedNostrEvent \<Rightarrow> NostrEvent \<Rightarrow> bool" where
  "signed_as u ev \<longleftrightarrow> Event_ID u = Inr (ne_id ev) \<and> ne_pubkey ev = ue_pubkey u \<and> ne_created_at ev = ue_created_at u \<and>
     ne_kind ev = ue_kind u \<and> ne_tags ev = ue_tags u \<and> ne_content ev = ue_content u \<and> isLowerHex (ne_sig ev) 128"

lemma validateSignedEnvelope_None:
  "validateSignedEnvelope u i ev = None \<longleftrightarrow> ne_id ev = i \<and> ne_pubkey ev = ue_pubkey u \<and> ne_created_at ev = ue_created_at u \<and>
     ne_kind ev = ue_kind u \<and> ne_content ev = ue_content u \<and> ne_tags ev = ue_tags u \<and> isLowerHex (ne_sig ev) 128"
  by (auto simp: validateSignedEnvelope_def)

text \<open>The receipt of a run over relays and their answers.\<close>

definition relay_entry :: "string \<Rightarrow> go_error + RelayResult \<Rightarrow> RelayResult" where
  "relay_entry relay r =
     (case r of
        Inl _ \<Rightarrow> \<lparr>rl_endpoint_id = relay, rl_accepted = False, rl_code = ''transport_error''\<rparr>
      | Inr res \<Rightarrow> res\<lparr>rl_endpoint_id := relay, rl_code := normalizeRelayCode (rl_accepted res) (rl_code res)\<rparr>)"

definition auth_event :: "string \<Rightarrow> string \<Rightarrow> string \<Rightarrow> time \<Rightarrow> UnsignedNostrEvent" where
  "auth_event key challenge relayURL at =
     \<lparr>ue_pubkey = key, ue_created_at = Unix at, ue_kind = NostrKindRelayAuth,
      ue_tags = Some [Some [''relay'', relayURL], Some [''challenge'', challenge]], ue_content = []\<rparr>"

definition unsent :: "time \<Rightarrow> Receipt" where
  "unsent created = \<lparr>pr_platform = PubPlatformNostr, pr_state = PubFailed, pr_external_id = [], pr_attempt_count = 0,
     pr_country_code = [], pr_relay_results = [], pr_created_at = created\<rparr>"

locale nostr_environment =
  fixes signer :: "'z world_scheme NIP46Signer" and publisher :: "'z world_scheme NostrRelayPublisher"
    and calls :: "'z world_scheme \<Rightarrow> nostr_call list" and answers :: "'z world_scheme \<Rightarrow> relay_answer list"
  assumes ambient: "ambient_free calls" and answers_ambient: "ambient_free answers"
    and public_key: "PublicKey signer w = (r, w') \<Longrightarrow> calls w' = calls w @ [CallPublicKey]"
    and sign: "SignEvent signer u w = (ev, w') \<Longrightarrow> calls w' = calls w @ [CallSign u]"
    and publish: "PublishEvent publisher relay e w = (res, w') \<Longrightarrow> calls w' = calls w @ [CallPublish relay e]"
    and signer_answers: "keeps answers (PublicKey signer)" "keeps answers (SignEvent signer u)"
    and relay_answers: "PublishEvent publisher relay e w = (res, w') \<Longrightarrow> answers w' = answers w @ [(relay, res)]"
begin

lemma calls_tick [simp]: "calls (w\<lparr>ticks := n\<rparr>) = calls w" "answers (w\<lparr>ticks := n\<rparr>) = answers w"
  using ambient answers_ambient by (simp_all add: ambient_free_def)

lemma relay_loop_result:
  assumes "relay_loop publisher ev relays (rc, n) w = (res, w')"
  shows "\<exists>rs. length rs = length relays \<and> answers w' = answers w @ zip relays rs \<and>
    res = Inr (rc\<lparr>pr_attempt_count := pr_attempt_count rc + int (length relays),
                   pr_relay_results := pr_relay_results rc @ map2 relay_entry relays rs\<rparr>,
               n + length (filter rl_accepted (map2 relay_entry relays rs)))"
  using assms
proof (induction relays arbitrary: rc n w)
  case (Cons relay relays)
  obtain r w1 where r: "PublishEvent publisher relay ev w = (r, w1)" by fastforce
  have "\<exists>rc' n'. relay_loop publisher ev relays (rc', n') w1 = (res, w') \<and>
      rc' = rc\<lparr>pr_attempt_count := pr_attempt_count rc + 1, pr_relay_results := pr_relay_results rc @ [relay_entry relay r]\<rparr> \<and>
      n' = n + (if rl_accepted (relay_entry relay r) then 1 else 0)"
    using Cons.prems r by (cases r) (auto simp: ebind_attempt Let_def relay_entry_def)
  then obtain rs where "length rs = length relays" and "answers w' = answers w1 @ zip relays rs" and
      "res = Inr (rc\<lparr>pr_attempt_count := pr_attempt_count rc + int (length (relay # relays)),
         pr_relay_results := pr_relay_results rc @ map2 relay_entry (relay # relays) (r # rs)\<rparr>,
        n + length (filter rl_accepted (map2 relay_entry (relay # relays) (r # rs))))"
    using Cons.IH by fastforce
  then show ?case using relay_answers [OF r] by (intro exI [of _ "r # rs"]) simp
qed simp

lemma relay_loop_calls:
  "relay_loop publisher ev relays (rc, n) w = (res, w') \<Longrightarrow> calls w' = calls w @ map (\<lambda>r. CallPublish r ev) relays"
proof (induction relays arbitrary: rc n w)
  case (Cons relay relays)
  obtain r w1 where r: "PublishEvent publisher relay ev w = (r, w1)" by fastforce
  then have "\<exists>rc' n'. relay_loop publisher ev relays (rc', n') w1 = (res, w')"
    using Cons.prems by (cases r) (auto simp: ebind_attempt Let_def)
  then show ?case using Cons.IH publish [OF r] by auto
qed simp

lemma SignNostrEvent_calls:
  assumes "SignNostrEvent (Some signer) u w = (res, w')"
  shows "(\<exists>e t. res = Inl e \<and> calls w' = calls w @ t \<and> t \<in> {[], [CallPublicKey], [CallPublicKey, CallSign u]}) \<or>
    (\<exists>ev. res = Inr ev \<and> signed_as u ev \<and> (ue_kind u = NostrKindTextNote \<or> ue_kind u = NostrKindRelayAuth) \<and>
       calls w' = calls w @ [CallPublicKey, CallSign u])"
proof (cases "ue_kind u \<noteq> NostrKindTextNote \<and> ue_kind u \<noteq> NostrKindRelayAuth")
  case True
  then show ?thesis using assms by (auto simp: SignNostrEvent_def ebind_def)
next
  case False
  obtain r w1 where r: "PublicKey signer w = (r, w1)" by fastforce
  note pk = public_key [OF r]
  obtain s w2 where s: "SignEvent signer u w1 = (s, w2)" by fastforce
  note sg = sign [OF s]
  show ?thesis
    using assms False r s pk sg
    by (auto simp: SignNostrEvent_def ebind_def wrap_err_def signed_as_def validateSignedEnvelope_None
        split: sum.splits option.splits if_splits)
qed

lemma SignNIP42_outcome:
  assumes "SignNIP42AuthEvent (Some signer) challenge relayURL at w = (res, w')"
  shows "(\<exists>e t key. res = Inl e \<and> calls w' = calls w @ t \<and>
       prefix t [CallPublicKey, CallPublicKey, CallSign (auth_event key challenge relayURL at)] \<and>
       (\<not> relay_url_ok relayURL \<longrightarrow> t = [])) \<or>
    (\<exists>key ev. res = Inr ev \<and> signed_as (auth_event key challenge relayURL at) ev \<and> relay_url_ok relayURL \<and>
       TrimSpace challenge \<noteq> [] \<and> length challenge \<le> 512 \<and>
       calls w' = calls w @ [CallPublicKey, CallPublicKey, CallSign (auth_event key challenge relayURL at)])"
proof (cases "(TrimSpace challenge = [] \<or> length challenge > 512 \<or> ContainsAny challenge [CR, LF]) \<or> \<not> relay_url_ok relayURL")
  case True
  then show ?thesis using assms by (auto simp: SignNIP42AuthEvent_def ebind_def split: if_splits)
next
  case valid: False
  obtain r w1 where pk: "PublicKey signer w = (r, w1)" by fastforce
  note c1 = public_key [OF pk]
  show ?thesis
  proof (cases r)
    case (Inl e)
    then show ?thesis using assms valid pk c1 by (auto simp: SignNIP42AuthEvent_def ebind_def wrap_err_def)
  next
    case (Inr key)
    then have "SignNostrEvent (Some signer) (auth_event key challenge relayURL at) w1 = (res, w')"
      using assms valid pk by (simp add: SignNIP42AuthEvent_def auth_event_def ebind_def wrap_err_def)
    from SignNostrEvent_calls [OF this] show ?thesis using c1 valid by (fastforce simp: prefix_def)
  qed
qed

lemma SignNostrEvent_answers: "keeps answers (SignNostrEvent (Some signer) u)"
  unfolding SignNostrEvent_def
  by (auto intro!: keeps_ebind keeps_wrap_err signer_answers split: option.splits)

text \<open>One publication: either it ends before any relay hears of it, or one signed event goes to every relay.\<close>

lemma Publish_outcome:
  assumes "nc_signer c = signer" and "nc_publisher c = publisher" and "Nostr_Publish c cmd w = (res, w')"
  shows "(\<exists>err t pk. res = Inr (unsent (clock w (ticks w)), Some err) \<and> answers w' = answers w \<and> calls w' = calls w @ t \<and>
       prefix t [CallPublicKey, CallPublicKey, CallSign (text_note pk (clock w (ticks w)) (pc_content cmd))]) \<or>
    (\<exists>pk ev rs. signed_as (text_note pk (clock w (ticks w)) (pc_content cmd)) ev \<and> length rs = length (nc_relays c) \<and>
       answers w' = answers w @ zip (nc_relays c) rs \<and> TrimSpace (pc_content cmd) \<noteq> [] \<and>
       calls w' = calls w @ [CallPublicKey, CallPublicKey, CallSign (text_note pk (clock w (ticks w)) (pc_content cmd))] @
         map (\<lambda>r. CallPublish r ev) (nc_relays c) \<and>
       res = Inr (quorum (length (filter rl_accepted (map2 relay_entry (nc_relays c) rs)))
         ((unsent (clock w (ticks w)))\<lparr>pr_external_id := ne_id ev, pr_attempt_count := int (length (nc_relays c)),
            pr_relay_results := map2 relay_entry (nc_relays c) rs\<rparr>)))"
proof -
  let ?t = "clock w (ticks w)" and ?w = "w\<lparr>ticks := Suc (ticks w)\<rparr>"
  let ?u = "\<lambda>pk. text_note pk ?t (pc_content cmd)"
  show ?thesis
  proof (cases "TrimSpace (pc_content cmd) = [] \<or> \<not> ValidString (pc_content cmd) \<or> length (pc_content cmd) > NostrMaxContent")
    case True
    then show ?thesis using assms(3) by (auto simp: Nostr_Publish_def Let_def ebind_def unsent_def)
  next
    case valid: False
    obtain r w1 where pk: "PublicKey signer ?w = (r, w1)" by fastforce
    note c1 = public_key [OF pk] keepsD [OF signer_answers(1) pk]
    show ?thesis
    proof (cases r)
      case (Inl e)
      then show ?thesis
        using assms valid pk c1
        by (auto simp: Nostr_Publish_def Let_def ebind_def attempt_def unsent_def)
    next
      case (Inr pubkey)
      obtain s w2 where sg: "SignNostrEvent (Some signer) (?u pubkey) w1 = (s, w2)" by fastforce
      note c2 = SignNostrEvent_calls [OF sg] and a2 = keepsD [OF SignNostrEvent_answers sg]
      have run: "(case s of Inl err \<Rightarrow> ok (unsent ?t, Some err)
          | Inr event \<Rightarrow> ebind (relay_loop publisher event (nc_relays c) ((unsent ?t)\<lparr>pr_external_id := ne_id event\<rparr>, 0))
              (\<lambda>(receipt, accepted). ok (quorum accepted receipt))) w2 = (res, w')"
        using assms valid pk sg Inr
        by (cases s) (simp_all add: Nostr_Publish_def Let_def ebind_def attempt_def unsent_def text_note_def)
      show ?thesis
      proof (cases s)
        case (Inl e)
        then show ?thesis using run c1 c2 a2 by (fastforce simp: prefix_def)
      next
        case (Inr ev)
        obtain q w3 where l: "relay_loop publisher ev (nc_relays c) ((unsent ?t)\<lparr>pr_external_id := ne_id ev\<rparr>, 0) w2 = (q, w3)"
          by fastforce
        from relay_loop_result [OF l] obtain rs where rs: "length rs = length (nc_relays c)" "answers w3 = answers w2 @ zip (nc_relays c) rs" and
          q: "q = Inr ((unsent ?t)\<lparr>pr_external_id := ne_id ev, pr_attempt_count := int (length (nc_relays c)),
               pr_relay_results := map2 relay_entry (nc_relays c) rs\<rparr>,
             length (filter rl_accepted (map2 relay_entry (nc_relays c) rs)))"
          by (auto simp: unsent_def)
        show ?thesis
          using run Inr l relay_loop_calls [OF l] rs q c1 c2 a2 valid by (auto simp: ebind_def)
      qed
    qed
  qed
qed

end

section \<open>Every signer and every set of relays\<close>

text \<open>
  The environment with arbitrary answers: each answer is any function of the world at the call,
  which includes the calls made so far.
\<close>

record nostr_world = world +
  nostr_calls :: "nostr_call list"
  nostr_answers :: "relay_answer list"

definition heard :: "nostr_call \<Rightarrow> ('z nostr_world_scheme \<Rightarrow> go_error + 'a) \<Rightarrow> ('z nostr_world_scheme, 'a) act" where
  "heard call answer w = (answer w, w\<lparr>nostr_calls := nostr_calls w @ [call]\<rparr>)"

definition env_signer :: "('z nostr_world_scheme \<Rightarrow> go_error + string) \<Rightarrow>
    (UnsignedNostrEvent \<Rightarrow> 'z nostr_world_scheme \<Rightarrow> go_error + NostrEvent) \<Rightarrow> 'z nostr_world_scheme NIP46Signer" where
  "env_signer key sig = \<lparr>PublicKey = heard CallPublicKey key, SignEvent = (\<lambda>u. heard (CallSign u) (sig u))\<rparr>"

definition env_publisher :: "(string \<Rightarrow> NostrEvent \<Rightarrow> 'z nostr_world_scheme \<Rightarrow> go_error + RelayResult) \<Rightarrow>
    'z nostr_world_scheme NostrRelayPublisher" where
  "env_publisher answer = \<lparr>PublishEvent = (\<lambda>relay ev w.
     (answer relay ev w, w\<lparr>nostr_calls := nostr_calls w @ [CallPublish relay ev],
                            nostr_answers := nostr_answers w @ [(relay, answer relay ev w)]\<rparr>))\<rparr>"

interpretation nostr: nostr_environment "env_signer key sig" "env_publisher answer" nostr_calls nostr_answers for key sig answer
  by unfold_locales (auto simp: ambient_free_def keeps_def env_signer_def env_publisher_def heard_def)

lemma NewNostrConnector_Inr:
  "NewNostrConnector s p relays = Inr c \<longleftrightarrow>
     (\<exists>sg pb. s = Some sg \<and> p = Some pb \<and> c = \<lparr>nc_signer = sg, nc_publisher = pb, nc_relays = relays\<rparr>) \<and>
     length relays = 3 \<and> list_all (\<lambda>r. \<not> invalid_relay_id r) relays \<and> \<not> adjacent_equal (sort relays)"
  by (auto simp: NewNostrConnector_def list_ex_iff list_all_iff split: option.splits if_splits)

lemma adjacent_equal_sorted: "sorted xs \<Longrightarrow> adjacent_equal xs \<longleftrightarrow> \<not> distinct xs"
proof (induction xs rule: adjacent_equal.induct)
  case (1 a b xs)
  then show ?case by (cases "a = b") (auto simp: order.strict_iff_order)
qed auto

lemma relays_distinct: "NewNostrConnector s p relays = Inr c \<Longrightarrow> distinct relays \<and> length relays = 3"
  using adjacent_equal_sorted [OF sorted_sort, of relays] by (simp add: NewNostrConnector_Inr)

section \<open>Properties\<close>

text \<open>
  C21: a publication asks for at most one signature and, if it reaches the relays, sends that one
  event once to each of the three distinct configured relays, in their order. The event is the
  approved text as a kind-1 note without tags, under the identifier computed from it and with a
  well-formed signature, whatever the signer answers.
\<close>

theorem nostr_one_signed_event:
  assumes "NewNostrConnector (Some (env_signer key sig)) (Some (env_publisher answer)) relays = Inr c"
    and "Nostr_Publish c cmd w = (res, w')"
  shows "\<exists>u t. nostr_calls w' = nostr_calls w @ t \<and> ue_content u = pc_content cmd \<and> ue_kind u = 1 \<and> ue_tags u = Some [] \<and>
    (prefix t [CallPublicKey, CallPublicKey, CallSign u] \<or>
     (\<exists>ev. signed_as u ev \<and> length relays = 3 \<and> distinct relays \<and>
        t = [CallPublicKey, CallPublicKey, CallSign u] @ map (\<lambda>r. CallPublish r ev) relays))"
proof -
  have c: "nc_signer c = env_signer key sig" "nc_publisher c = env_publisher answer" "nc_relays c = relays"
    using assms(1) by (auto simp: NewNostrConnector_Inr)
  have note_u: "ue_content (text_note pk t x) = x \<and> ue_kind (text_note pk t x) = 1 \<and> ue_tags (text_note pk t x) = Some []" for pk t x
    by (simp add: text_note_def NostrKindTextNote_def)
  show ?thesis
    using nostr.Publish_outcome [OF c(1,2) assms(2)] relays_distinct [OF assms(1)] note_u unfolding c(3) by blast
qed

text \<open>
  What a relay's answer means: it acknowledged the event if it answered, without a transport error, that it accepted
  it; and the code that the receipt may show for it.
\<close>

definition acknowledged :: "go_error + RelayResult \<Rightarrow> bool" where
  "acknowledged a \<longleftrightarrow> (\<exists>r. a = Inr r \<and> rl_accepted r)"

definition answer_code :: "go_error + RelayResult \<Rightarrow> string" where
  "answer_code a =
     (case a of
        Inl _ \<Rightarrow> ''transport_error''
      | Inr r \<Rightarrow>
          if rl_accepted r then ''ok''
          else if rl_code r \<in> {''auth_required'', ''duplicate'', ''timeout'', ''protocol_error''} then rl_code r else ''rejected'')"

lemma relay_entry_answer:
  "rl_endpoint_id (relay_entry relay a) = relay" "rl_accepted (relay_entry relay a) \<longleftrightarrow> acknowledged a"
  "rl_code (relay_entry relay a) = answer_code a"
  by (auto simp: relay_entry_def acknowledged_def answer_code_def normalizeRelayCode_def split: sum.splits)

lemma accepted_entries:
  "length rs = length relays \<Longrightarrow>
     length (filter rl_accepted (map2 relay_entry relays rs)) = length (filter (acknowledged \<circ> snd) (zip relays rs))"
  by (induction rs relays rule: list_induct2) (auto simp: relay_entry_answer)

lemma entries_answers:
  "length rs = length relays \<Longrightarrow>
     list_all2 (\<lambda>(relay, a) x. rl_endpoint_id x = relay \<and> (rl_accepted x \<longleftrightarrow> acknowledged a) \<and> rl_code x = answer_code a)
       (zip relays rs) (map2 relay_entry relays rs)"
  by (induction rs relays rule: list_induct2) (auto simp: relay_entry_answer)

text \<open>
  C22: the receipt is what the relays answered. Either no relay was asked, the receipt is FAILED without attempts and an
  error is returned; or each of the three relays was asked and answered once, the receipt has one entry per answer, that
  shows an acceptance exactly if the relay answered so and otherwise a normalized code, and it is COMPLETE exactly if at
  least two relays acknowledged the event, PARTIAL if one did and FAILED if none did, a relay that could not be reached
  never counting; an error is returned exactly if it is not COMPLETE.
\<close>

theorem nostr_quorum:
  assumes "NewNostrConnector (Some (env_signer key sig)) (Some (env_publisher answer)) relays = Inr c"
    and "Nostr_Publish c cmd w = (res, w')"
  shows "\<exists>rc err answers. res = Inr (rc, err) \<and> nostr_answers w' = nostr_answers w @ answers \<and>
    (if pr_attempt_count rc = 0
     then answers = [] \<and> pr_relay_results rc = [] \<and> pr_state rc = PubFailed \<and> err \<noteq> None \<and> pr_external_id rc = []
     else pr_attempt_count rc = 3 \<and> map fst answers = relays \<and>
       list_all2 (\<lambda>(relay, a) x. rl_endpoint_id x = relay \<and> (rl_accepted x \<longleftrightarrow> acknowledged a) \<and> rl_code x = answer_code a)
         answers (pr_relay_results rc) \<and>
       (let n = length (filter (acknowledged \<circ> snd) answers)
        in pr_state rc = (if 2 \<le> n then PubComplete else if n = 1 then PubPartial else PubFailed) \<and> (err = None \<longleftrightarrow> 2 \<le> n)))"
proof -
  have c: "nc_signer c = env_signer key sig" "nc_publisher c = env_publisher answer" "nc_relays c = relays"
    using assms(1) by (auto simp: NewNostrConnector_Inr)
  have three: "length relays = 3" using relays_distinct [OF assms(1)] by simp
  show ?thesis
    using nostr.Publish_outcome [OF c(1,2) assms(2)] unfolding c(3)
  proof (elim disjE exE conjE)
    fix err t pk assume "res = Inr (unsent (clock w (ticks w)), Some err)" "nostr_answers w' = nostr_answers w"
    then show ?thesis by (simp add: unsent_def)
  next
    fix pk ev rs assume rs: "length rs = length relays" and "nostr_answers w' = nostr_answers w @ zip relays rs" and
      "res = Inr (quorum (length (filter rl_accepted (map2 relay_entry relays rs)))
         ((unsent (clock w (ticks w)))\<lparr>pr_external_id := ne_id ev, pr_attempt_count := int (length relays),
            pr_relay_results := map2 relay_entry relays rs\<rparr>))"
    moreover have "length (filter (acknowledged \<circ> snd) (zip relays rs)) \<le> 3"
      using rs three by (metis length_filter_le length_zip min.idem)
    ultimately show ?thesis
      using accepted_entries [OF rs] entries_answers [OF rs] three by (auto simp: quorum_def Let_def)
  qed
qed

text \<open>
  A relay authentication can only be for the relay and the challenge it was asked for. The signer
  is never asked to sign anything but the authentication event with exactly this URL and this
  challenge, is not asked at all unless the URL is a plain wss URL, and a returned event is that
  event.
\<close>

theorem nip42_bound_to_relay:
  assumes "SignNIP42AuthEvent (Some (env_signer key sig)) challenge relayURL at w = (res, w')"
  shows "(\<forall>u. CallSign u \<in> set (drop (length (nostr_calls w)) (nostr_calls w')) \<longrightarrow>
       relay_url_ok relayURL \<and> ue_kind u = 22242 \<and> ue_content u = [] \<and> ue_created_at u = Unix at \<and>
       ue_tags u = Some [Some [''relay'', relayURL], Some [''challenge'', challenge]]) \<and>
    (\<forall>ev. res = Inr ev \<longrightarrow> relay_url_ok relayURL \<and> ne_kind ev = 22242 \<and> ne_content ev = [] \<and>
       ne_tags ev = Some [Some [''relay'', relayURL], Some [''challenge'', challenge]] \<and> isLowerHex (ne_sig ev) 128)"
proof -
  let ?s = "\<lambda>k. auth_event k challenge relayURL at"
  have s: "ue_kind (?s k) = 22242" "ue_content (?s k) = []" "ue_created_at (?s k) = Unix at"
      "ue_tags (?s k) = Some [Some [''relay'', relayURL], Some [''challenge'', challenge]]" for k
    by (simp_all add: auth_event_def NostrKindRelayAuth_def)
  from nostr.SignNIP42_outcome [OF assms] show ?thesis
  proof (elim disjE exE conjE)
    fix e t k assume "res = Inl e" "nostr_calls w' = nostr_calls w @ t"
      "prefix t [CallPublicKey, CallPublicKey, CallSign (?s k)]" "\<not> relay_url_ok relayURL \<longrightarrow> t = []"
    moreover from set_mono_prefix [OF this(3)] have "set t \<subseteq> {CallPublicKey, CallSign (?s k)}" by simp
    ultimately show ?thesis using s by fastforce
  next
    fix k ev assume "res = Inr ev" "signed_as (?s k) ev" "relay_url_ok relayURL"
      "nostr_calls w' = nostr_calls w @ [CallPublicKey, CallPublicKey, CallSign (?s k)]"
    then show ?thesis using s [of k] by (auto simp: signed_as_def)
  qed
qed

lemma hex_decode_ascii: "hex_decode s = Some bs \<Longrightarrow> ascii s"
  by (induction s arbitrary: bs rule: hex_decode.induct)
    (auto simp: ascii_def hex_val_def split: option.splits if_splits)

lemma isLowerHex_Valid: "isLowerHex s n \<Longrightarrow> ValidString s"
  by (auto simp: isLowerHex_def dest: hex_decode_ascii intro: ascii_ValidString)

lemma validate_tags_None: "validate_tags tags = None \<longleftrightarrow> (\<forall>t \<in> set tags. \<exists>vs. t = Some vs \<and> list_all ValidString vs)"
  by (induction tags) (auto simp: list_ex_iff list_all_iff split: option.splits)

lemma Event_Validate_None:
  "Event_Validate u = None \<longleftrightarrow> isLowerHex (ue_pubkey u) 64 \<and> 0 \<le> ue_created_at u \<and> 0 \<le> ue_kind u \<and>
     ValidString (ue_content u) \<and> length (ue_content u) \<le> NostrMaxContent \<and>
     (\<exists>tags. ue_tags u = Some tags \<and> (\<forall>t \<in> set tags. \<exists>vs. t = Some vs \<and> list_all ValidString vs))"
  by (auto simp: Event_Validate_def validate_tags_None split: option.splits)

lemma event_payload_wf: "Event_Validate u = None \<Longrightarrow> json_wf (event_payload u)"
  by (auto simp: Event_Validate_None event_payload_def tag_json_def list_all_iff isLowerHex_Valid) fastforce+

lemma tag_json_inject: "tag_json a = tag_json b \<longleftrightarrow> a = b"
  by (auto simp: tag_json_def inj_map_eq_map inj_def split: option.splits)

lemma event_payload_inject: "event_payload u = event_payload v \<longleftrightarrow> u = v"
proof
  assume "event_payload u = event_payload v"
  moreover have "map tag_json a = map tag_json b \<longleftrightarrow> a = b" for a b
    by (simp add: inj_map_eq_map inj_def tag_json_inject)
  ultimately show "u = v"
    by (cases u; cases v) (auto simp: event_payload_def split: option.splits)
qed simp

text \<open>
  A valid event's identifier determines the event: two events with the same identifier agree on
  key, time, kind, tags and content, unless their two serializations are different byte strings with
  the same SHA-256 digest.
\<close>

theorem nostr_id_binds:
  assumes "Event_ID u = Inr i" and "Event_ID v = Inr i"
  shows "u = v \<or> (\<exists>a b. CanonicalSerialize u = Inr a \<and> CanonicalSerialize v = Inr b \<and> a \<noteq> b \<and> sha256 a = sha256 b)"
proof -
  obtain a b where a: "CanonicalSerialize u = Inr a" and b: "CanonicalSerialize v = Inr b" and h: "sha256 a = sha256 b"
    using assms by (auto simp: Event_ID_def split: sum.splits)
  then have "Event_Validate u = None" "Event_Validate v = None" and
      p: "a = json_print False (event_payload u)" "b = json_print False (event_payload v)"
    by (auto simp: CanonicalSerialize_def split: option.splits)
  then have "a = b \<longleftrightarrow> u = v" by (simp add: json_print_inject event_payload_wf event_payload_inject)
  with a b h show ?thesis by blast
qed

section \<open>Witnesses\<close>

definition sample_key :: string where "sample_key = replicate 64 CHR ''a''"

definition honest_signature :: "UnsignedNostrEvent \<Rightarrow> go_error + NostrEvent" where
  "honest_signature u =
     (case Event_ID u of
        Inl err \<Rightarrow> Inl err
      | Inr i \<Rightarrow> Inr \<lparr>ne_id = i, ne_pubkey = ue_pubkey u, ne_created_at = ue_created_at u, ne_kind = ue_kind u,
                       ne_tags = ue_tags u, ne_content = ue_content u, ne_sig = replicate 128 CHR ''b''\<rparr>)"

definition sample_signer :: "nostr_world NIP46Signer" where
  "sample_signer = env_signer (\<lambda>_. Inr sample_key) (\<lambda>u _. honest_signature u)"

text \<open>Two relays accept, the third cannot be reached.\<close>

definition sample_publisher :: "nostr_world NostrRelayPublisher" where
  "sample_publisher = env_publisher (\<lambda>relay _ _. if relay = ''relay-c'' then Inl (ErrorsNew ''refused'')
     else Inr \<lparr>rl_endpoint_id = [], rl_accepted = True, rl_code = ''whatever''\<rparr>)"

definition sample_relays :: "string list" where "sample_relays = [''relay-b'', ''relay-a'', ''relay-c'']"

definition sample_nostr :: "nostr_world NostrConnector" where
  "sample_nostr = \<lparr>nc_signer = sample_signer, nc_publisher = sample_publisher, nc_relays = sample_relays\<rparr>"

definition sample_command :: PublishCommand where
  "sample_command = \<lparr>pc_job_id = ''job-1'', pc_content = ''hi'', pc_payload_hash_hex = [], pc_egress_policy_id = []\<rparr>"

definition sample_nostr_world :: nostr_world where
  "sample_nostr_world = \<lparr>entropy = [], clock = (\<lambda>_. 5000000000), ticks = 0, nostr_calls = [], nostr_answers = []\<rparr>"

lemma sample_nostr_new: "NewNostrConnector (Some sample_signer) (Some sample_publisher) sample_relays = Inr sample_nostr"
proof -
  have "\<not> invalid_relay_id r" if "r \<in> set sample_relays" for r
    using that by (auto simp: sample_relays_def invalid_relay_id_def TrimSpace_ascii ascii_def bv_def IsSpace_def ContainsAny_def)
  moreover have "adjacent_equal (sort sample_relays) \<longleftrightarrow> \<not> distinct sample_relays"
    using adjacent_equal_sorted [OF sorted_sort, of sample_relays] by simp
  ultimately show ?thesis
    by (simp add: NewNostrConnector_Inr sample_nostr_def list_all_iff) (simp add: sample_relays_def)
qed

lemma hex_decode_replicate: "hex_val c = Some v \<Longrightarrow> hex_decode (replicate (2 * n) c) \<noteq> None"
  by (induction n) auto

lemma sample_key_hex: "isLowerHex sample_key 64" "isLowerHex (replicate 128 CHR ''b'') 128"
  using hex_decode_replicate [of "CHR ''a''" 10 32] hex_decode_replicate [of "CHR ''b''" 11 64]
  by (simp_all add: isLowerHex_def sample_key_def to_lower_def hex_val_def bv_def)

lemma sample_id: "\<exists>i. Event_ID (text_note sample_key 5000000000 ''hi'') = Inr i"
proof -
  have "ValidString ''hi''" by (simp add: ascii_ValidString ascii_def bv_def)
  then have "Event_Validate (text_note sample_key 5000000000 ''hi'') = None"
    using sample_key_hex(1)
    by (simp add: Event_Validate_None text_note_def Unix_def NostrKindTextNote_def NostrMaxContent_def)
  then show ?thesis by (simp add: Event_ID_def CanonicalSerialize_def)
qed

lemma sample_publish:
  "\<exists>rc w'. Nostr_Publish sample_nostr sample_command sample_nostr_world = (Inr (rc, None), w') \<and> pr_attempt_count rc = 3 \<and>
     length (nostr_calls w') = 6"
proof -
  obtain i where i: "Event_ID (text_note sample_key 5000000000 ''hi'') = Inr i" using sample_id by blast
  have v: "ValidString ''hi''" "TrimSpace ''hi'' \<noteq> []"
    by (simp_all add: ascii_ValidString TrimSpace_ascii ascii_def bv_def IsSpace_def)
  have "\<exists>ev w1. SignNostrEvent (Some sample_signer) (text_note sample_key 5000000000 ''hi'') w = (Inr ev, w1) \<and>
      length (nostr_calls w1) = length (nostr_calls w) + 2" for w
    using i sample_key_hex
    by (auto simp: SignNostrEvent_def sample_signer_def env_signer_def heard_def ebind_def wrap_err_def honest_signature_def
        validateSignedEnvelope_def text_note_def NostrKindTextNote_def)
  then obtain ev w1 where sg: "SignNostrEvent (Some sample_signer) (text_note sample_key 5000000000 ''hi'')
       (sample_nostr_world\<lparr>ticks := 1, nostr_calls := [CallPublicKey]\<rparr>) = (Inr ev, w1)" "length (nostr_calls w1) = 3"
    by fastforce
  have pk: "PublicKey sample_signer w = (Inr sample_key, w\<lparr>nostr_calls := nostr_calls w @ [CallPublicKey]\<rparr>)" for w
    by (simp add: sample_signer_def env_signer_def heard_def)
  show ?thesis
    using v sg pk
    by (simp add: Nostr_Publish_def sample_nostr_def sample_command_def sample_nostr_world_def ebind_def attempt_def Let_def
        text_note_def NostrMaxContent_def)
      (simp add: sample_relays_def sample_publisher_def env_publisher_def heard_def ebind_def attempt_def Let_def quorum_def)
qed

theorem nostr_quorum_witness:
  "\<exists>rc w'. Nostr_Publish sample_nostr sample_command sample_nostr_world = (Inr (rc, None), w') \<and> pr_state rc = PubComplete \<and>
     map fst (nostr_answers w') = sample_relays \<and> length (filter (acknowledged \<circ> snd) (nostr_answers w')) \<ge> 2"
proof -
  obtain rc w' where p: "Nostr_Publish sample_nostr sample_command sample_nostr_world = (Inr (rc, None), w')" "pr_attempt_count rc = 3"
    using sample_publish by blast
  have "nostr_answers sample_nostr_world = []" by (simp add: sample_nostr_world_def)
  with nostr_quorum [OF sample_nostr_new [unfolded sample_signer_def sample_publisher_def] p(1)] p show ?thesis
    by (auto simp: Let_def split: if_splits)
qed

theorem nostr_one_signed_event_witness:
  "\<exists>u ev res w'. Nostr_Publish sample_nostr sample_command sample_nostr_world = (res, w') \<and> ue_content u = ''hi'' \<and> signed_as u ev \<and>
     nostr_calls w' = [CallPublicKey, CallPublicKey, CallSign u] @ map (\<lambda>r. CallPublish r ev) sample_relays"
proof -
  obtain res w' where p: "Nostr_Publish sample_nostr sample_command sample_nostr_world = (res, w')" "length (nostr_calls w') = 6"
    using sample_publish by blast
  obtain u t where t: "nostr_calls w' = t" "ue_content u = ''hi''" "prefix t [CallPublicKey, CallPublicKey, CallSign u] \<or>
      (\<exists>ev. signed_as u ev \<and> t = [CallPublicKey, CallPublicKey, CallSign u] @ map (\<lambda>r. CallPublish r ev) sample_relays)"
    using nostr_one_signed_event [OF sample_nostr_new [unfolded sample_signer_def sample_publisher_def] p(1)]
    by (auto simp: sample_command_def sample_nostr_world_def)
  have "\<not> prefix t [CallPublicKey, CallPublicKey, CallSign u]"
    using p(2) t(1) prefix_length_le [of t "[CallPublicKey, CallPublicKey, CallSign u]"] by auto
  with p(1) t show ?thesis by blast
qed

theorem nostr_id_binds_witness:
  "\<exists>i. Event_ID (text_note sample_key 5000000000 ''hi'') = Inr i \<and> Event_ID (text_note sample_key 5999999999 ''hi'') = Inr i \<and>
     (text_note sample_key 5000000000 ''hi'' = text_note sample_key 5999999999 ''hi'' \<or>
      (\<exists>a b. CanonicalSerialize (text_note sample_key 5000000000 ''hi'') = Inr a \<and>
         CanonicalSerialize (text_note sample_key 5999999999 ''hi'') = Inr b \<and> a \<noteq> b \<and> sha256 a = sha256 b))"
proof -
  obtain i where i: "Event_ID (text_note sample_key 5000000000 ''hi'') = Inr i" using sample_id by blast
  moreover have "Event_ID (text_note sample_key 5999999999 ''hi'') = Inr i"
    using i by (simp add: text_note_def Unix_def)
  ultimately show ?thesis using nostr_id_binds by blast
qed

lemma sample_relay_url: "relay_url_ok ''wss://relay.example''"
  by (simp add: relay_url_ok_def URL_Parse_def Cut_def parse_url_def getScheme_def is_letter_def is_digit_def bv_def to_lower_def
      HasPrefix_def HasSuffix_def empty_url_def parseAuthority_def CutLast_def parseHost_def host_char_def is_alnum_def set_path_def
      Hostname_def Port_def splitHostPort_def)

theorem nip42_bound_to_relay_witness:
  "\<exists>ev w'. SignNIP42AuthEvent (Some sample_signer) ''xyz'' ''wss://relay.example'' 5000000000 sample_nostr_world = (Inr ev, w') \<and>
     ne_tags ev = Some [Some [''relay'', ''wss://relay.example''], Some [''challenge'', ''xyz'']] \<and> ne_kind ev = 22242"
proof -
  let ?u = "\<lparr>ue_pubkey = sample_key, ue_created_at = Unix 5000000000, ue_kind = NostrKindRelayAuth,
      ue_tags = Some [Some [''relay'', ''wss://relay.example''], Some [''challenge'', ''xyz'']], ue_content = []\<rparr>"
  have "Event_Validate ?u = None"
    using sample_key_hex(1)
    by (simp add: Event_Validate_None Unix_def NostrKindRelayAuth_def NostrMaxContent_def) (simp add: bv_def)
  then obtain i where i: "Event_ID ?u = Inr i" by (auto simp: Event_ID_def CanonicalSerialize_def)
  have "TrimSpace ''xyz'' \<noteq> []" "\<not> ContainsAny ''xyz'' [CR, LF]"
    by (simp_all add: TrimSpace_ascii ascii_def bv_def IsSpace_def ContainsAny_def)
  then obtain ev w' where r:
      "SignNIP42AuthEvent (Some sample_signer) ''xyz'' ''wss://relay.example'' 5000000000 sample_nostr_world = (Inr ev, w')"
    using i sample_key_hex sample_relay_url
    by (simp add: SignNIP42AuthEvent_def SignNostrEvent_def sample_signer_def env_signer_def heard_def ebind_def wrap_err_def
        honest_signature_def validateSignedEnvelope_def NostrKindRelayAuth_def)
  with nip42_bound_to_relay [OF r [unfolded sample_signer_def]] show ?thesis by blast
qed

end
