(* ===== verification/Go_Fmt.thy ===== *)
theory Go_Fmt
  imports Platform
begin

text \<open>
  Texts of errors: \<open>strconv.Quote\<close>, the verbs of \<open>fmt\<close> that the error formats of the repository use, and the
  method \<open>Error\<close> of the errors it defines.
\<close>

section \<open>Sentinels\<close>

fun sentinel_text :: "sentinel \<Rightarrow> string" where
  "sentinel_text ErrInvalidContent = ''content must be valid UTF-8, non-empty, and contain no NUL bytes''"
| "sentinel_text ErrNoDestination = ''at least one destination is required''"
| "sentinel_text ErrInvalidTransition = ''invalid job state transition''"
| "sentinel_text ErrNotFound = ''record not found''"
| "sentinel_text ErrInvalidEnvelope = ''invalid encrypted envelope''"
| "sentinel_text ErrUnknownEndpoint = ''unknown endpoint''"
| "sentinel_text ErrEndpointNotHealthy = ''endpoint is not currently healthy''"
| "sentinel_text ErrInsufficientCountries = ''fewer than the required healthy countries''"
| "sentinel_text ErrNoEligibleAlternate = ''no eligible alternate country''"
| "sentinel_text ErrExecutionDisabled = ''privileged namespace execution is disabled''"
| "sentinel_text ErrEOF = ''EOF''"
| "sentinel_text ErrUnexpectedEOF = ''unexpected EOF''"
| "sentinel_text ErrCanceled = ''context canceled''"
| "sentinel_text ErrNoRows = ''sql: no rows in result set''"

section \<open>Quoting\<close>

text \<open>
  \<open>strconv.Quote\<close>, the verb \<open>%q\<close> on a string. Which runes beyond ASCII are printable is a table of the
  Unicode version of the Go release, so the test is an argument.
\<close>

fun hex_fixed :: "nat \<Rightarrow> nat \<Rightarrow> string" where
  "hex_fixed 0 n = []"
| "hex_fixed (Suc k) n = hex_fixed k (n div 16) @ [hex_digit (n mod 16)]"

definition rune_printable :: "(rune \<Rightarrow> bool) \<Rightarrow> rune \<Rightarrow> bool" where
  "rune_printable IsPrint r = (if r < 128 then 32 \<le> r \<and> r < 127 else IsPrint r)"

definition quote_rune :: "(rune \<Rightarrow> bool) \<Rightarrow> rune \<Rightarrow> string \<Rightarrow> string" where
  "quote_rune IsPrint r bytes =
     (if r = 34 \<or> r = 92 then BACKSLASH # bytes
      else if rune_printable IsPrint r then bytes
      else case map_of [(7, CHR ''a''), (8, CHR ''b''), (12, CHR ''f''), (10, CHR ''n''), (13, CHR ''r''), (9, CHR ''t''), (11, CHR ''v'')] r of
        Some c \<Rightarrow> [BACKSLASH, c]
      | None \<Rightarrow>
          if r < 32 \<or> r = 127 then BACKSLASH # CHR ''x'' # hex_fixed 2 r
          else if r < 65536 then BACKSLASH # CHR ''u'' # hex_fixed 4 r
          else BACKSLASH # CHR ''U'' # hex_fixed 8 r)"

function quote_body :: "(rune \<Rightarrow> bool) \<Rightarrow> string \<Rightarrow> string" where
  "quote_body IsPrint s =
     (if s = [] then []
      else case utf8_step s of
             Some (r, w) \<Rightarrow> quote_rune IsPrint r (take w s) @ quote_body IsPrint (drop w s)
           | None \<Rightarrow> BACKSLASH # CHR ''x'' # hex_encode [hd s] @ quote_body IsPrint (tl s))"
  by pat_completeness auto
termination
  by (relation "measure (length o snd)") (auto dest: utf8_step_width)

declare quote_body.simps [simp del]

definition Quote :: "(rune \<Rightarrow> bool) \<Rightarrow> string \<Rightarrow> string" where
  "Quote IsPrint s = QUOTE # quote_body IsPrint s @ [QUOTE]"

section \<open>Formats\<close>

text \<open>\<open>fmt.Sprintf\<close> for the verbs \<open>%s\<close>, \<open>%v\<close>, \<open>%d\<close>, \<open>%q\<close> and \<open>%w\<close>, with the text of the wrapped error.\<close>

fun sprintf :: "(string \<Rightarrow> string) \<Rightarrow> string \<Rightarrow> fmt_arg list \<Rightarrow> string \<Rightarrow> string" where
  "sprintf quote [] args wrapped = []"
| "sprintf quote [c] args wrapped = [c]"
| "sprintf quote (c # d # f) args wrapped =
     (if c \<noteq> CHR ''%'' then c # sprintf quote (d # f) args wrapped
      else if d = CHR ''w'' then wrapped @ sprintf quote f args wrapped
      else case args of
        ArgS s # rest \<Rightarrow> (if d = CHR ''q'' then quote s else s) @ sprintf quote f rest wrapped
      | ArgI i # rest \<Rightarrow> show_int i @ sprintf quote f rest wrapped
      | [] \<Rightarrow> ''%!'' @ d # ''(MISSING)'' @ sprintf quote f [] wrapped)"

fun error_text :: "(string \<Rightarrow> string) \<Rightarrow> go_error \<Rightarrow> string" where
  "error_text quote (Sentinel s) = sentinel_text s"
| "error_text quote (ErrorsNew s) = s"
| "error_text quote (Errorf f args None) = sprintf quote f args []"
| "error_text quote (Errorf f args (Some e)) = sprintf quote f args (error_text quote e)"
| "error_text quote (PlatformError p c h r m a x) = PlatformError_Error (PlatformError p c h r m a x)"

end
