(* ===== verification/Netbroker.thy ===== *)
theory Netbroker
  imports Egress_Broker Go_Decode Go_URL Go_Fmt
begin

text \<open>
  Command \<open>cmd/netbroker\<close>: the process on the privileged side of the egress boundary. It answers one JSON
  request per connection on a fixed Unix socket, or one request given by its flags. Flag parsing, the user
  database and the socket are the environment; writes that fail are ignored by the code.
\<close>

section \<open>Messages\<close>

definition brokerSocket :: string where "brokerSocket = ''/run/ivpn/netbroker.sock''"
definition maxRequest :: nat where "maxRequest = 4096"

record wireRequest =
  wr_Operation :: string
  wr_Request :: BrokerRequest

datatype wire_result = StatusResult BrokerStatus | RunResult BrokerResult

record wireResponse =
  ws_OK :: bool
  ws_Code :: string
  ws_Error :: string
  ws_Result :: "wire_result option"

definition wire_ok :: "wire_result \<Rightarrow> wireResponse" where
  "wire_ok res = \<lparr>ws_OK = True, ws_Code = [], ws_Error = [], ws_Result = Some res\<rparr>"

definition wire_fail :: "string \<Rightarrow> string \<Rightarrow> wireResponse" where
  "wire_fail code message = \<lparr>ws_OK = False, ws_Code = code, ws_Error = message, ws_Result = None\<rparr>"

text \<open>The encoding: empty code, error and result are omitted.\<close>

fun result_json :: "wire_result \<Rightarrow> json" where
  "result_json (StatusResult s) =
     JObj [(''platform_execution'', JStr (PlatformExecution s)), (''execution_enabled'', JBool (ExecutionEnabled s)),
           (''registered_count'', JNum (show_int (int (RegisteredCount s))))]"
| "result_json (RunResult r) =
     JObj [(''accepted'', JBool (Accepted r)), (''dry_run'', JBool (DryRun_flag r)), (''endpoint_id'', JStr (res_endpoint r)),
           (''message'', JStr (Message r))]"

definition response_json :: "wireResponse \<Rightarrow> json" where
  "response_json r =
     JObj ([(''ok'', JBool (ws_OK r))] @
           (if ws_Code r = [] then [] else [(''code'', JStr (ws_Code r))]) @
           (if ws_Error r = [] then [] else [(''error'', JStr (ws_Error r))]) @
           (case ws_Result r of None \<Rightarrow> [] | Some x \<Rightarrow> [(''result'', result_json x)]))"

definition writeJSON :: "wireResponse \<Rightarrow> bytes" where
  "writeJSON r = json_print True (response_json r) @ [LF]"

section \<open>Decoding\<close>

text \<open>\<open>DisallowUnknownFields\<close>: a member that matches no field is an error, in the nested struct as well.\<close>

fun decode_strict :: "string list \<Rightarrow> (string \<Rightarrow> json \<Rightarrow> 'r \<Rightarrow> go_error + 'r) \<Rightarrow> (string \<times> json) list \<Rightarrow> 'r \<Rightarrow> go_error + 'r" where
  "decode_strict names set_field [] r = Inr r"
| "decode_strict names set_field ((k, v) # ms) r =
     (case field_of names k of
        None \<Rightarrow> Inl (ErrorsNew ''json: unknown field'')
      | Some c \<Rightarrow>
          (case set_field c v r of Inl err \<Rightarrow> Inl err | Inr r' \<Rightarrow> decode_strict names set_field ms r'))"

definition decode_struct :: "string list \<Rightarrow> (string \<Rightarrow> json \<Rightarrow> 'r \<Rightarrow> go_error + 'r) \<Rightarrow> json \<Rightarrow> 'r \<Rightarrow> go_error + 'r" where
  "decode_struct names set_field v r =
     (case v of JObj ms \<Rightarrow> decode_strict names set_field ms r | JNull \<Rightarrow> Inr r | _ \<Rightarrow> Inl type_error)"

definition request_fields :: "string list" where "request_fields = [''job_id'', ''platform'', ''endpoint_id'']"

definition set_request :: "string \<Rightarrow> json \<Rightarrow> BrokerRequest \<Rightarrow> go_error + BrokerRequest" where
  "set_request c v r =
     (if c = ''job_id'' then map_sum id (\<lambda>s. r\<lparr>req_job_id := s\<rparr>) (decode_string v (req_job_id r))
      else if c = ''platform'' then map_sum id (\<lambda>s. r\<lparr>req_platform := s\<rparr>) (decode_string v (req_platform r))
      else map_sum id (\<lambda>s. r\<lparr>req_endpoint := s\<rparr>) (decode_string v (req_endpoint r)))"

definition wire_fields :: "string list" where "wire_fields = [''operation'', ''request'']"

definition set_wire :: "string \<Rightarrow> json \<Rightarrow> wireRequest \<Rightarrow> go_error + wireRequest" where
  "set_wire c v q =
     (if c = ''operation'' then map_sum id (\<lambda>s. q\<lparr>wr_Operation := s\<rparr>) (decode_string v (wr_Operation q))
      else map_sum id (\<lambda>r. q\<lparr>wr_Request := r\<rparr>) (decode_struct request_fields set_request v (wr_Request q)))"

definition zero_request :: wireRequest where
  "zero_request = \<lparr>wr_Operation = [], wr_Request = \<lparr>req_job_id = [], req_platform = [], req_endpoint = []\<rparr>\<rparr>"

text \<open>
  One value of the stream and what follows it. A second \<open>Decode\<close> gives \<open>io.EOF\<close> exactly when only white
  space follows. Twice the length is enough fuel for the parser.
\<close>

definition next_value :: "bytes \<Rightarrow> (json \<times> bytes) option" where
  "next_value payload = parse_value (2 * length payload + 2) payload"

definition Decode :: "bytes \<Rightarrow> go_error + wireRequest \<times> bytes" where
  "Decode payload =
     (case next_value payload of
        None \<Rightarrow> Inl (ErrorsNew ''invalid JSON'')
      | Some (v, rest) \<Rightarrow> map_sum id (\<lambda>q. (q, rest)) (decode_struct wire_fields set_wire v zero_request))"

section \<open>Connections\<close>

text \<open>
  A peer in time: what it sends, in pieces with the time of their arrival, and when it closes its side or the connection
  breaks with an error; it may do neither. Times count from the call of \<open>SetDeadline\<close>, which does not fail on an open
  connection.
\<close>

record peer =
  peer_chunks :: "(time \<times> bytes) list"
  peer_close :: "(time \<times> go_error option) option"

definition connectionDeadline :: time where "connectionDeadline = 5 * Second"

definition errTimeout :: go_error where "errTimeout = ErrorsNew ''i/o timeout''"

text \<open>\<open>ReadBytes('\n')\<close> on a reader limited to one byte more than a request may have: what it returns without reading on.\<close>

definition buffered_line :: "bytes \<Rightarrow> bytes option" where
  "buffered_line data =
     (let got = take (maxRequest + 1) data
      in if LF \<in> set got then Some (takeWhile (\<lambda>c. c \<noteq> LF) got @ [LF])
         else if length got = maxRequest + 1 then Some got
         else None)"

text \<open>The loop of reads: the result of \<open>ReadBytes\<close> and the time when it is there. An end of the data is no error for the caller.\<close>

fun read_until :: "time \<Rightarrow> time \<Rightarrow> bytes \<Rightarrow> (time \<times> bytes) list \<Rightarrow> (time \<times> go_error option) option \<Rightarrow> (go_error + bytes) \<times> time" where
  "read_until deadline t data [] fin =
     (case buffered_line data of
        Some line \<Rightarrow> (Inr line, t)
      | None \<Rightarrow>
          (case fin of
             None \<Rightarrow> (Inl errTimeout, deadline)
           | Some (at, err) \<Rightarrow>
               if at < deadline
               then (case err of None \<Rightarrow> Inr data | Some e \<Rightarrow> if errors_Is e ErrEOF then Inr data else Inl e, max t at)
               else (Inl errTimeout, deadline)))"
| "read_until deadline t data ((at, piece) # chunks) fin =
     (case buffered_line data of
        Some line \<Rightarrow> (Inr line, t)
      | None \<Rightarrow>
          if at < deadline then read_until deadline (max t at) (data @ piece) chunks fin else (Inl errTimeout, deadline))"

definition read_request :: "peer \<Rightarrow> go_error + bytes" where
  "read_request p = fst (read_until connectionDeadline 0 [] (peer_chunks p) (peer_close p))"

definition read_time :: "peer \<Rightarrow> time" where
  "read_time p = snd (read_until connectionDeadline 0 [] (peer_chunks p) (peer_close p))"

definition errorCode :: "go_error \<Rightarrow> string" where
  "errorCode err =
     (if errors_Is err ErrUnknownEndpoint then ''UNKNOWN_ENDPOINT''
      else if errors_Is err ErrEndpointNotHealthy then ''ENDPOINT_NOT_HEALTHY''
      else if errors_Is err ErrExecutionDisabled then ''EXECUTION_DISABLED''
      else ''INVALID_REQUEST'')"

definition publicError :: "go_error \<Rightarrow> string" where
  "publicError err =
     (if errorCode err = ''UNKNOWN_ENDPOINT'' then ''endpoint ID is not registered''
      else if errorCode err = ''ENDPOINT_NOT_HEALTHY'' then ''endpoint is not currently healthy''
      else if errorCode err = ''EXECUTION_DISABLED'' then ''privileged namespace execution is disabled''
      else ''request rejected'')"

definition run_operation :: "string \<Rightarrow> 'z egress_world_scheme GuardedBroker \<Rightarrow> wireRequest \<Rightarrow> ('z egress_world_scheme, wire_result) act" where
  "run_operation GOOS b q w =
     (if wr_Operation q = ''status'' then ok (StatusResult (Status GOOS b (registry w))) w
      else if wr_Operation q = ''dry_run'' then lift (map_sum id RunResult (DryRun b (registry w) (wr_Request q))) w
      else if wr_Operation q = ''execute'' then
        ebind now (\<lambda>nw. ebind (Execute GOOS b (wr_Request q) nw) (\<lambda>res. ok (RunResult res))) w
      else fail (ErrorsNew ''operation must be status, dry_run, or execute'') w)"

definition handleConnection :: "string \<Rightarrow> 'z egress_world_scheme GuardedBroker \<Rightarrow> peer \<Rightarrow> 'z egress_world_scheme \<Rightarrow>
    wireResponse \<times> 'z egress_world_scheme" where
  "handleConnection GOOS b p w =
     (case read_request p of
        Inl _ \<Rightarrow> (wire_fail ''INVALID_REQUEST'' ''request could not be read'', w)
      | Inr payload \<Rightarrow>
          if length payload > maxRequest then (wire_fail ''REQUEST_TOO_LARGE'' ''request exceeds size limit'', w)
          else case Decode payload of
            Inl _ \<Rightarrow> (wire_fail ''INVALID_REQUEST'' ''request must match the typed broker schema'', w)
          | Inr (q, rest) \<Rightarrow>
              if skip_ws rest \<noteq> [] then (wire_fail ''INVALID_REQUEST'' ''request must contain one JSON object'', w)
              else case run_operation GOOS b q w of
                (Inl err, w') \<Rightarrow> (wire_fail (errorCode err) (publicError err), w')
              | (Inr res, w') \<Rightarrow> (wire_ok res, w'))"

section \<open>The service\<close>

text \<open>
  The world of the process: the mode of the socket file, the answers written so far, and how long each connection was
  waited for. What the system says to the calls of \<open>serve\<close> is its environment; \<open>Accept\<close> fails with the context done
  after a signal. \<open>nv_cleanup\<close> says whether the socket file is gone after the deferred \<open>os.Remove\<close> and the closing of
  the listener, which unlinks it too; the errors of both are ignored.
\<close>

record netbroker_world = egress_world +
  nb_socket :: "nat option"
  nb_answers :: "bytes list"
  nb_waits :: "time list"

datatype remove_result = Removed | NotExist | RemoveFails go_error

datatype accept = is_connection: Connection peer | ShutDown | AcceptFails go_error

record serve_env =
  nv_user :: "go_error + string"
  nv_remove :: remove_result
  nv_listen :: "go_error + nat"
  nv_chmod :: "go_error option"
  nv_accepts :: "accept list"
  nv_cleanup :: bool

definition serve_connection :: "string \<Rightarrow> 'z netbroker_world_scheme GuardedBroker \<Rightarrow> peer \<Rightarrow> 'z netbroker_world_scheme \<Rightarrow>
    'z netbroker_world_scheme" where
  "serve_connection GOOS b p w =
     (let (resp, w') = handleConnection GOOS b p w in w'\<lparr>nb_answers := nb_answers w' @ [writeJSON resp], nb_waits := nb_waits w' @ [read_time p]\<rparr>)"

text \<open>The loop over what \<open>Accept\<close> returns; with nothing more to accept it is still waiting, the result \<open>None\<close>.\<close>

fun accept_loop :: "string \<Rightarrow> 'z netbroker_world_scheme GuardedBroker \<Rightarrow> accept list \<Rightarrow> 'z netbroker_world_scheme \<Rightarrow>
    (go_error + unit) option \<times> 'z netbroker_world_scheme" where
  "accept_loop GOOS b [] w = (None, w)"
| "accept_loop GOOS b (Connection p # es) w = accept_loop GOOS b es (serve_connection GOOS b p w)"
| "accept_loop GOOS b (ShutDown # es) w = (Some (Inr ()), w)"
| "accept_loop GOOS b (AcceptFails err # es) w = (Some (Inl (Errorf ''accept broker request: %w'' [] (Some err))), w)"

text \<open>The deferred calls remove the socket and close the listener when the function returns.\<close>

definition listening :: "string \<Rightarrow> serve_env \<Rightarrow> 'z netbroker_world_scheme GuardedBroker \<Rightarrow> 'z netbroker_world_scheme \<Rightarrow>
    (go_error + unit) option \<times> 'z netbroker_world_scheme" where
  "listening GOOS env b w =
     (let (result, w') =
        (case nv_chmod env of
           Some err \<Rightarrow> (Some (Inl (Errorf ''set broker socket permissions: %w'' [] (Some err))), w)
         | None \<Rightarrow> accept_loop GOOS b (nv_accepts env) (w\<lparr>nb_socket := Some 432\<rparr>))
      in (result, if result \<noteq> None \<and> nv_cleanup env then w'\<lparr>nb_socket := None\<rparr> else w'))"

definition serve :: "string \<Rightarrow> serve_env \<Rightarrow> 'z netbroker_world_scheme GuardedBroker \<Rightarrow> 'z netbroker_world_scheme \<Rightarrow>
    (go_error + unit) option \<times> 'z netbroker_world_scheme" where
  "serve GOOS env b w =
     (if GOOS \<noteq> ''linux'' then
        (Some (Inl (Errorf ''%w: service mode requires Linux'' [] (Some (Sentinel ErrExecutionDisabled)))), w)
      else if nv_user env \<noteq> Inr ''0'' then (Some (Inl (ErrorsNew ''service mode must run as root'')), w)
      else case nv_remove env of
        RemoveFails err \<Rightarrow> (Some (Inl (Errorf ''remove stale broker socket: %w'' [] (Some err))), w)
      | _ \<Rightarrow>
          (let w = w\<lparr>nb_socket := None\<rparr>
           in case nv_listen env of
                Inl err \<Rightarrow> (Some (Inl (Errorf ''listen on broker socket: %w'' [] (Some err))), w)
              | Inr mode \<Rightarrow> listening GOOS env b (w\<lparr>nb_socket := Some mode\<rparr>)))"

section \<open>The process\<close>

text \<open>How the process ends: its exit code, standard output and standard error; or it keeps serving.\<close>

datatype ending = Exits nat bytes bytes | Serving

record flags =
  fl_mode :: string
  fl_job :: string
  fl_platform :: string
  fl_endpoint :: string

definition fatal :: "(rune \<Rightarrow> bool) \<Rightarrow> string \<Rightarrow> go_error \<Rightarrow> ending" where
  "fatal IsPrint code err =
     (let message = (if HasPrefix code ''BROKER_'' \<or> HasPrefix code ''REGISTRY_'' \<or> code = ''INVALID_MODE''
                     then error_text (Quote IsPrint) err else publicError err)
      in Exits 1 [] (writeJSON (wire_fail code message)))"

definition request_of :: "flags \<Rightarrow> BrokerRequest" where
  "request_of fl = \<lparr>req_job_id = fl_job fl, req_platform = fl_platform fl, req_endpoint = fl_endpoint fl\<rparr>"

definition run_mode :: "(rune \<Rightarrow> bool) \<Rightarrow> string \<Rightarrow> serve_env \<Rightarrow> flags \<Rightarrow> 'z netbroker_world_scheme GuardedBroker \<Rightarrow>
    'z netbroker_world_scheme \<Rightarrow> ending \<times> 'z netbroker_world_scheme" where
  "run_mode IsPrint GOOS env fl b w =
     (if fl_mode fl = ''status'' then (Exits 0 (writeJSON (wire_ok (StatusResult (Status GOOS b (registry w))))) [], w)
      else if fl_mode fl = ''dry-run'' then
        (case DryRun b (registry w) (request_of fl) of
           Inl err \<Rightarrow> (fatal IsPrint (errorCode err) err, w)
         | Inr res \<Rightarrow> (Exits 0 (writeJSON (wire_ok (RunResult res))) [], w))
      else if fl_mode fl = ''execute'' then
        (case ebind now (Execute GOOS b (request_of fl)) w of
           (Inl err, w') \<Rightarrow> (fatal IsPrint (errorCode err) err, w')
         | (Inr _, w') \<Rightarrow> (Exits 0 [] [], w'))
      else if fl_mode fl = ''serve'' then
        (case serve GOOS env b w of
           (None, w') \<Rightarrow> (Serving, w')
         | (Some (Inl err), w') \<Rightarrow> (fatal IsPrint (errorCode err) err, w')
         | (Some (Inr _), w') \<Rightarrow> (Exits 0 [] [], w'))
      else (fatal IsPrint ''INVALID_MODE'' (Errorf ''unknown mode %q'' [ArgS (fl_mode fl)] None), w))"

definition netbroker_main :: "(rune \<Rightarrow> bool) \<Rightarrow> string \<Rightarrow> serve_env \<Rightarrow> flags \<Rightarrow> 'z netbroker_world_scheme \<Rightarrow>
    ending \<times> 'z netbroker_world_scheme" where
  "netbroker_main IsPrint GOOS env fl w =
     (case NewRegistry DefaultEndpointCatalog of
        Inl err \<Rightarrow> (fatal IsPrint ''REGISTRY_INVALID'' err, w)
      | Inr reg \<Rightarrow>
          (case NewGuardedBroker (Some reg) (Some DisabledNamespaceExecutor_Activate) False (90 * Second) of
             Inl err \<Rightarrow> (fatal IsPrint ''BROKER_INVALID'' err, w)
           | Inr b \<Rightarrow> run_mode IsPrint GOOS env fl b (w\<lparr>registry := reg\<rparr>)))"

end
