(* ===== verification/Netbroker_Props.thy ===== *)
theory Netbroker_Props
  imports Netbroker Store_Codec
begin

text \<open>
  What the privileged process guarantees: which requests it accepts, that it never changes the network, that each
  connection gets one well-formed line that reveals nothing of the error behind it, and that it ends when it is told to.
\<close>

section \<open>Operations\<close>

context inert_executor
begin

text \<open>With an executor that refuses, an operation only reads the clock, and an execution fails.\<close>

lemma run_operation_inert:
  assumes "executor b = Activate" and "run_operation GOOS b q w = (res, w')"
  shows "w' = w \<or> w' = w\<lparr>ticks := Suc (ticks w)\<rparr>"
    and "wr_Operation q \<notin> {''status'', ''dry_run''} \<Longrightarrow> \<exists>err. res = Inl err"
proof -
  obtain err where "Execute GOOS b (wr_Request q) (clock w (ticks w)) (w\<lparr>ticks := Suc (ticks w)\<rparr>) = (Inl err, w\<lparr>ticks := Suc (ticks w)\<rparr>)"
    using Execute_inert [OF assms(1)] by blast
  then show "w' = w \<or> w' = w\<lparr>ticks := Suc (ticks w)\<rparr>" "wr_Operation q \<notin> {''status'', ''dry_run''} \<Longrightarrow> \<exists>err. res = Inl err"
    using assms(2) by (auto simp: run_operation_def now_def ebind_def ok_def fail_def lift_def split: if_splits)
qed

lemma handleConnection_inert:
  assumes "executor b = Activate" and "handleConnection GOOS b p w = (resp, w')"
  shows "w' = w \<or> w' = w\<lparr>ticks := Suc (ticks w)\<rparr>"
  using assms(2) by (auto simp: handleConnection_def split: sum.splits prod.splits if_splits dest: run_operation_inert(1) [OF assms(1)])

end

lemma DryRun_accepts:
  assumes "registry_inv r"
  shows "(\<exists>res. DryRun b r q = Inr res) \<longleftrightarrow> request_ok q \<and> endpoint_at r (req_endpoint q) \<noteq> None"
    and "DryRun b r q = Inr res \<Longrightarrow> res = \<lparr>Accepted = True, DryRun_flag = True, res_endpoint = req_endpoint q,
           Message = ''registered request accepted; no network changes made''\<rparr>"
proof -
  have res: "(\<exists>e h. Resolve r (req_endpoint q) = Inr (e, h)) \<longleftrightarrow> endpoint_at r (req_endpoint q) \<noteq> None"
    by (simp add: Resolve_lookup [OF assms] endpoint_at_def) (metis endpointRecord_eta)
  show "(\<exists>res. DryRun b r q = Inr res) \<longleftrightarrow> request_ok q \<and> endpoint_at r (req_endpoint q) \<noteq> None"
    using BrokerRequest_Validate_Inr [of q] unfolding res [symmetric] by (auto simp: DryRun_def split: sum.splits prod.splits)
  show "res = \<lparr>Accepted = True, DryRun_flag = True, res_endpoint = req_endpoint q,
           Message = ''registered request accepted; no network changes made''\<rparr>" if "DryRun b r q = Inr res"
    using that registry_inv_lookup [OF assms, of "req_endpoint q"]
    by (auto simp: DryRun_def Resolve_lookup [OF assms] split: sum.splits prod.splits)
qed

section \<open>Lines\<close>

lemma bv_LF: "bv LF = 10"
  by (simp add: bv_def)

lemma bv_hex_digit: "n < 16 \<Longrightarrow> bv (hex_digit n) \<noteq> 10"
  by (simp add: hex_digit_def)

lemma esc_ascii_no_LF: "bv c < 128 \<Longrightarrow> d \<in> set (esc_ascii h c) \<Longrightarrow> bv d \<noteq> 10"
  by (auto simp: esc_ascii_def bv_hex_digit split: if_splits) (simp_all add: bv_def)

lemma utf8_step_high: "utf8_step s = Some (r, w) \<Longrightarrow> 128 \<le> bv (hd s) \<Longrightarrow> d \<in> set (take w s) \<Longrightarrow> 128 \<le> bv d"
  by (cases s) (auto simp: utf8_step_Cons lead_width_def cont_byte_def dest: second_cont split: list.splits if_splits)

lemma json_escape_no_LF: "d \<in> set (json_escape h s) \<Longrightarrow> bv d \<noteq> 10"
proof (induction h s rule: json_escape.induct)
  case (1 h s)
  note d = 1(4) [unfolded json_escape.simps [of h s]]
  show ?case
  proof (cases "s = [] \<or> bv (hd s) < 128")
    case True
    then show ?thesis using d 1(1) by (auto dest: esc_ascii_no_LF split: if_splits)
  next
    case False
    then consider r w where "utf8_step s = Some (r, w)" "d \<in> set (take w s) \<or> d \<in> set (json_escape h (drop w s)) \<or> d \<in> set (BACKSLASH # ''u20289'')"
      | "utf8_step s = None" "d \<in> set (json_escape h (tl s)) \<or> d \<in> set (BACKSLASH # ''ufd'')"
      using d by (auto split: if_splits option.splits)
    then show ?thesis
    proof cases
      case 1
      with False "1.IH"(3) utf8_step_high [OF 1(1), of d] show ?thesis by (auto simp: bv_def)
    next
      case 2
      with False "1.IH"(2) show ?thesis by (auto simp: bv_def)
    qed
  qed
qed

lemma comma_join_set: "d \<in> set (comma_join xs) \<Longrightarrow> d = CHR '','' \<or> (\<exists>x \<in> set xs. d \<in> set x)"
  by (induction xs rule: comma_join.induct) auto

lemma json_print_no_LF: "json_wf j \<Longrightarrow> d \<in> set (json_print h j) \<Longrightarrow> bv d \<noteq> 10"
proof (induction j)
  case (JNum n)
  then obtain i where "n = show_int i" by auto
  moreover have "48 \<le> bv c" if "c \<in> set (show_nat m)" for c m
    using that show_nat_digits [of m] by (simp add: list_all_iff is_digit_def)
  ultimately show ?case using JNum.prems(2) by (auto simp: show_int_def bv_def split: if_splits) force+
next
  case (JStr s)
  then show ?case by (auto simp: json_string_def bv_def dest: json_escape_no_LF)
next
  case (JArr xs)
  then show ?case by (auto simp: bv_def dest!: comma_join_set)
next
  case (JObj ms)
  have "bv d \<noteq> 10" if "(k, v) \<in> set ms" "d \<in> set (json_string h k @ CHR '':'' # json_print h v)" for k v
    using that JObj.prems(1) JObj.IH [of "(k, v)" v] json_escape_no_LF [of d h k] by (auto simp: json_string_def bv_def)
  then show ?case using JObj.prems by (auto simp: bv_def dest!: comma_join_set) blast+
qed (auto simp: bv_def split: if_splits)

text \<open>A document printed on a line of its own, and read back from it.\<close>

lemma json_line:
  assumes "json_wf j"
  shows "LF \<notin> set (json_print h j)" "json_parse (json_print h j) = Some j"
  using json_print_no_LF [OF assms, of LF h] json_parse_print [OF assms] by (auto simp: bv_LF)

section \<open>Answers\<close>

lemma endpoint_id_valid:
  assumes "Endpoint_Validate e = Inr ()"
  shows "ValidString (ep_id e)"
proof (rule ascii_const)
  have "lower_digit c \<or> c = CHR ''-''" if "c \<in> set (ep_id e)" for c
    using that Endpoint_Validate_id [OF assms] by (auto simp: endpointIDPattern_def list_all_iff split: list.splits)
  then show "list_all (\<lambda>c. bv c < 128) (ep_id e)"
    by (force simp: list_all_iff lower_digit_def between_def bv_def)
qed

lemma run_result_wf:
  assumes "registry_inv (registry w)" and "ValidString GOOS" and "run_operation GOOS b q w = (Inr res, w')"
  shows "json_wf (result_json res)"
proof -
  have ep: "ValidString (ep_id e)" if "Resolve (registry w) k = Inr (e, h)" for k e h
    using that registry_inv_lookup [OF assms(1), of k] by (auto simp: Resolve_lookup [OF assms(1)] intro: endpoint_id_valid)
  have lits: "ValidString ''registered request accepted; no network changes made''" "ValidString ''namespace activation completed''"
    by (rule ascii_const, simp add: bv_def)+
  have keys: "list_all ValidString [''platform_execution'', ''execution_enabled'', ''registered_count'', ''accepted'', ''dry_run'', ''endpoint_id'', ''message'']"
    by (simp add: bv_def)
  have dry: "json_wf (result_json (RunResult r))" if "DryRun b (registry w) x = Inr r" for x r
    using that ep lits keys by (auto simp: DryRun_def split: sum.splits prod.splits)
  have exe: "json_wf (result_json (RunResult r))" if "Execute GOOS b x nw (w\<lparr>ticks := n\<rparr>) = (Inr r, w'')" for x nw r n w''
    using that ep lits keys by (auto simp: Execute_def ebind_def ok_def lift_def ensure_def fail_def split: sum.splits prod.splits if_splits)
  show ?thesis
    using assms(2,3) dry exe keys
    by (auto simp: run_operation_def ok_def lift_def fail_def now_def Status_def ebind_def map_sum_def split: if_splits sum.splits prod.splits)
qed

text \<open>The pairs of code and text that a refused request can see.\<close>

definition public_errors :: "(string \<times> string) list" where
  "public_errors =
     [(''INVALID_REQUEST'', ''request could not be read''), (''REQUEST_TOO_LARGE'', ''request exceeds size limit''),
      (''INVALID_REQUEST'', ''request must match the typed broker schema''),
      (''INVALID_REQUEST'', ''request must contain one JSON object''), (''INVALID_REQUEST'', ''request rejected''),
      (''UNKNOWN_ENDPOINT'', ''endpoint ID is not registered''),
      (''ENDPOINT_NOT_HEALTHY'', ''endpoint is not currently healthy''),
      (''EXECUTION_DISABLED'', ''privileged namespace execution is disabled'')]"

definition one_line :: "bytes \<Rightarrow> json \<Rightarrow> bool" where
  "one_line a j \<longleftrightarrow> (\<exists>line. a = line @ [LF] \<and> LF \<notin> set line \<and> json_parse line = Some j)"

definition answer_typed :: "wireResponse \<Rightarrow> bool" where
  "answer_typed resp \<longleftrightarrow>
     (if ws_OK resp then ws_Code resp = [] \<and> ws_Error resp = [] \<and> ws_Result resp \<noteq> None
      else (ws_Code resp, ws_Error resp) \<in> set public_errors \<and> ws_Result resp = None)"

lemma public_error_pairs: "(errorCode err, publicError err) \<in> set public_errors"
  by (simp add: errorCode_def publicError_def public_errors_def)

lemma public_texts: "list_all (\<lambda>(c, m). ValidString c \<and> ValidString m) public_errors"
  unfolding public_errors_def by (simp add: bv_def)

lemma response_wf:
  assumes "\<And>x. ws_Result resp = Some x \<Longrightarrow> json_wf (result_json x)" and "answer_typed resp"
  shows "json_wf (response_json resp)"
proof -
  have "ValidString (ws_Code resp) \<and> ValidString (ws_Error resp)"
    using assms(2) public_texts by (fastforce simp: answer_typed_def list_all_iff split: if_splits)
  moreover have "list_all ValidString [''ok'', ''code'', ''error'', ''result'']" by (simp add: bv_def)
  ultimately show ?thesis using assms(1) by (auto simp: response_json_def split: option.splits)
qed

lemma answer_of_connection:
  assumes "registry_inv (registry w)" and "ValidString GOOS" and "handleConnection GOOS b p w = (resp, w')"
  shows "answer_typed resp \<and> one_line (writeJSON resp) (response_json resp)"
proof -
  have fixed: "(c, m) \<in> set public_errors \<Longrightarrow> answer_typed (wire_fail c m)" for c m
    by (simp add: answer_typed_def wire_fail_def)
  have typed: "answer_typed resp"
    using assms(3) public_error_pairs
    by (auto simp: handleConnection_def wire_ok_def split: sum.splits prod.splits if_splits intro!: fixed)
       (simp_all add: public_errors_def answer_typed_def)
  have "json_wf (result_json x)" if "ws_Result resp = Some x" for x
    using that assms(3) run_result_wf [OF assms(1,2)]
    by (auto simp: handleConnection_def wire_ok_def wire_fail_def split: sum.splits prod.splits if_splits)
  from response_wf [OF this typed] have "one_line (writeJSON resp) (response_json resp)"
    using json_line [of "response_json resp" True] by (auto simp: one_line_def writeJSON_def)
  with typed show ?thesis ..
qed

section \<open>Requests\<close>

text \<open>The encoding of a request that the field tags of the two structs prescribe.\<close>

definition request_json :: "wireRequest \<Rightarrow> json" where
  "request_json q =
     JObj [(''operation'', JStr (wr_Operation q)),
           (''request'', JObj [(''job_id'', JStr (req_job_id (wr_Request q))), (''platform'', JStr (req_platform (wr_Request q))),
                               (''endpoint_id'', JStr (req_endpoint (wr_Request q)))])]"

definition request_text_ok :: "wireRequest \<Rightarrow> bool" where
  "request_text_ok q \<longleftrightarrow> ValidString (wr_Operation q) \<and> ValidString (req_job_id (wr_Request q)) \<and>
     ValidString (req_platform (wr_Request q)) \<and> ValidString (req_endpoint (wr_Request q))"

lemma wire_folds:
  "fold_name ''operation'' = map bv ''OPERATION''" "fold_name ''request'' = map bv ''REQUEST''" "fold_name ''job_id'' = map bv ''JOB_ID''"
  "fold_name ''platform'' = map bv ''PLATFORM''" "fold_name ''endpoint_id'' = map bv ''ENDPOINT_ID''"
  by (simp_all add: fold_name_ascii ascii_def bv_def fold_rune_def)

lemma wire_field_of: "c \<in> set wire_fields \<Longrightarrow> field_of wire_fields c = Some c"
proof (rule field_of_self)
  have "map fold_name wire_fields = map (map bv) [''OPERATION'', ''REQUEST'']"
    by (simp only: wire_fields_def list.map(2) wire_folds) simp
  then show "distinct (map fold_name wire_fields)" by (simp only:) (rule distinct_map_bv, simp)
qed

lemma request_field_of: "c \<in> set request_fields \<Longrightarrow> field_of request_fields c = Some c"
proof (rule field_of_self)
  have "map fold_name request_fields = map (map bv) [''JOB_ID'', ''PLATFORM'', ''ENDPOINT_ID'']"
    by (simp only: request_fields_def list.map(2) wire_folds) simp
  then show "distinct (map fold_name request_fields)" by (simp only:) (rule distinct_map_bv, simp)
qed

lemma request_json_wf: "request_text_ok q \<Longrightarrow> json_wf (request_json q)"
proof -
  have "list_all ValidString [''operation'', ''request'', ''job_id'', ''platform'', ''endpoint_id'']" by (simp add: bv_def)
  then show "request_text_ok q \<Longrightarrow> json_wf (request_json q)" by (simp add: request_json_def request_text_ok_def)
qed

lemma Decode_request:
  assumes "request_text_ok q"
  shows "Decode (json_print h (request_json q) @ [LF]) = Inr (q, [LF])"
proof -
  let ?j = "json_print h (request_json q)"
  have "parse_value (2 * length (?j @ [LF]) + 2) (?j @ [LF]) = Some (request_json q, [LF])"
    using request_json_wf [OF assms] jcost_le_length [of "request_json q" h]
    by (intro parse_value_print) (simp_all add: num_stop_def is_digit_def bv_def)
  moreover have "decode_struct wire_fields set_wire (request_json q) zero_request = Inr q"
    using wire_field_of [unfolded wire_fields_def] request_field_of [unfolded request_fields_def]
    by (simp add: request_json_def decode_struct_def wire_fields_def request_fields_def set_wire_def set_request_def decode_string_def zero_request_def)
  ultimately show ?thesis by (simp only: Decode_def next_value_def option.case prod.case map_sum.simps)
qed

section \<open>Reading before the deadline\<close>

text \<open>The bytes that arrive before the deadline, and how they end.\<close>

definition peer_sends :: "peer \<Rightarrow> bytes" where
  "peer_sends p = concat (map snd (takeWhile (\<lambda>x. fst x < 5 * Second) (peer_chunks p)))"

lemma buffered_line_append: "buffered_line data = Some line \<Longrightarrow> buffered_line (data @ x) = Some line"
proof (cases "LF \<in> set (take (maxRequest + 1) data)")
  case True
  then have "takeWhile (\<lambda>c. c \<noteq> LF) (take (maxRequest + 1) data @ y) = takeWhile (\<lambda>c. c \<noteq> LF) (take (maxRequest + 1) data)" for y
    by (rule takeWhile_append1) simp
  then show "buffered_line data = Some line \<Longrightarrow> buffered_line (data @ x) = Some line"
    using True by (auto simp: buffered_line_def Let_def)
next
  case False
  then show "buffered_line data = Some line \<Longrightarrow> buffered_line (data @ x) = Some line"
    by (auto simp: buffered_line_def Let_def min_def split: if_splits)
qed

lemma read_until_line:
  "buffered_line (data @ concat (map snd (takeWhile (\<lambda>x. fst x < deadline) chunks))) = Some line \<Longrightarrow>
     fst (read_until deadline t data chunks fin) = Inr line"
proof (induction deadline t data chunks fin rule: read_until.induct)
  case (2 deadline t data at piece chunks fin)
  then show ?case
    using buffered_line_append [of data _ "concat (map snd (takeWhile (\<lambda>x. fst x < deadline) ((at, piece) # chunks)))"]
    by (auto split: option.splits if_splits)
qed simp

lemma read_request_line: "buffered_line (peer_sends p) = Some line \<Longrightarrow> read_request p = Inr line"
  unfolding read_request_def peer_sends_def connectionDeadline_def by (rule read_until_line) simp



lemma read_line:
  assumes "LF \<notin> set line" and "length line < maxRequest" and "peer_sends p = line @ LF # after"
  shows "read_request p = Inr (line @ [LF])"
proof -
  have t: "take (maxRequest + 1) (peer_sends p) = line @ LF # take (maxRequest - length line) after"
    using assms(2,3) by (simp add: Suc_diff_le)
  have "takeWhile (\<lambda>c. c \<noteq> LF) (line @ LF # u) = line" for u
    using assms(1) by (induction line) auto
  then have "buffered_line (peer_sends p) = Some (line @ [LF])" unfolding buffered_line_def Let_def t by simp
  then show ?thesis by (rule read_request_line)
qed

section \<open>The service\<close>



section \<open>The request schema\<close>

text \<open>
  What the documents of the protocol are, stated on the JSON value: an object (or null) whose members are named, up to the folding
  of case, like the fields of the struct and have values of their type, and no others.
\<close>

definition text_or_null :: "json \<Rightarrow> bool" where
  "text_or_null v \<longleftrightarrow> v = JNull \<or> (\<exists>s. v = JStr s)"

definition object_of :: "(string \<Rightarrow> json \<Rightarrow> bool) \<Rightarrow> json \<Rightarrow> bool" where
  "object_of P v \<longleftrightarrow> v = JNull \<or> (\<exists>ms. v = JObj ms \<and> (\<forall>(k, x) \<in> set ms. P k x))"

definition named :: "string \<Rightarrow> string \<Rightarrow> bool" where
  "named field k \<longleftrightarrow> fold_name k = fold_name field"

definition request_schema :: "json \<Rightarrow> bool" where
  "request_schema = object_of (\<lambda>k x. (named ''job_id'' k \<or> named ''platform'' k \<or> named ''endpoint_id'' k) \<and> text_or_null x)"

definition wire_schema :: "json \<Rightarrow> bool" where
  "wire_schema = object_of (\<lambda>k x. named ''operation'' k \<and> text_or_null x \<or> named ''request'' k \<and> request_schema x)"

lemma decode_strict_total:
  assumes "\<And>c x r. c \<in> set names \<Longrightarrow> (\<exists>r'. set_field c x r = Inr r') \<longleftrightarrow> ok_value c x"
  shows "(\<exists>r'. decode_strict names set_field ms r = Inr r') \<longleftrightarrow> (\<forall>(k, x) \<in> set ms. \<exists>c. field_of names k = Some c \<and> ok_value c x)"
proof (induction ms arbitrary: r)
  case (Cons m ms)
  obtain k x where m: "m = (k, x)" by fastforce
  show ?case
  proof (cases "field_of names k")
    case (Some c)
    then have "c \<in> set names" by (auto simp: field_of_def find_Some_iff)
    then show ?thesis using Some Cons.IH assms [of c x r] by (cases "set_field c x r") (auto simp: m)
  qed (auto simp: m)
qed simp

lemma decode_struct_total:
  assumes "\<And>c x r. c \<in> set names \<Longrightarrow> (\<exists>r'. set_field c x r = Inr r') \<longleftrightarrow> ok_value c x"
  shows "(\<exists>r'. decode_struct names set_field v r = Inr r') \<longleftrightarrow> object_of (\<lambda>k x. \<exists>c. field_of names k = Some c \<and> ok_value c x) v"
  using decode_strict_total [of names set_field ok_value, OF assms]
  by (cases v) (auto simp: decode_struct_def object_of_def)

lemma decode_string_total: "(\<exists>s. map_sum id f (decode_string v old) = Inr s) \<longleftrightarrow> text_or_null v"
  by (cases v) (auto simp: decode_string_def text_or_null_def)

lemma request_schema_exact: "(\<exists>r'. decode_struct request_fields set_request v r = Inr r') \<longleftrightarrow> request_schema v"
proof -
  have "(\<exists>r'. set_request c x r = Inr r') \<longleftrightarrow> text_or_null x" for c x r
    by (simp add: set_request_def decode_string_total)
  moreover have "(\<exists>c. field_of request_fields k = Some c) \<longleftrightarrow> named ''job_id'' k \<or> named ''platform'' k \<or> named ''endpoint_id'' k" for k
    by (auto simp: field_of_def request_fields_def named_def)
  ultimately show ?thesis
    using decode_struct_total [of request_fields set_request "\<lambda>c. text_or_null" v r] by (simp add: request_schema_def)
qed

lemma wire_schema_exact: "(\<exists>q'. decode_struct wire_fields set_wire v q = Inr q') \<longleftrightarrow> wire_schema v"
proof -
  have f: "(\<exists>c. field_of wire_fields k = Some c \<and> P c) \<longleftrightarrow> named ''operation'' k \<and> P ''operation'' \<or> named ''request'' k \<and> P ''request''" for k P
    by (auto simp: field_of_def wire_fields_def named_def wire_folds map_bv_inject)
  have "(\<exists>q'. set_wire c x q = Inr q') \<longleftrightarrow> (if c = ''operation'' then text_or_null x else request_schema x)" for c x q
    unfolding request_schema_exact [of x "wr_Request q", symmetric]
    by (cases "decode_struct request_fields set_request x (wr_Request q)") (simp_all add: set_wire_def decode_string_total)
  from decode_struct_total [of wire_fields set_wire "\<lambda>c x. if c = ''operation'' then text_or_null x else request_schema x" v q, OF this]
  show ?thesis unfolding f by (simp add: wire_schema_def)
qed

lemma Decode_schema:
  "(\<exists>q. Decode payload = Inr (q, rest)) \<longleftrightarrow>
   (\<exists>v. next_value payload = Some (v, rest) \<and> wire_schema v)"
  unfolding wire_schema_exact [of _ zero_request, symmetric]
  by (auto simp: Decode_def map_sum_def split: option.splits sum.splits)

section \<open>The process\<close>

text \<open>The registry and the broker of every run of the process.\<close>

definition shipped_registry :: Registry where
  "shipped_registry = \<lparr>records = map fresh_record DefaultEndpointCatalog\<rparr>"

definition shipped_broker :: "'z netbroker_world_scheme GuardedBroker" where
  "shipped_broker = \<lparr>executor = DisabledNamespaceExecutor_Activate, maxHealthAge = 90 * Second, enabled = False\<rparr>"

lemma shipped:
  "NewRegistry DefaultEndpointCatalog = Inr shipped_registry" "registry_inv shipped_registry"
  "NewGuardedBroker (Some shipped_registry) (Some DisabledNamespaceExecutor_Activate) False (90 * Second) = Inr shipped_broker"
proof -
  show r: "NewRegistry DefaultEndpointCatalog = Inr shipped_registry"
    using catalog_valid catalog_distinct by (simp add: NewRegistry_Inr shipped_registry_def) (simp add: DefaultEndpointCatalog_def)
  show "registry_inv shipped_registry" by (rule NewRegistry_inv [OF r])
qed (simp add: NewGuardedBroker_def shipped_broker_def)

lemma netbroker_main_runs:
  "netbroker_main IsPrint GOOS env fl w = run_mode IsPrint GOOS env fl shipped_broker (w\<lparr>registry := shipped_registry\<rparr>)"
  by (simp only: netbroker_main_def shipped(1,3) sum.case)

text \<open>A broker that is not enabled refuses in one of three ways.\<close>

lemma Execute_disabled:
  assumes "registry_inv (registry w)" and "\<not> enabled b"
  shows "\<exists>err. Execute GOOS b q nw w = (Inl err, w) \<and>
    errorCode err = (if \<not> request_ok q then ''INVALID_REQUEST''
                     else if endpoint_at (registry w) (req_endpoint q) = None then ''UNKNOWN_ENDPOINT'' else ''EXECUTION_DISABLED'')"
proof (cases "BrokerRequest_Validate q")
  case (Inl err)
  then have "\<not> request_ok q" using BrokerRequest_Validate_Inr [of q] by fastforce
  moreover have "errorCode err = ''INVALID_REQUEST''"
    using Inl by (auto simp: BrokerRequest_Validate_def ValidateJobID_def Platform_Validate_def EndpointID_Validate_def errorCode_def
        split: if_splits sum.splits)
  ultimately show ?thesis using Inl by (simp add: Execute_def)
next
  case (Inr u)
  then have "request_ok q" by (simp add: BrokerRequest_Validate_Inr)
  moreover have "EndpointID_Validate (req_endpoint q) = Inr ()" using \<open>request_ok q\<close> by (simp add: request_ok_def EndpointID_Validate_def)
  ultimately have "Execute GOOS b q nw w =
      (Inl (if endpoint_at (registry w) (req_endpoint q) = None then unknown_endpoint (req_endpoint q) else Sentinel ErrExecutionDisabled), w)"
    using Inr assms(2) by (cases "map_of (records (registry w)) (req_endpoint q)")
      (simp_all add: Execute_def Resolve_def EndpointID_Validate_def endpoint_at_def ebind_def lift_def ensure_def fail_def)
  then show ?thesis using \<open>request_ok q\<close> by (simp add: errorCode_def unknown_endpoint_def)
qed

section \<open>Properties\<close>

text \<open>
  C33: the boundary is fail-closed. A connection is answered with success exactly when its first line (at most 4096
  bytes) is one JSON value of the request schema, without unknown members and with nothing after it, that asks for the
  status or for a dry run of a valid request on a registered endpoint. An execution is never a success,
  and whatever is sent, nothing changes but the number of readings of the clock.
\<close>

theorem socket_fail_closed:
  assumes "NewGuardedBroker (Some r) (Some DisabledNamespaceExecutor_Activate) en age = Inr b" and "registry_inv (registry w)"
    and "handleConnection GOOS b p w = (resp, w')"
  shows "(ws_OK resp \<longleftrightarrow>
      (\<exists>payload v q rest. read_request p = Inr payload \<and> length payload \<le> maxRequest \<and>
         next_value payload = Some (v, rest) \<and> skip_ws rest = [] \<and> wire_schema v \<and> Decode payload = Inr (q, rest) \<and>
         (wr_Operation q = ''status'' \<or>
          wr_Operation q = ''dry_run'' \<and> request_ok (wr_Request q) \<and> endpoint_at (registry w) (req_endpoint (wr_Request q)) \<noteq> None))) \<and>
    (w' = w \<or> w' = w\<lparr>ticks := Suc (ticks w)\<rparr>)"
proof
  have b: "executor b = DisabledNamespaceExecutor_Activate" using assms(1) by (auto simp: NewGuardedBroker_def split: if_splits)
  show "w' = w \<or> w' = w\<lparr>ticks := Suc (ticks w)\<rparr>" by (rule disabled.handleConnection_inert [OF b assms(3)])
  have run: "(\<exists>res w1. run_operation GOOS b q w = (Inr res, w1)) \<longleftrightarrow>
      wr_Operation q = ''status'' \<or>
      wr_Operation q = ''dry_run'' \<and> request_ok (wr_Request q) \<and> endpoint_at (registry w) (req_endpoint (wr_Request q)) \<noteq> None" for q
  proof (cases "wr_Operation q \<in> {''status'', ''dry_run''}")
    case True
    then show ?thesis unfolding DryRun_accepts(1) [OF assms(2), of b, symmetric]
      by (auto simp: run_operation_def ok_def lift_def map_sum_def split: sum.splits)
  next
    case False
    then show ?thesis using disabled.run_operation_inert(2) [OF b, of GOOS q w] by (cases "run_operation GOOS b q w") auto
  qed
  show "ws_OK resp \<longleftrightarrow>
      (\<exists>payload v q rest. read_request p = Inr payload \<and> length payload \<le> maxRequest \<and>
         next_value payload = Some (v, rest) \<and> skip_ws rest = [] \<and> wire_schema v \<and> Decode payload = Inr (q, rest) \<and>
         (wr_Operation q = ''status'' \<or>
          wr_Operation q = ''dry_run'' \<and> request_ok (wr_Request q) \<and> endpoint_at (registry w) (req_endpoint (wr_Request q)) \<noteq> None))"
    unfolding run [symmetric] using assms(3) Decode_schema
    by (fastforce simp: handleConnection_def wire_ok_def wire_fail_def split: sum.splits prod.splits if_splits)
qed

text \<open>
  C36: the process does not execute either. Run with \<open>-mode execute\<close>, whatever the other flags and the system, it exits with
  status 1, nothing on standard output and one refusal on standard error that says why: an invalid request, an endpoint
  outside the catalog, or that execution is disabled; nothing but its own registry and a reading of the clock has changed.
\<close>

theorem execute_mode_refused:
  assumes "fl_mode fl = ''execute''"
  shows "\<exists>code message. netbroker_main IsPrint GOOS env fl w =
      (Exits 1 [] (writeJSON (wire_fail code message)), w\<lparr>registry := shipped_registry, ticks := Suc (ticks w)\<rparr>) \<and>
    (code, message) \<in> set public_errors \<and>
    code = (if \<not> request_ok (request_of fl) then ''INVALID_REQUEST''
            else if fl_endpoint fl \<notin> ep_id ` set DefaultEndpointCatalog then ''UNKNOWN_ENDPOINT'' else ''EXECUTION_DISABLED'')"
proof -
  let ?w = "w\<lparr>registry := shipped_registry, ticks := Suc (ticks w)\<rparr>" and ?q = "request_of fl"
  have "endpoint_at shipped_registry k = None \<longleftrightarrow> k \<notin> ep_id ` set DefaultEndpointCatalog" for k
    by (auto simp: endpoint_at_def shipped_registry_def map_of_eq_None_iff fresh_record_def image_image)
  then obtain err where e: "Execute GOOS shipped_broker ?q (clock w (ticks w)) ?w = (Inl err, ?w)"
      "errorCode err = (if \<not> request_ok ?q then ''INVALID_REQUEST''
         else if fl_endpoint fl \<notin> ep_id ` set DefaultEndpointCatalog then ''UNKNOWN_ENDPOINT'' else ''EXECUTION_DISABLED'')"
    using Execute_disabled [of ?w shipped_broker GOOS ?q "clock w (ticks w)"] shipped(2)
    by (auto simp: shipped_broker_def request_of_def)
  have "fatal IsPrint (errorCode err) err = Exits 1 [] (writeJSON (wire_fail (errorCode err) (publicError err)))"
    by (simp add: fatal_def errorCode_def HasPrefix_def)
  then have "netbroker_main IsPrint GOOS env fl w = (Exits 1 [] (writeJSON (wire_fail (errorCode err) (publicError err))), ?w)"
    using assms e(1) unfolding netbroker_main_runs by (simp add: run_mode_def now_def ebind_def)
  then show ?thesis using e(2) public_error_pairs [of err] by metis
qed

definition sample_flags :: flags where
  "sample_flags = \<lparr>fl_mode = ''execute'', fl_job = ''job-00000001'', fl_platform = ''x'', fl_endpoint = ''aws-fr-1''\<rparr>"

text \<open>
  C34: every answer has the type of the protocol. Whatever the broker, its executor and the peer do, an answer is either a success with
  a result and neither code nor error, or a refusal without a result whose code and text are one of eight fixed
  pairs, so no text of an internal error crosses the boundary; and what is written is one line that
  parses as the JSON document of that answer.
\<close>

theorem answers_typed:
  assumes "registry_inv (registry w)" and "ValidString GOOS" and "handleConnection GOOS b p w = (resp, w')"
  shows "answer_typed resp \<and> one_line (writeJSON resp) (response_json resp)"
  using assms by (rule answer_of_connection)

text \<open>
  C37: the wire format is a round trip. A request of valid UTF-8 texts, printed as its JSON document on a line of at most
  4096 bytes, is carried out as it was, whatever follows the line; the answer is that of the operation.
\<close>

theorem wire_roundtrip:
  assumes "request_text_ok q" and "length (json_print h (request_json q)) < maxRequest"
    and "peer_sends p = json_print h (request_json q) @ LF # after"
  shows "handleConnection GOOS b p w =
    (case run_operation GOOS b q w of
       (Inl err, w') \<Rightarrow> (wire_fail (errorCode err) (publicError err), w')
     | (Inr res, w') \<Rightarrow> (wire_ok res, w'))"
proof -
  have "read_request p = Inr (json_print h (request_json q) @ [LF])"
    using json_line(1) [OF request_json_wf [OF assms(1)]] assms(2,3) by (rule read_line)
  then show ?thesis
    using assms(2) Decode_request [OF assms(1), of h] by (simp add: handleConnection_def json_ws_def bv_def)
qed



section \<open>Witnesses\<close>

definition sample_net_world :: netbroker_world where
  "sample_net_world = \<lparr>entropy = [], clock = (\<lambda>_. 0), ticks = 0, registry = shipped_registry, nb_socket = None, nb_answers = [], nb_waits = []\<rparr>"

definition sample_wire :: wireRequest where
  "sample_wire = \<lparr>wr_Operation = ''dry_run'', wr_Request = Egress_Broker.sample_request\<rparr>"

definition sample_peer :: peer where
  "sample_peer = \<lparr>peer_chunks = [(Second, json_print True (request_json sample_wire) @ [LF])], peer_close = None\<rparr>"

lemma sample_peer_sends: "peer_sends sample_peer = json_print True (request_json sample_wire) @ [LF]"
  by (simp add: peer_sends_def sample_peer_def)

text \<open>A peer that stays silent and never closes.\<close>

definition silent_peer :: peer where "silent_peer = \<lparr>peer_chunks = [], peer_close = None\<rparr>"

definition sample_env :: serve_env where
  "sample_env = \<lparr>nv_user = Inr ''0'', nv_remove = NotExist, nv_listen = Inr 493, nv_chmod = None,
     nv_accepts = [Connection sample_peer, Connection silent_peer, ShutDown], nv_cleanup = True\<rparr>"

lemma sample_wire_ok:
  "request_text_ok sample_wire" "length (json_print True (request_json sample_wire)) < maxRequest"
  "request_ok (wr_Request sample_wire)" "endpoint_at shipped_registry (req_endpoint (wr_Request sample_wire)) \<noteq> None"
proof -
  show "request_text_ok sample_wire"
    by (simp add: request_text_ok_def sample_wire_def Egress_Broker.sample_request_def bv_def)
  show "length (json_print True (request_json sample_wire)) < maxRequest" by code_simp
  show "request_ok (wr_Request sample_wire)" by code_simp
  show "endpoint_at shipped_registry (req_endpoint (wr_Request sample_wire)) \<noteq> None"
    by (simp add: endpoint_at_def shipped_registry_def fresh_record_def DefaultEndpointCatalog_def sample_wire_def Egress_Broker.sample_request_def)
qed

lemma sample_peer_reads:
  "read_request sample_peer = Inr (json_print True (request_json sample_wire) @ [LF])"
  "Decode (json_print True (request_json sample_wire) @ [LF]) = Inr (sample_wire, [LF])"
  using read_line [OF json_line(1) [OF request_json_wf [OF sample_wire_ok(1)]] sample_wire_ok(2)] Decode_request [OF sample_wire_ok(1)]
  by (simp_all add: sample_peer_sends)

theorem socket_fail_closed_witness:
  "ws_OK (fst (handleConnection ''linux'' shipped_broker sample_peer sample_net_world))"
proof -
  obtain resp w' where h: "handleConnection ''linux'' shipped_broker sample_peer sample_net_world = (resp, w')" by fastforce
  have inv: "registry_inv (registry sample_net_world)" using shipped(2) by (simp add: sample_net_world_def)
  have "wr_Operation sample_wire = ''dry_run''" "registry sample_net_world = shipped_registry" "skip_ws [LF] = []"
    by (simp_all add: sample_wire_def sample_net_world_def json_ws_def bv_def)
  moreover obtain v where "next_value (json_print True (request_json sample_wire) @ [LF]) = Some (v, [LF])" "wire_schema v"
    using Decode_schema sample_peer_reads(2) by blast
  ultimately have "\<exists>payload v q rest. read_request sample_peer = Inr payload \<and> length payload \<le> maxRequest \<and>
         next_value payload = Some (v, rest) \<and> skip_ws rest = [] \<and> wire_schema v \<and> Decode payload = Inr (q, rest) \<and>
         (wr_Operation q = ''status'' \<or>
          wr_Operation q = ''dry_run'' \<and> request_ok (wr_Request q) \<and> endpoint_at (registry sample_net_world) (req_endpoint (wr_Request q)) \<noteq> None)"
    using sample_peer_reads sample_wire_ok
    by (intro exI [of _ "json_print True (request_json sample_wire) @ [LF]"] exI [of _ v] exI [of _ sample_wire] exI [of _ "[LF]"]) simp
  then show ?thesis using socket_fail_closed [OF shipped(3) inv h] by (simp add: h)
qed

theorem answers_typed_witness:
  "answer_typed (fst (handleConnection ''linux'' shipped_broker sample_peer sample_net_world))"
proof -
  obtain resp w' where h: "handleConnection ''linux'' shipped_broker sample_peer sample_net_world = (resp, w')" by fastforce
  have "registry_inv (registry sample_net_world)" "ValidString ''linux''" using shipped(2) by (simp_all add: sample_net_world_def bv_def)
  from answers_typed [OF this h] show ?thesis by (simp add: h)
qed

theorem wire_roundtrip_witness:
  "handleConnection ''linux'' shipped_broker sample_peer sample_net_world =
    (wire_ok (RunResult \<lparr>Accepted = True, DryRun_flag = True, res_endpoint = ''aws-fr-1'',
       Message = ''registered request accepted; no network changes made''\<rparr>), sample_net_world)"
proof -
  obtain res where r: "DryRun (shipped_broker :: netbroker_world GuardedBroker) shipped_registry (wr_Request sample_wire) = Inr res"
    using DryRun_accepts(1) [OF shipped(2)] sample_wire_ok(3,4) by blast
  from DryRun_accepts(2) [OF shipped(2) r] r wire_roundtrip [OF sample_wire_ok(1,2), of sample_peer "[]" "''linux''" shipped_broker sample_net_world]
  show ?thesis
    by (simp add: sample_peer_sends run_operation_def lift_def sample_net_world_def) (simp add: sample_wire_def Egress_Broker.sample_request_def)
qed


theorem execute_mode_refused_witness:
  "\<exists>message w'. netbroker_main (\<lambda>_. True) ''linux'' sample_env sample_flags sample_net_world =
     (Exits 1 [] (writeJSON (wire_fail ''EXECUTION_DISABLED'' message)), w')"
proof -
  have "fl_mode sample_flags = ''execute''" "fl_endpoint sample_flags \<in> ep_id ` set DefaultEndpointCatalog"
    by (simp_all add: sample_flags_def DefaultEndpointCatalog_def)
  moreover have "request_ok (request_of sample_flags)" by code_simp
  ultimately show ?thesis
    using execute_mode_refused [of sample_flags "\<lambda>_. True" "''linux''" sample_env sample_net_world] by auto
qed

end
