(* ===== verification/Platform_X.thy ===== *)
theory Platform_X
  imports Platform Go_Decode Go_URL
begin

text \<open>
  Package \<open>internal/platform\<close>, \<open>x.go\<close>: local validation and weighted length of a post, the connector that
  sends it to the X API, the classification of its answers, and the offline transport.
\<close>

section \<open>Validation\<close>

definition XCreatePostEndpoint :: string where "XCreatePostEndpoint = ''https://api.x.com/2/tweets''"
definition XMaxWeightedLength :: nat where "XMaxWeightedLength = 280"
definition XMaxResponseBytes :: nat where "XMaxResponseBytes = 32768"
definition xTransformedURLLen :: nat where "xTransformedURLLen = 23"

abbreviation x_error :: "error_code \<Rightarrow> string \<Rightarrow> go_error option \<Rightarrow> go_error" where
  "x_error c m x \<equiv> platform_error PubPlatformX c m x"

text \<open>\<open>https?://[^\s]+\<close>: the length of a match at the front of a string, and all matches from the left.\<close>

definition re_space :: "char \<Rightarrow> bool" where
  "re_space c \<longleftrightarrow> c \<in> {CHR 0x09, CHR 0x0A, CHR 0x0C, CHR 0x0D, CHR 0x20}"

definition url_at :: "string \<Rightarrow> nat option" where
  "url_at s =
     (let k = (if HasPrefix s ''https://'' then 8 else if HasPrefix s ''http://'' then 7 else 0);
          n = length (takeWhile (\<lambda>c. \<not> re_space c) (drop k s))
      in if k = 0 \<or> n = 0 then None else Some (k + n))"

lemma url_at_pos: "url_at s = Some n \<Longrightarrow> 0 < n \<and> n \<le> length s"
proof -
  assume a: "url_at s = Some n"
  define k where "k = (if HasPrefix s ''https://'' then 8 else if HasPrefix s ''http://'' then 7 else 0 :: nat)"
  have n: "n = k + length (takeWhile (\<lambda>c. \<not> re_space c) (drop k s))" "k \<noteq> 0" "takeWhile (\<lambda>c. \<not> re_space c) (drop k s) \<noteq> []"
    using a by (auto simp: url_at_def k_def [symmetric] Let_def split: if_splits)
  have "length (takeWhile (\<lambda>c. \<not> re_space c) (drop k s)) \<le> length s - k"
    using length_takeWhile_le [of "\<lambda>c. \<not> re_space c" "drop k s"] by simp
  moreover have "k < length s" using n(3) by (cases "k < length s") auto
  ultimately show ?thesis using n(1,2) by linarith
qed

function FindAllStringIndex :: "nat \<Rightarrow> string \<Rightarrow> (nat \<times> nat) list" where
  "FindAllStringIndex i s =
     (if s = [] then []
      else case url_at s of
        Some n \<Rightarrow> (i, i + n) # FindAllStringIndex (i + n) (drop n s)
      | None \<Rightarrow> FindAllStringIndex (i + 1) (tl s))"
  by pat_completeness auto
termination
  by (relation "measure (\<lambda>(i, s). length s)") (auto dest: url_at_pos)

declare FindAllStringIndex.simps [simp del]

definition rune_weight :: "rune \<Rightarrow> nat" where
  "rune_weight r =
     (if r \<le> 0x10FF then 1 else if 0x2000 \<le> r \<and> r \<le> 0x200D then 1
      else if 0x2010 \<le> r \<and> r \<le> 0x201F then 1 else if 0x2032 \<le> r \<and> r \<le> 0x2037 then 1 else 2)"

definition xRuneWeight :: "string \<Rightarrow> nat" where
  "xRuneWeight text = foldl (\<lambda>weight r. weight + rune_weight r) 0 (runes text)"

definition XWeightedLength :: "string \<Rightarrow> nat" where
  "XWeightedLength text =
     (let (weight, last) =
        foldl (\<lambda>(weight, last) (a, b).
            (weight + xRuneWeight (take (a - last) (drop last text)) + xTransformedURLLen, b))
          (0, 0) (FindAllStringIndex 0 text)
      in weight + xRuneWeight (drop last text))"

definition disallowed_control :: "rune \<Rightarrow> bool" where
  "disallowed_control r \<longleftrightarrow> (r < 0x20 \<and> r \<noteq> 10 \<and> r \<noteq> 13 \<and> r \<noteq> 9) \<or> (0x7F \<le> r \<and> r \<le> 0x9F)"

definition ValidateXText :: "string \<Rightarrow> go_error option" where
  "ValidateXText text =
     (if \<not> ValidString text then Some (x_error ErrInvalidPayload ''text is not valid UTF-8'' None)
      else if TrimSpace text = [] then Some (x_error ErrInvalidPayload ''text is empty'' None)
      else if list_ex disallowed_control (runes text)
      then Some (x_error ErrInvalidPayload ''text contains a disallowed control character'' None)
      else if XWeightedLength text > XMaxWeightedLength
      then Some (x_error ErrInvalidPayload ''text exceeds the weighted length limit'' None)
      else None)"

section \<open>Classification of answers\<close>

definition wrap64 :: "int \<Rightarrow> int" where
  "wrap64 i = (i + 2 ^ 63) mod 2 ^ 64 - 2 ^ 63"

text \<open>\<open>strconv.ParseInt(s, 10, 64)\<close>.\<close>

definition ParseInt :: "string \<Rightarrow> int option" where
  "ParseInt s = (case s of c # t \<Rightarrow> if c = CHR ''+'' then (if hd (t @ ''-'') = CHR ''-'' then None else parse_int64 t) else parse_int64 s
                 | [] \<Rightarrow> None)"

text \<open>\<open>time.Unix(s, 0)\<close>: the seconds are counted from year 1 in 64 bits.\<close>

definition time_Unix :: "int \<Rightarrow> time" where
  "time_Unix s = (wrap64 (s + 62135596800) - 62135596800) * 1000000000"

definition retry_after :: "(string \<Rightarrow> string) \<Rightarrow> time \<Rightarrow> duration" where
  "retry_after header at =
     (let by_reset = (case ParseInt (header ''x-rate-limit-reset'') of
                        None \<Rightarrow> 0
                      | Some reset \<Rightarrow> (let resetAt = time_Unix reset in if resetAt > at then time_sub resetAt at else 0))
      in case ParseInt (header ''Retry-After'') of
           Some seconds \<Rightarrow> if seconds > 0 then wrap64 (seconds * 1000000000) else by_reset
         | None \<Rightarrow> by_reset)"

definition classifyXStatusAt :: "int \<Rightarrow> (string \<Rightarrow> string) \<Rightarrow> time \<Rightarrow> go_error" where
  "classifyXStatusAt status header at =
     (let e = (\<lambda>code message retry. PlatformError PubPlatformX code status retry message False None)
      in if status \<in> {400, 404, 422} then e ErrRemoteRejected ''request was rejected'' 0
         else if status = 401 then e ErrUnauthorized ''authorization was rejected'' 0
         else if status = 402 then e ErrForbidden ''API credits are unavailable'' 0
         else if status = 403 then e ErrForbidden ''publication is forbidden'' 0
         else if status = 429 then e ErrRateLimited ''rate limit reached'' (retry_after header at)
         else if status \<ge> 500 \<and> status \<le> 599 then e ErrTemporary ''remote service is unavailable'' 0
         else e ErrProtocol ''unexpected remote response'' 0)"

definition classifyXStatus :: "int \<Rightarrow> (string \<Rightarrow> string) \<Rightarrow> ('z world_scheme, go_error) act" where
  "classifyXStatus status header = ebind now (\<lambda>at. ok (classifyXStatusAt status header at))"

text \<open>\<open>json.Unmarshal\<close> into \<open>xCreatePostResponse\<close>: the identifier inside \<open>data\<close>.\<close>

definition set_post_data :: "string \<Rightarrow> json \<Rightarrow> string \<Rightarrow> go_error + string" where
  "set_post_data c v old = decode_string v old"

definition set_post_response :: "string \<Rightarrow> json \<Rightarrow> string \<Rightarrow> go_error + string" where
  "set_post_response c v old =
     (case v of
        JObj ms \<Rightarrow> decode_members [''id''] set_post_data ms old
      | JNull \<Rightarrow> Inr old
      | _ \<Rightarrow> Inl type_error)"

definition xCreatePostResponse :: "bytes \<Rightarrow> go_error + string" where
  "xCreatePostResponse body = Unmarshal [''data''] set_post_response body []"

section \<open>The connector\<close>

text \<open>A token source; only some sources can refresh.\<close>

record 'w BearerTokenSource =
  BearerToken :: "('w, string) act"
  RefreshBearerToken :: "('w, string) act option"

definition BearerTokenSourceFunc :: "('w, string) act \<Rightarrow> 'w BearerTokenSource" where
  "BearerTokenSourceFunc f = \<lparr>BearerToken = f, RefreshBearerToken = None\<rparr>"

record 'w XConnector =
  xc_client :: "'w round_tripper"
  xc_tokens :: "'w BearerTokenSource"

text \<open>The default transport of the process is a parameter.\<close>

definition NewXConnector :: "'w round_tripper \<Rightarrow> 'w round_tripper option \<Rightarrow> 'w BearerTokenSource option \<Rightarrow> go_error + 'w XConnector" where
  "NewXConnector DefaultTransport transport tokens =
     (case tokens of
        None \<Rightarrow> Inl (ErrorsNew ''x connector requires a bearer token source'')
      | Some t \<Rightarrow> Inr \<lparr>xc_client = (case transport of None \<Rightarrow> DefaultTransport | Some tr \<Rightarrow> tr), xc_tokens = t\<rparr>)"

definition post_body :: "string \<Rightarrow> bytes" where
  "post_body content = json_print True (JObj [(''text'', JStr content)])"

definition post_request :: "string \<Rightarrow> string \<Rightarrow> http_request" where
  "post_request content token =
     \<lparr>rq_method = ''POST'', rq_url = XCreatePostEndpoint,
      rq_header = [(''Authorization'', ''Bearer '' @ token), (''Content-Type'', ''application/json''),
                   (''Accept'', ''application/json''), (''User-Agent'', ''ivpn-crossposter/1'')],
      rq_body = post_body content\<rparr>"

text \<open>One request; the receipt the code updates in place is an argument and part of the result.\<close>

definition publishOnce :: "'z world_scheme XConnector \<Rightarrow> string \<Rightarrow> string \<Rightarrow> Receipt \<Rightarrow>
    ('z world_scheme, Receipt \<times> go_error option) act" where
  "publishOnce c content token receipt =
     (let receipt = receipt\<lparr>pr_attempt_count := pr_attempt_count receipt + 1\<rparr>;
          unknown = receipt\<lparr>pr_state := PubUnknown\<rparr>
      in ebind (attempt (xc_client c (post_request content token))) (\<lambda>r.
         case r of
           Inl err \<Rightarrow>
             ok (unknown, Some (PlatformError PubPlatformX ErrAmbiguous 0 0 ''publication result is unknown'' True (Some err)))
         | Inr resp \<Rightarrow>
             (case readBounded (rs_body resp) XMaxResponseBytes of
                Inl err \<Rightarrow>
                  ok (unknown, Some (PlatformError PubPlatformX ErrAmbiguous (rs_status resp) 0 ''response could not be read'' True (Some err)))
              | Inr (responseBody, tooLarge) \<Rightarrow>
                  if tooLarge then
                    ok (unknown, Some (PlatformError PubPlatformX ErrResponseTooLarge (rs_status resp) 0
                                         ''response exceeded the safety limit'' True None))
                  else if rs_status resp \<noteq> 201 then
                    ebind now (\<lambda>at. ok (receipt, Some (classifyXStatusAt (rs_status resp) (rs_header resp) at)))
                  else
                    (let bad = (\<lambda>cause. ok (unknown, Some (PlatformError PubPlatformX ErrProtocol (rs_status resp) 0
                                                          ''success response was invalid'' True cause)))
                     in case xCreatePostResponse responseBody of
                          Inl err \<Rightarrow> bad (Some err)
                        | Inr postID \<Rightarrow>
                            if TrimSpace postID = [] then bad None
                            else ok (receipt\<lparr>pr_state := PubComplete, pr_external_id := postID\<rparr>, None)))))"

definition unusable_token :: "string \<Rightarrow> bool" where
  "unusable_token token \<longleftrightarrow> TrimSpace token = [] \<or> ContainsAny token [CR, LF]"

text \<open>What follows the first request: only a 401 leads to a refresh and one more request.\<close>

definition refresh_and_retry :: "'z world_scheme XConnector \<Rightarrow> string \<Rightarrow> Receipt \<times> go_error option \<Rightarrow>
    ('z world_scheme, Receipt \<times> go_error option) act" where
  "refresh_and_retry c content result =
     (let (receipt, err) = result
      in case Option.bind err errors_As_platform of
           None \<Rightarrow> ok (receipt, err)
         | Some platformErr \<Rightarrow>
             if pe_http_status platformErr \<noteq> 401 then ok (receipt, err)
             else case RefreshBearerToken (xc_tokens c) of
               None \<Rightarrow> ok (receipt, err)
             | Some refresh \<Rightarrow>
                 ebind (attempt refresh) (\<lambda>r.
                 let failed = (\<lambda>cause. ok (receipt, Some (PlatformError PubPlatformX ErrUnauthorized 401 0
                                          ''credential refresh failed'' False cause)))
                 in case r of
                      Inl refreshErr \<Rightarrow> failed (Some refreshErr)
                    | Inr refreshed \<Rightarrow>
                        if unusable_token refreshed then failed None
                        else publishOnce c content refreshed receipt))"

definition X_Publish :: "'z world_scheme XConnector \<Rightarrow> 'z world_scheme publish" where
  "X_Publish c command =
     ebind now (\<lambda>created.
     let receipt = \<lparr>pr_platform = PubPlatformX, pr_state = PubFailed, pr_external_id = [], pr_attempt_count = 0,
                    pr_country_code = [], pr_relay_results = [], pr_created_at = created\<rparr>
     in case ValidateXText (pc_content command) of
          Some err \<Rightarrow> ok (receipt, Some err)
        | None \<Rightarrow>
            ebind (attempt (BearerToken (xc_tokens c))) (\<lambda>tok.
            case tok of
              Inl err \<Rightarrow> ok (receipt, Some (x_error ErrUnauthorized ''credential retrieval failed'' (Some err)))
            | Inr token \<Rightarrow>
                if unusable_token token
                then ok (receipt, Some (x_error ErrUnauthorized ''credential is unavailable'' None))
                else
                  ebind (publishOnce c (pc_content command) token receipt) (refresh_and_retry c (pc_content command))))"

definition X_Connector :: "'z world_scheme XConnector \<Rightarrow> 'z world_scheme Connector" where
  "X_Connector c = \<lparr>connector_Publish = X_Publish c\<rparr>"

section \<open>The offline transport\<close>

record DryRunCapture =
  cap_method :: string
  cap_url :: string
  cap_content_type :: string
  cap_authorization_present :: bool
  cap_body :: bytes

record dry_run_world = world +
  captures :: "DryRunCapture list"

definition header_get :: "(string \<times> string) list \<Rightarrow> string \<Rightarrow> string" where
  "header_get hs k = (case map_of hs k of None \<Rightarrow> [] | Some v \<Rightarrow> v)"

text \<open>The body of a request the model builds is always readable.\<close>

definition DryRun_RoundTrip :: "'z dry_run_world_scheme round_tripper" where
  "DryRun_RoundTrip req w =
     (let body = take (XMaxResponseBytes + 1) (rq_body req)
      in if length body > XMaxResponseBytes then (Inl (ErrorsNew ''dry-run request exceeded safety limit''), w)
         else
           (Inr \<lparr>rs_status = 201, rs_header = (\<lambda>_. []),
                 rs_body = Body (json_print True (JObj [(''data'', JObj [(''id'', JStr ''dry-run'')])]))\<rparr>,
            w\<lparr>captures := captures w @
               [\<lparr>cap_method = rq_method req, cap_url = rq_url req, cap_content_type = header_get (rq_header req) ''Content-Type'',
                 cap_authorization_present = HasPrefix (header_get (rq_header req) ''Authorization'') ''Bearer '',
                 cap_body = body\<rparr>]\<rparr>))"

definition Captures :: "'z dry_run_world_scheme \<Rightarrow> DryRunCapture list" where
  "Captures w = captures w"

section \<open>The weight in one pass\<close>

text \<open>The reference: read the text from the left, a URL weighs 23 and every other rune its own weight.\<close>

function weigh :: "string \<Rightarrow> nat" where
  "weigh s =
     (if s = [] then 0
      else case url_at s of
        Some n \<Rightarrow> 23 + weigh (drop n s)
      | None \<Rightarrow> (case utf8_step s of None \<Rightarrow> 1 + weigh (tl s) | Some (r, k) \<Rightarrow> rune_weight r + weigh (drop k s)))"
  by pat_completeness auto
termination
  by (relation "measure length") (auto dest: url_at_pos utf8_step_width)

declare weigh.simps [simp del]

lemma weigh_Nil [simp]: "weigh [] = 0"
  by (simp add: weigh.simps)

definition weight_of :: "rune list \<Rightarrow> nat" where
  "weight_of rs = sum_list (map rune_weight rs)"

lemma xRuneWeight_sum: "xRuneWeight s = weight_of (runes s)"
proof -
  have "foldl (\<lambda>weight r. weight + rune_weight r) k rs = k + weight_of rs" for k rs
    by (induction rs arbitrary: k) (auto simp: weight_of_def)
  then show ?thesis by (simp add: xRuneWeight_def)
qed

lemma url_at_head: "url_at (x # s) = Some n \<Longrightarrow> x = CHR ''h''"
  by (auto simp: url_at_def HasPrefix_def Let_def split: if_splits)

lemma FindAll_skip:
  "\<forall>x \<in> set c. x \<noteq> CHR ''h'' \<Longrightarrow> FindAllStringIndex i (c @ t) = FindAllStringIndex (i + length c) t"
proof (induction c arbitrary: i)
  case (Cons x c)
  then have "url_at (x # c @ t) = None" using url_at_head [of x "c @ t"] by (cases "url_at (x # c @ t)") auto
  then show ?case using Cons by (simp add: FindAllStringIndex.simps [of i "x # c @ t"])
qed simp

lemma url_at_cut:
  assumes "url_at s = Some n"
  shows "drop n s = [] \<or> bv (hd (drop n s)) < 128"
proof -
  define k where "k = (if HasPrefix s ''https://'' then 8 else if HasPrefix s ''http://'' then 7 else 0 :: nat)"
  have n: "n = length (takeWhile (\<lambda>c. \<not> re_space c) (drop k s)) + k"
    using assms by (auto simp: url_at_def k_def [symmetric] Let_def split: if_splits)
  have "drop n s = dropWhile (\<lambda>c. \<not> re_space c) (drop k s)"
    unfolding n by (simp only: drop_drop [symmetric] dropWhile_eq_drop)
  moreover have "re_space c \<Longrightarrow> bv c < 128" for c by (auto simp: re_space_def bv_def)
  ultimately show ?thesis
    using hd_dropWhile [of "\<lambda>c. \<not> re_space c" "drop k s"] by (metis dropWhile_eq_Nil_conv)
qed

lemma weigh_loop:
  assumes "ValidString p" and "ValidString s" and "text = pre @ p @ s"
  shows "(let (weight, l) = foldl (\<lambda>(weight, last) (a, b).
            (weight + xRuneWeight (take (a - last) (drop last text)) + xTransformedURLLen, b)) (k, length pre)
          (FindAllStringIndex (length pre + length p) s) in weight + xRuneWeight (drop l text))
    = k + weight_of (runes p) + weigh s"
  using assms
proof (induction "length s" arbitrary: pre p s k rule: less_induct)
  case less
  show ?case
  proof (cases "s = []")
    case True
    then show ?thesis using less.prems by (simp add: FindAllStringIndex.simps xRuneWeight_sum)
  next
    case ne: False
    show ?thesis
    proof (cases "url_at s")
      case (Some n)
      have n: "0 < n" "n \<le> length s" using url_at_pos [OF Some] by auto
      have v: "ValidString (drop n s)"
        using ValidString_cut [OF less.prems(2) append_take_drop_id [of n s, symmetric] url_at_cut [OF Some]] by simp
      have "length (drop n s) < length s" using n ne by simp
      from less.hyps [OF this ValidString_Nil v, of "pre @ p @ take n s" "k + weight_of (runes p) + 23"]
      show ?thesis
        using less.prems n Some ne
        by (simp add: FindAllStringIndex.simps [of _ s] weigh.simps [of s] xRuneWeight_sum xTransformedURLLen_def add.assoc
            weight_of_def [of "[]"])
    next
      case None
      obtain c t where c: "s = c @ t" "chunk c" "ValidString t" using ValidString_chunks [OF less.prems(2) ne] .
      then obtain r where r: "utf8_step c = Some (r, length c)" by (auto simp: chunk_def)
      have vp: "ValidString (p @ c)" using ValidString_append [OF less.prems(1)] ValidString_chunk [OF c(2), of "[]"] by simp
      have idx: "FindAllStringIndex i s = FindAllStringIndex (i + length c) t" for i
        using c(2)
      proof (cases rule: chunk_cases)
        case (1 a)
        then show ?thesis using None c(1) by (simp add: FindAllStringIndex.simps [of i "a # t"])
      next
        case 2
        then have "\<forall>x \<in> set c. x \<noteq> CHR ''h''" by (fastforce simp: bv_def)
        then show ?thesis using FindAll_skip [of c i t] c(1) by simp
      qed
      have "runes (p @ c) = runes p @ [r]"
        using runes_append [OF less.prems(1)] runes_chunk [OF r, of "[]"] by simp
      moreover have "weigh s = rune_weight r + weigh t"
        using None ne c(1) utf8_step_append [OF r, of t] by (auto simp: weigh.simps [of "c @ t"])
      moreover have "length t < length s" "text = pre @ (p @ c) @ t"
        using c chunk_nonempty less.prems(3) by auto
      ultimately show ?thesis
        using less.hyps [OF _ vp c(3), of pre k] by (simp add: idx weight_of_def add.assoc)
    qed
  qed
qed

text \<open>
  C25: the weighted length of a valid text, which the code computes from the positions of all URL
  matches, is the weight read off in one pass from the left: 23 for each maximal URL, otherwise 1 for
  a rune of the light ranges and 2 for any other.
\<close>

theorem weighted_length_one_pass: "ValidString text \<Longrightarrow> XWeightedLength text = weigh text"
  using weigh_loop [of "[]" "text" "text" "[]" 0] by (simp add: XWeightedLength_def weight_of_def split: prod.splits)

section \<open>One request\<close>

type_synonym post_answer = "go_error + http_response"

text \<open>
  What an answer says of the post: it was accepted under an identifier, it was definitively not
  accepted, or neither, and then the result is unknown.
\<close>

definition accepted_as :: "post_answer \<Rightarrow> string \<Rightarrow> bool" where
  "accepted_as a postID \<longleftrightarrow> (\<exists>resp d. a = Inr resp \<and> rs_body resp = Body d \<and> length d \<le> XMaxResponseBytes \<and>
     rs_status resp = 201 \<and> xCreatePostResponse d = Inr postID \<and> TrimSpace postID \<noteq> [])"

definition definitive :: "post_answer \<Rightarrow> bool" where
  "definitive a \<longleftrightarrow> (\<exists>resp d. a = Inr resp \<and> rs_body resp = Body d \<and> length d \<le> XMaxResponseBytes \<and> rs_status resp \<noteq> 201)"

definition status_of :: "post_answer \<Rightarrow> int" where
  "status_of a = (case a of Inl _ \<Rightarrow> 0 | Inr resp \<Rightarrow> rs_status resp)"

definition after_answer :: "post_answer \<Rightarrow> Receipt \<Rightarrow> Receipt \<Rightarrow> go_error option \<Rightarrow> bool" where
  "after_answer a rc rc' err \<longleftrightarrow> pr_attempt_count rc' = pr_attempt_count rc + 1 \<and>
     ((\<exists>postID. accepted_as a postID \<and> pr_state rc' = PubComplete \<and> pr_external_id rc' = postID \<and> err = None) \<or>
      (\<nexists>postID. accepted_as a postID) \<and> pr_external_id rc' = pr_external_id rc \<and>
      pr_state rc' = (if definitive a then pr_state rc else PubUnknown) \<and>
      (\<exists>e. err = Some e \<and> errors_As_platform e = Some e \<and> pe_http_status e = status_of a \<and> (pe_ambiguous e \<longleftrightarrow> \<not> definitive a)))"

lemma classify_fields:
  "errors_As_platform (classifyXStatusAt st h t) = Some (classifyXStatusAt st h t)"
  "pe_http_status (classifyXStatusAt st h t) = st" "\<not> pe_ambiguous (classifyXStatusAt st h t)"
  by (simp_all add: classifyXStatusAt_def Let_def)

lemma publishOnce_outcome:
  assumes "xc_client c (post_request content token) w = (a, w1)" and "publishOnce c content token rc w = (res, w')"
  shows "\<exists>rc' err n. res = Inr (rc', err) \<and> after_answer a rc rc' err \<and> w' = w1\<lparr>ticks := n\<rparr>"
proof (cases a)
  case (Inl e)
  then show ?thesis
    using assms by (auto simp: publishOnce_def ebind_attempt Let_def after_answer_def accepted_as_def definitive_def status_of_def
        intro!: exI [of _ "ticks w1"])
next
  case (Inr resp)
  note d = publishOnce_def ebind_attempt Let_def after_answer_def accepted_as_def definitive_def status_of_def
  show ?thesis
  proof (cases "rs_body resp")
    case (BrokenBody e)
    then show ?thesis using assms Inr by (auto simp: d readBounded_def intro!: exI [of _ "ticks w1"])
  next
    case (Body b)
    consider "XMaxResponseBytes < length b" | "length b \<le> XMaxResponseBytes" "rs_status resp \<noteq> 201"
      | "length b \<le> XMaxResponseBytes" "rs_status resp = 201" by linarith
    then show ?thesis
    proof cases
      case 1
      then show ?thesis using assms Inr Body by (auto simp: d readBounded_def intro!: exI [of _ "ticks w1"])
    next
      case 2
      then show ?thesis using assms Inr Body by (auto simp: d readBounded_def classify_fields)
    next
      case 3
      then show ?thesis
        using assms Inr Body
        by (cases "xCreatePostResponse b") (auto simp: d readBounded_def intro!: exI [of _ "ticks w1"] split: if_splits)
    qed
  qed
qed

section \<open>The environment of the connector\<close>

datatype x_call = CallToken "go_error + string" | CallRefresh "go_error + string" | CallPost http_request post_answer

fun post_answers :: "x_call list \<Rightarrow> post_answer list" where
  "post_answers [] = []"
| "post_answers (CallPost _ a # t) = a # post_answers t"
| "post_answers (_ # t) = post_answers t"

text \<open>The exchanges a publication may have.\<close>

inductive x_trace :: "string \<Rightarrow> x_call list \<Rightarrow> bool" for content where
  none: "x_trace content []"
| token: "x_trace content [CallToken k]"
| once: "\<not> unusable_token tok \<Longrightarrow> x_trace content [CallToken (Inr tok), CallPost (post_request content tok) a]"
| refresh: "\<not> unusable_token tok \<Longrightarrow> status_of a = 401 \<Longrightarrow>
    x_trace content [CallToken (Inr tok), CallPost (post_request content tok) a, CallRefresh r]"
| twice: "\<not> unusable_token tok \<Longrightarrow> status_of a = 401 \<Longrightarrow> \<not> unusable_token tok2 \<Longrightarrow>
    x_trace content [CallToken (Inr tok), CallPost (post_request content tok) a, CallRefresh (Inr tok2),
      CallPost (post_request content tok2) b]"

inductive_simps x_trace_Nil [simp]: "x_trace content []"

text \<open>What the receipt says, as a function of the answers.\<close>

definition receipt_says :: "post_answer list \<Rightarrow> Receipt \<Rightarrow> go_error option \<Rightarrow> bool" where
  "receipt_says as rc err \<longleftrightarrow>
     pr_attempt_count rc = int (length as) \<and>
     (pr_state rc = PubComplete \<longleftrightarrow> (\<exists>postID. as \<noteq> [] \<and> accepted_as (last as) postID \<and> pr_external_id rc = postID)) \<and>
     (pr_state rc = PubFailed \<longleftrightarrow> (\<forall>a \<in> set as. definitive a)) \<and>
     (err = None \<longleftrightarrow> pr_state rc = PubComplete) \<and> pr_state rc \<noteq> PubPartial"

lemma accepted_not_definitive: "accepted_as a i \<Longrightarrow> \<not> definitive a"
  by (auto simp: accepted_as_def definitive_def)

lemma accepted_status: "accepted_as a i \<Longrightarrow> status_of a = 201"
  by (auto simp: accepted_as_def status_of_def)

lemma receipt_says_second:
  assumes "after_answer b rc rc' err" and "pr_state rc = (if definitive a then PubFailed else PubUnknown)"
    and "pr_attempt_count rc = 1"
  shows "receipt_says [a, b] rc' err"
proof (cases "\<exists>i. accepted_as b i")
  case True
  then obtain i where "accepted_as b i" "pr_state rc' = PubComplete" "pr_external_id rc' = i" "err = None" "\<not> definitive b"
    using assms(1) accepted_not_definitive by (auto simp: after_answer_def)
  then show ?thesis using assms by (auto simp: after_answer_def receipt_says_def)
next
  case False
  then show ?thesis using assms by (auto simp: after_answer_def receipt_says_def)
qed

locale x_environment =
  fixes tokens :: "'z world_scheme BearerTokenSource" and client :: "'z world_scheme round_tripper"
    and calls :: "'z world_scheme \<Rightarrow> x_call list"
  assumes ambient: "ambient_free calls"
    and token_call: "BearerToken tokens w = (r, w') \<Longrightarrow> calls w' = calls w @ [CallToken r]"
    and refresh_call: "RefreshBearerToken tokens = Some f \<Longrightarrow> f w = (r, w') \<Longrightarrow> calls w' = calls w @ [CallRefresh r]"
    and post_call: "client req w = (a, w') \<Longrightarrow> calls w' = calls w @ [CallPost req a]"
begin

lemma calls_tick [simp]: "calls (w\<lparr>ticks := n\<rparr>) = calls w"
  using ambient by (simp add: ambient_free_def)

lemma publishOnce_calls:
  assumes "xc_client c = client" and "publishOnce c content tok rc w = (res, w')"
  obtains a rc' err where "res = Inr (rc', err)" "after_answer a rc rc' err"
    "calls w' = calls w @ [CallPost (post_request content tok) a]"
proof -
  obtain a w1 where a: "xc_client c (post_request content tok) w = (a, w1)" by fastforce
  from publishOnce_outcome [OF a assms(2)] post_call [OF a [unfolded assms(1)]] show thesis using that by auto
qed

lemma Publish_outcome:
  assumes "xc_client c = client" and "xc_tokens c = tokens" and "X_Publish c cmd w = (res, w')"
  shows "\<exists>rc err t. res = Inr (rc, err) \<and> calls w' = calls w @ t \<and> x_trace (pc_content cmd) t \<and>
    (ValidateXText (pc_content cmd) \<noteq> None \<longrightarrow> t = []) \<and> receipt_says (post_answers t) rc err"
proof -
  let ?c = "pc_content cmd" and ?w = "w\<lparr>ticks := Suc (ticks w)\<rparr>"
  define rc0 where "rc0 = \<lparr>pr_platform = PubPlatformX, pr_state = PubFailed, pr_external_id = [], pr_attempt_count = 0,
                    pr_country_code = [], pr_relay_results = [], pr_created_at = clock w (ticks w)\<rparr>"
  have says0: "receipt_says [] rc0 (Some e)" for e by (simp add: receipt_says_def rc0_def)
  show ?thesis
  proof (cases "ValidateXText ?c")
    case (Some e)
    then have "res = Inr (rc0, Some e)" "calls w' = calls w"
      using assms(3) by (auto simp: X_Publish_def Let_def rc0_def)
    then show ?thesis using says0 by auto
  next
    case valid: None
    obtain k w1 where k: "BearerToken tokens ?w = (k, w1)" by fastforce
    have c1: "calls w1 = calls w @ [CallToken k]" using token_call [OF k] by simp
    show ?thesis
    proof (cases "\<exists>tok. k = Inr tok \<and> \<not> unusable_token tok")
      case False
      then have "\<exists>e. res = Inr (rc0, Some e) \<and> w' = w1"
        using assms valid k by (cases k) (auto simp: X_Publish_def Let_def rc0_def ebind_attempt)
      then show ?thesis using says0 c1 valid by (auto intro!: exI [of _ "[CallToken k]"] x_trace.token)
    next
      case True
      then obtain tok where tok: "k = Inr tok" "\<not> unusable_token tok" by blast
      obtain r2 w2 where once: "publishOnce c ?c tok rc0 w1 = (r2, w2)" by fastforce
      obtain a rc1 err1 where a: "r2 = Inr (rc1, err1)" "after_answer a rc0 rc1 err1"
          "calls w2 = calls w1 @ [CallPost (post_request ?c tok) a]"
        using publishOnce_calls [OF assms(1) once] by blast
      let ?t1 = "[CallToken (Inr tok), CallPost (post_request ?c tok) a]"
      have c2: "calls w2 = calls w @ ?t1" using a(3) c1 tok(1) by simp
      have says1: "receipt_says [a] rc1 err1"
        using a(2) accepted_not_definitive by (fastforce simp: after_answer_def receipt_says_def rc0_def)
      have run: "refresh_and_retry c ?c (rc1, err1) w2 = (res, w')"
        using assms valid k tok once a(1) by (simp add: X_Publish_def Let_def rc0_def ebind_attempt)
      note run = run [unfolded refresh_and_retry_def assms(2)]
      show ?thesis
      proof (cases "status_of a = 401 \<and> RefreshBearerToken tokens \<noteq> None")
        case False
        then have "res = Inr (rc1, err1) \<and> w' = w2"
          using run a(2) by (cases "status_of a = 401") (auto simp: after_answer_def)
        then show ?thesis using says1 c2 valid tok(2) by (auto intro!: exI [of _ ?t1] x_trace.once)
      next
        case True
        then obtain f e1 where f: "RefreshBearerToken tokens = Some f" "status_of a = 401" and
            e1: "err1 = Some e1" "errors_As_platform e1 = Some e1" "pe_http_status e1 = 401"
          using a(2) accepted_status by (fastforce simp: after_answer_def)
        have st1: "pr_state rc1 = (if definitive a then PubFailed else PubUnknown)" "pr_external_id rc1 = []"
            "pr_attempt_count rc1 = 1" "\<nexists>i. accepted_as a i"
          using a(2) f(2) accepted_status by (fastforce simp: after_answer_def rc0_def)+
        obtain r w3 where r: "f w2 = (r, w3)" by fastforce
        have c3: "calls w3 = calls w @ ?t1 @ [CallRefresh r]" using refresh_call [OF f(1) r] c2 by simp
        show ?thesis
        proof (cases "\<exists>tok2. r = Inr tok2 \<and> \<not> unusable_token tok2")
          case False
          then have "\<exists>e. res = Inr (rc1, Some e) \<and> w' = w3"
            using run f(1) e1 r by (cases r) (auto simp: ebind_attempt Let_def)
          moreover have "receipt_says [a] rc1 (Some e)" for e using says1 e1 st1 by (auto simp: receipt_says_def)
          ultimately show ?thesis using c3 valid tok(2) f(2)
            by (auto intro!: exI [of _ "?t1 @ [CallRefresh r]"] x_trace.refresh)
        next
          case True
          then obtain tok2 where tok2: "r = Inr tok2" "\<not> unusable_token tok2" by blast
          then have "publishOnce c ?c tok2 rc1 w3 = (res, w')"
            using run f(1) e1 r by (simp add: ebind_attempt Let_def)
          then obtain b rc2 err2 where b: "res = Inr (rc2, err2)" "after_answer b rc1 rc2 err2"
              "calls w' = calls w3 @ [CallPost (post_request ?c tok2) b]"
            using publishOnce_calls [OF assms(1)] by blast
          note says2 = receipt_says_second [OF b(2) st1(1,3)]
          then show ?thesis
            using says2 b(1,3) c3 valid tok(2) tok2 f(2)
            by (auto intro!: exI [of _ "?t1 @ [CallRefresh r, CallPost (post_request ?c tok2) b]"] x_trace.twice)
        qed
      qed
    qed
  qed
qed

end

section \<open>Every token source and every answer\<close>

record x_world = world +
  x_calls :: "x_call list"

definition x_heard :: "(go_error + 'a \<Rightarrow> x_call) \<Rightarrow> ('z x_world_scheme \<Rightarrow> go_error + 'a) \<Rightarrow> ('z x_world_scheme, 'a) act" where
  "x_heard call answer w = (answer w, w\<lparr>x_calls := x_calls w @ [call (answer w)]\<rparr>)"

definition env_tokens :: "('z x_world_scheme \<Rightarrow> go_error + string) \<Rightarrow> ('z x_world_scheme \<Rightarrow> go_error + string) option \<Rightarrow>
    'z x_world_scheme BearerTokenSource" where
  "env_tokens tok refresh =
     \<lparr>BearerToken = x_heard CallToken tok, RefreshBearerToken = map_option (x_heard CallRefresh) refresh\<rparr>"

definition env_client :: "(http_request \<Rightarrow> 'z x_world_scheme \<Rightarrow> post_answer) \<Rightarrow> 'z x_world_scheme round_tripper" where
  "env_client answer req = x_heard (CallPost req) (answer req)"

interpretation x: x_environment "env_tokens tok refresh" "env_client answer" x_calls for tok refresh answer
  by unfold_locales (auto simp: ambient_free_def env_tokens_def env_client_def x_heard_def)

section \<open>Properties\<close>

lemma trace_posts: "x_trace content t \<Longrightarrow> length (post_answers t) \<le> 2"
  by (induction rule: x_trace.induct) auto

lemma trace_requests:
  "x_trace content t \<Longrightarrow> CallPost req a \<in> set t \<Longrightarrow> rq_method req = ''POST'' \<and> rq_url req = XCreatePostEndpoint \<and> rq_body req = post_body content"
  by (induction rule: x_trace.induct) (auto simp: post_request_def)

text \<open>
  C23: a publication to X makes at most two requests, each a POST of exactly the given text to the
  fixed endpoint; the second one is made only after the first was answered with status 401 and a
  usable token was obtained by one refresh. A text that fails the local checks touches neither the
  credentials nor the network.
\<close>

theorem x_at_most_two_requests:
  assumes "NewXConnector dflt (Some (env_client answer)) (Some (env_tokens tok refresh)) = Inr c"
    and "X_Publish c cmd w = (res, w')"
  shows "\<exists>t. x_calls w' = x_calls w @ t \<and> x_trace (pc_content cmd) t \<and> length (post_answers t) \<le> 2 \<and>
    (length (post_answers t) = 2 \<longrightarrow> status_of (hd (post_answers t)) = 401 \<and> (\<exists>tok2. CallRefresh (Inr tok2) \<in> set t)) \<and>
    (\<forall>req a. CallPost req a \<in> set t \<longrightarrow>
       rq_method req = ''POST'' \<and> rq_url req = XCreatePostEndpoint \<and> rq_body req = post_body (pc_content cmd)) \<and>
    (ValidateXText (pc_content cmd) \<noteq> None \<longrightarrow> t = [])"
proof -
  have c: "xc_client c = env_client answer" "xc_tokens c = env_tokens tok refresh"
    using assms(1) by (auto simp: NewXConnector_def)
  obtain t where t: "x_calls w' = x_calls w @ t" "x_trace (pc_content cmd) t" "ValidateXText (pc_content cmd) \<noteq> None \<longrightarrow> t = []"
    using x.Publish_outcome [OF c assms(2)] by blast
  have "length (post_answers t) = 2 \<longrightarrow> status_of (hd (post_answers t)) = 401 \<and> (\<exists>tok2. CallRefresh (Inr tok2) \<in> set t)"
    using t(2) by (induction rule: x_trace.induct) auto
  then show ?thesis using t trace_posts trace_requests by blast
qed

text \<open>
  C24: the receipt is honest about what X may have accepted. It counts the requests; it is COMPLETE,
  with the returned identifier and without an error, exactly if the last answer was a well-formed
  201; it is FAILED exactly if every request was definitively refused, by a complete answer other than
  201; in every other case it is UNKNOWN.
\<close>

theorem x_receipt_honest:
  assumes "NewXConnector dflt (Some (env_client answer)) (Some (env_tokens tok refresh)) = Inr c"
    and "X_Publish c cmd w = (res, w')"
  shows "\<exists>rc err t. res = Inr (rc, err) \<and> x_calls w' = x_calls w @ t \<and>
    (let as = post_answers t
     in pr_attempt_count rc = int (length as) \<and>
        (pr_state rc = PubComplete \<longleftrightarrow> (\<exists>postID. as \<noteq> [] \<and> accepted_as (last as) postID \<and> pr_external_id rc = postID)) \<and>
        (pr_state rc = PubFailed \<longleftrightarrow> list_all definitive as) \<and> (err = None \<longleftrightarrow> pr_state rc = PubComplete) \<and>
        pr_state rc \<noteq> PubPartial)"
proof -
  have c: "xc_client c = env_client answer" "xc_tokens c = env_tokens tok refresh"
    using assms(1) by (auto simp: NewXConnector_def)
  from x.Publish_outcome [OF c assms(2)] show ?thesis
    unfolding receipt_says_def Let_def list_all_iff by blast
qed

section \<open>Witnesses\<close>

text \<open>
  The first answer is a 401 whose body breaks off, the refresh works, and the second answer is a 403:
  the connector sends the post again although it recorded the first result as unknown, and the
  receipt stays UNKNOWN beside an error that is not ambiguous.
\<close>

definition broken_401 :: http_response where
  "broken_401 = \<lparr>rs_status = 401, rs_header = (\<lambda>_. []), rs_body = BrokenBody (Sentinel ErrUnexpectedEOF)\<rparr>"

definition plain_403 :: http_response where
  "plain_403 = \<lparr>rs_status = 403, rs_header = (\<lambda>_. []), rs_body = Body []\<rparr>"

definition sample_x :: "x_world XConnector" where
  "sample_x = \<lparr>xc_client = env_client (\<lambda>req w. if length (x_calls w) = 1 then Inr broken_401 else Inr plain_403),
     xc_tokens = env_tokens (\<lambda>_. Inr ''t1'') (Some (\<lambda>_. Inr ''t2''))\<rparr>"

definition sample_x_world :: x_world where
  "sample_x_world = \<lparr>entropy = [], clock = (\<lambda>_. 0), ticks = 0, x_calls = []\<rparr>"

definition x_command :: PublishCommand where
  "x_command = \<lparr>pc_job_id = [], pc_content = ''hi'', pc_payload_hash_hex = [], pc_egress_policy_id = []\<rparr>"

lemma sample_text: "ValidateXText ''hi'' = None"
proof -
  have v: "ValidString ''hi''" "TrimSpace ''hi'' \<noteq> []" "runes ''hi'' = [104, 105]"
    by (simp_all add: ascii_ValidString TrimSpace_ascii runes_ascii ascii_def bv_def IsSpace_def)
  have "url_at ''hi'' = None" "url_at ''i'' = None" by (simp_all add: url_at_def HasPrefix_def)
  then have "FindAllStringIndex 0 ''hi'' = []" by (simp add: FindAllStringIndex.simps)
  then have "XWeightedLength ''hi'' = 2"
    by (simp add: XWeightedLength_def xRuneWeight_def v(3) rune_weight_def)
  then show ?thesis using v by (simp add: ValidateXText_def disallowed_control_def XMaxWeightedLength_def)
qed

lemma sample_tokens_usable: "\<not> unusable_token ''t1''" "\<not> unusable_token ''t2''"
  by (simp_all add: unusable_token_def TrimSpace_ascii ascii_def bv_def IsSpace_def ContainsAny_def)

lemma sample_x_new: "NewXConnector dflt (Some (xc_client sample_x)) (Some (xc_tokens sample_x)) = Inr sample_x"
  by (simp add: NewXConnector_def sample_x_def)

lemma x_resend_after_unreadable_401:
  "\<exists>rc w'. X_Publish sample_x x_command sample_x_world = (Inr (rc, Some (classifyXStatusAt 403 (\<lambda>_. []) 0)), w') \<and>
     pr_state rc = PubUnknown \<and> pr_attempt_count rc = 2 \<and>
     x_calls w' = [CallToken (Inr ''t1''), CallPost (post_request ''hi'' ''t1'') (Inr broken_401), CallRefresh (Inr ''t2''),
       CallPost (post_request ''hi'' ''t2'') (Inr plain_403)]"
  using sample_text sample_tokens_usable
  by (simp add: X_Publish_def sample_x_def sample_x_world_def x_command_def Let_def ebind_attempt env_tokens_def x_heard_def
      publishOnce_def env_client_def readBounded_def broken_401_def plain_403_def refresh_and_retry_def)

theorem x_at_most_two_requests_witness:
  "\<exists>res w' t. X_Publish sample_x x_command sample_x_world = (res, w') \<and> x_calls w' = t \<and> length (post_answers t) = 2 \<and>
     status_of (hd (post_answers t)) = 401"
proof -
  obtain res w' where p: "X_Publish sample_x x_command sample_x_world = (res, w')" "length (post_answers (x_calls w')) = 2"
    using x_resend_after_unreadable_401 by force
  from x_at_most_two_requests [OF sample_x_new [unfolded sample_x_def XConnector.simps, folded sample_x_def] p(1)] show ?thesis
    using p by (auto simp: sample_x_world_def)
qed

theorem x_receipt_honest_witness:
  "\<exists>rc err w'. X_Publish sample_x x_command sample_x_world = (Inr (rc, err), w') \<and> pr_attempt_count rc = 2 \<and> err \<noteq> None \<and>
     \<not> list_all definitive (post_answers (x_calls w'))"
proof -
  obtain rc err w' where p: "X_Publish sample_x x_command sample_x_world = (Inr (rc, err), w')" "pr_state rc = PubUnknown"
      "pr_attempt_count rc = 2" using x_resend_after_unreadable_401 by blast
  from x_receipt_honest [OF sample_x_new [unfolded sample_x_def XConnector.simps, folded sample_x_def] p(1)] show ?thesis
    using p by (auto simp: sample_x_world_def Let_def)
qed

theorem weighted_length_one_pass_witness: "XWeightedLength ''hi'' = weigh ''hi''"
  using weighted_length_one_pass [of "''hi''"] by (simp add: ascii_ValidString ascii_def bv_def)

text \<open>A large \<open>Retry-After\<close> overflows the duration: the wait becomes negative.\<close>

lemma retry_after_wraps:
  "retry_after (\<lambda>k. if k = ''Retry-After'' then ''9223372036854775807'' else []) 0 = - 1000000000"
  by (simp add: retry_after_def ParseInt_def parse_int64_def read_nat_def is_digit_def bv_def int64_def wrap64_def Let_def)

section \<open>Dry runs\<close>

lemma dry_run_answer: "xCreatePostResponse (json_print True (JObj [(''data'', JObj [(''id'', JStr ''dry-run'')])])) = Inr ''dry-run''"
proof -
  have "json_wf (JObj [(''data'', JObj [(''id'', JStr ''dry-run'')])])" by (simp add: bv_def)
  then have "json_parse (json_print True (JObj [(''data'', JObj [(''id'', JStr ''dry-run'')])])) =
      Some (JObj [(''data'', JObj [(''id'', JStr ''dry-run'')])])"
    by (rule json_parse_print)
  then show ?thesis
    by (simp add: xCreatePostResponse_def Unmarshal_def field_of_def set_post_response_def set_post_data_def decode_string_def)
qed

lemma dry_run_answer_short: "length (json_print True (JObj [(''data'', JObj [(''id'', JStr ''dry-run'')])])) \<le> XMaxResponseBytes"
  by (simp add: json_string_def json_escape_ascii bv_def esc_ascii_def XMaxResponseBytes_def)

text \<open>
  A dry run publishes nothing and keeps no credential. Through the offline transport a valid text
  of at most 32 KiB encoded always completes with the identifier \<open>dry-run\<close>, and what is captured is
  the method, the endpoint, the content type and the encoded text, the same for every usable token.
\<close>

theorem dry_run_captures:
  assumes "ValidateXText (pc_content cmd) = None" and "\<not> unusable_token tok" and "length (post_body (pc_content cmd)) \<le> XMaxResponseBytes"
    and "NewXConnector dflt (Some DryRun_RoundTrip) (Some (BearerTokenSourceFunc (ok tok))) = Inr c"
  shows "\<exists>rc w'. X_Publish c cmd w = (Inr (rc, None), w') \<and> pr_state rc = PubComplete \<and> pr_external_id rc = ''dry-run'' \<and>
    Captures w' = Captures w @ [\<lparr>cap_method = ''POST'', cap_url = XCreatePostEndpoint, cap_content_type = ''application/json'',
       cap_authorization_present = True, cap_body = post_body (pc_content cmd)\<rparr>]"
proof -
  have c: "c = \<lparr>xc_client = DryRun_RoundTrip, xc_tokens = BearerTokenSourceFunc (ok tok)\<rparr>"
    using assms(4) by (simp add: NewXConnector_def)
  have t: "TrimSpace ''dry-run'' \<noteq> []" by (simp add: TrimSpace_ascii ascii_def bv_def IsSpace_def)
  have r: "readBounded (Body (json_print True (JObj [(''data'', JObj [(''id'', JStr ''dry-run'')])]))) XMaxResponseBytes =
      Inr (json_print True (JObj [(''data'', JObj [(''id'', JStr ''dry-run'')])]), False)"
    using dry_run_answer_short by (simp add: readBounded_def Let_def del: json_print.simps)
  show ?thesis
    using assms(1-3) t r dry_run_answer
    by (simp add: c X_Publish_def Let_def ebind_attempt BearerTokenSourceFunc_def publishOnce_def DryRun_RoundTrip_def
        post_request_def header_get_def HasPrefix_def Captures_def refresh_and_retry_def del: json_print.simps)
qed

theorem dry_run_captures_witness:
  "\<exists>c rc w'. NewXConnector DryRun_RoundTrip (Some DryRun_RoundTrip) (Some (BearerTokenSourceFunc (ok ''t1''))) = Inr c \<and>
     X_Publish c x_command \<lparr>entropy = [], clock = (\<lambda>_. 0), ticks = 0, captures = []\<rparr> = (Inr (rc, None), w') \<and>
     pr_external_id rc = ''dry-run'' \<and> length (Captures w') = 1"
proof -
  obtain c where c: "NewXConnector DryRun_RoundTrip (Some DryRun_RoundTrip) (Some (BearerTokenSourceFunc (ok ''t1''))) =
      Inr (c :: dry_run_world XConnector)"
    by (simp add: NewXConnector_def)
  have v: "ValidateXText (pc_content x_command) = None" using sample_text by (simp add: x_command_def)
  have l: "length (post_body (pc_content x_command)) \<le> XMaxResponseBytes"
    by (simp add: x_command_def post_body_def json_string_def json_escape_ascii bv_def esc_ascii_def XMaxResponseBytes_def)
  have e: "Captures \<lparr>entropy = [], clock = (\<lambda>_. 0), ticks = 0, captures = []\<rparr> = []" by (simp add: Captures_def)
  from dry_run_captures [OF v sample_tokens_usable(1) l c, of "\<lparr>entropy = [], clock = (\<lambda>_. 0), ticks = 0, captures = []\<rparr>"]
  show ?thesis using c e by force
qed

end
