(* ===== verification/Platform_XOAuth.thy ===== *)
theory Platform_XOAuth
  imports Platform_X Store_Props
begin

text \<open>
  Package \<open>internal/platform\<close>, \<open>xoauth.go\<close>: the OAuth 2.0 manager for X, with PKCE, one-time states bound
  to a session, the token endpoint, and the encrypted token vault. The vault is an interface that the
  SQLite store implements; the manager is the token source of the X connector.
\<close>

section \<open>Definitions\<close>

definition XAuthorizeEndpoint :: string where "XAuthorizeEndpoint = ''https://x.com/i/oauth2/authorize''"
definition XTokenEndpoint :: string where "XTokenEndpoint = ''https://api.x.com/2/oauth2/token''"
definition XRevokeEndpoint :: string where "XRevokeEndpoint = ''https://api.x.com/2/oauth2/revoke''"
definition xOAuthBodyLimit :: nat where "xOAuthBodyLimit = 32768"

definition xRequiredScopes :: "string list" where
  "xRequiredScopes = [''offline.access'', ''tweet.read'', ''tweet.write'', ''users.read'']"

record 'w XOAuthVault =
  vault_Save :: "bytes \<Rightarrow> time \<Rightarrow> ('w, unit) act"
  vault_Load :: "('w, bytes option) act"
  vault_Delete :: "('w, unit) act"

record 'w XOAuthConfig =
  cfg_ClientID :: string
  cfg_RedirectURI :: string
  cfg_Transport :: "'w round_tripper option"
  cfg_Vault :: "'w XOAuthVault option"

record XOAuthTokens =
  tk_access :: string
  tk_refresh :: string
  tk_type :: string
  tk_scopes :: "string list"
  tk_expires_at :: time

record xOAuthState =
  os_verifier :: string
  os_binding_hash :: bytes
  os_expires_at :: time

record 'w XOAuthManager =
  om_clientID :: string
  om_redirectURI :: string
  om_client :: "'w round_tripper"
  om_vault :: "'w XOAuthVault"

text \<open>The manager's map of pending states, guarded by its mutex, beside the store's world.\<close>

record oauth_world = sqlite_world +
  states :: "bytes \<Rightarrow> xOAuthState option"

definition NewXOAuthManager :: "'w round_tripper \<Rightarrow> 'w XOAuthConfig \<Rightarrow> go_error + 'w XOAuthManager" where
  "NewXOAuthManager DefaultTransport cfg =
     (if TrimSpace (cfg_ClientID cfg) = [] \<or> length (cfg_ClientID cfg) > 256 \<or>
         ContainsAny (cfg_ClientID cfg) [CR, LF, CHR 0x09, CHR '' '']
      then Inl (ErrorsNew ''X OAuth client ID is invalid'')
      else if (case URL_Parse (cfg_RedirectURI cfg) of
                 None \<Rightarrow> True
               | Some redirect \<Rightarrow> Scheme redirect \<noteq> ''https'' \<or> Host redirect = [] \<or> Fragment redirect \<noteq> [])
      then Inl (ErrorsNew ''X OAuth redirect URI must be an absolute HTTPS URL'')
      else case cfg_Vault cfg of
        None \<Rightarrow> Inl (ErrorsNew ''X OAuth requires an encrypted token vault'')
      | Some vault \<Rightarrow>
          Inr \<lparr>om_clientID = cfg_ClientID cfg, om_redirectURI = cfg_RedirectURI cfg,
               om_client = (case cfg_Transport cfg of None \<Rightarrow> DefaultTransport | Some t \<Rightarrow> t), om_vault = vault\<rparr>)"

definition randomOAuthValue :: "nat \<Rightarrow> ('z world_scheme, string) act" where
  "randomOAuthValue n = ebind (ReadFull n) (\<lambda>raw. ok (b64_encode_raw raw))"

fun space_join :: "string list \<Rightarrow> string" where
  "space_join [] = []"
| "space_join [x] = x"
| "space_join (x # xs) = x @ CHR '' '' # space_join xs"

text \<open>The critical section of \<open>Begin\<close>: expired states go, the new one is entered.\<close>

definition add_state :: "bytes \<Rightarrow> xOAuthState \<Rightarrow> time \<Rightarrow> ('z oauth_world_scheme, unit) act" where
  "add_state key pending nw w =
     (Inr (), w\<lparr>states := (\<lambda>k. case states w k of None \<Rightarrow> None | Some p \<Rightarrow> if os_expires_at p > nw then Some p else None)(key \<mapsto> pending)\<rparr>)"

definition Begin :: "'z oauth_world_scheme XOAuthManager \<Rightarrow> string \<Rightarrow> ('z oauth_world_scheme, string) act" where
  "Begin m binding =
     ebind (ensure (binding \<noteq> []) (ErrorsNew ''X OAuth requires an authenticated session binding'')) (\<lambda>_.
     ebind (randomOAuthValue 32) (\<lambda>stateRaw.
     ebind (randomOAuthValue 32) (\<lambda>verifier.
     ebind (case RawURL_Decode stateRaw of None \<Rightarrow> fail (ErrorsNew ''illegal base64 data'') | Some d \<Rightarrow> ok d) (\<lambda>stateDecoded.
     ebind now (\<lambda>nw.
     ebind (add_state (sha256 stateDecoded)
              \<lparr>os_verifier = verifier, os_binding_hash = sha256 binding, os_expires_at = nw + 5 * Minute\<rparr> nw) (\<lambda>_.
     ok (XAuthorizeEndpoint @ ''?'' @ Values_Encode
           [(''response_type'', ''code''), (''client_id'', om_clientID m), (''redirect_uri'', om_redirectURI m),
            (''scope'', space_join xRequiredScopes), (''state'', stateRaw),
            (''code_challenge'', b64_encode_raw (sha256 verifier)), (''code_challenge_method'', ''S256'')])))))))"

definition take_state :: "bytes \<Rightarrow> ('z oauth_world_scheme, xOAuthState option) act" where
  "take_state key w = (Inr (states w key), w\<lparr>states := (states w)(key := None)\<rparr>)"

definition consumeState :: "string \<Rightarrow> string \<Rightarrow> ('z oauth_world_scheme, string) act" where
  "consumeState state binding =
     (case RawURL_Decode state of
        None \<Rightarrow> fail (ErrorsNew ''X OAuth state is invalid'')
      | Some raw \<Rightarrow>
          if length raw \<noteq> 32 \<or> binding = [] then fail (ErrorsNew ''X OAuth state is invalid'')
          else
            ebind (take_state (sha256 raw)) (\<lambda>r.
            case r of
              None \<Rightarrow> fail (ErrorsNew ''X OAuth state is invalid or expired'')
            | Some pending \<Rightarrow>
                ebind now (\<lambda>nw.
                if \<not> os_expires_at pending > nw \<or> os_binding_hash pending \<noteq> sha256 binding
                then fail (ErrorsNew ''X OAuth state is invalid or expired'')
                else ok (os_verifier pending))))"

definition hasExactlyRequiredScopes :: "string list \<Rightarrow> bool" where
  "hasExactlyRequiredScopes scopes \<longleftrightarrow>
     length scopes = length xRequiredScopes \<and>
     (let copyOfScopes = sort scopes
      in list_all (\<lambda>i. copyOfScopes ! i = xRequiredScopes ! i) [0..<length xRequiredScopes])"

section \<open>JSON of tokens\<close>

definition tokens_fields :: "string list" where
  "tokens_fields = [''access_token'', ''refresh_token'', ''token_type'', ''scopes'', ''expires_at'']"

definition tokens_json :: "XOAuthTokens \<Rightarrow> json" where
  "tokens_json t =
     JObj [(''access_token'', JStr (tk_access t)), (''refresh_token'', JStr (tk_refresh t)),
           (''token_type'', JStr (tk_type t)), (''scopes'', JArr (map JStr (tk_scopes t))),
           (''expires_at'', JStr (FormatRFC3339Nano (tk_expires_at t)))]"

definition MarshalTokens :: "XOAuthTokens \<Rightarrow> go_error + bytes" where
  "MarshalTokens t = (if json_year_ok (tk_expires_at t) then Inr (json_print True (tokens_json t)) else Inl year_error)"

text \<open>An array into a slice of strings: a null element leaves the element as it was.\<close>

fun decode_elems :: "json list \<Rightarrow> string list \<Rightarrow> go_error + string list" where
  "decode_elems [] old = Inr []"
| "decode_elems (v # vs) old =
     (case decode_string v (case old of [] \<Rightarrow> [] | x # _ \<Rightarrow> x) of
        Inl err \<Rightarrow> Inl err
      | Inr s \<Rightarrow> map_sum id ((#) s) (decode_elems vs (tl old)))"

definition decode_strings :: "json \<Rightarrow> string list \<Rightarrow> go_error + string list" where
  "decode_strings v old = (case v of JArr vs \<Rightarrow> decode_elems vs old | JNull \<Rightarrow> Inr [] | _ \<Rightarrow> Inl type_error)"

definition set_tokens :: "string \<Rightarrow> json \<Rightarrow> XOAuthTokens \<Rightarrow> go_error + XOAuthTokens" where
  "set_tokens c v t =
     (if c = ''access_token'' then map_sum id (\<lambda>s. t\<lparr>tk_access := s\<rparr>) (decode_string v (tk_access t))
      else if c = ''refresh_token'' then map_sum id (\<lambda>s. t\<lparr>tk_refresh := s\<rparr>) (decode_string v (tk_refresh t))
      else if c = ''token_type'' then map_sum id (\<lambda>s. t\<lparr>tk_type := s\<rparr>) (decode_string v (tk_type t))
      else if c = ''scopes'' then map_sum id (\<lambda>s. t\<lparr>tk_scopes := s\<rparr>) (decode_strings v (tk_scopes t))
      else map_sum id (\<lambda>x. t\<lparr>tk_expires_at := x\<rparr>) (decode_time v (tk_expires_at t)))"

definition no_tokens :: XOAuthTokens where
  "no_tokens = \<lparr>tk_access = [], tk_refresh = [], tk_type = [], tk_scopes = [], tk_expires_at = zero_time\<rparr>"

definition UnmarshalTokens :: "bytes \<Rightarrow> go_error + XOAuthTokens" where
  "UnmarshalTokens data = Unmarshal tokens_fields set_tokens data no_tokens"

record xTokenResponse =
  tr_access :: string
  tr_refresh :: string
  tr_type :: string
  tr_expires_in :: int
  tr_scope :: string

definition set_token_response :: "string \<Rightarrow> json \<Rightarrow> xTokenResponse \<Rightarrow> go_error + xTokenResponse" where
  "set_token_response c v t =
     (if c = ''access_token'' then map_sum id (\<lambda>s. t\<lparr>tr_access := s\<rparr>) (decode_string v (tr_access t))
      else if c = ''refresh_token'' then map_sum id (\<lambda>s. t\<lparr>tr_refresh := s\<rparr>) (decode_string v (tr_refresh t))
      else if c = ''token_type'' then map_sum id (\<lambda>s. t\<lparr>tr_type := s\<rparr>) (decode_string v (tr_type t))
      else if c = ''expires_in'' then map_sum id (\<lambda>i. t\<lparr>tr_expires_in := i\<rparr>) (decode_int v (tr_expires_in t))
      else map_sum id (\<lambda>s. t\<lparr>tr_scope := s\<rparr>) (decode_string v (tr_scope t)))"

definition UnmarshalTokenResponse :: "bytes \<Rightarrow> go_error + xTokenResponse" where
  "UnmarshalTokenResponse data =
     Unmarshal [''access_token'', ''refresh_token'', ''token_type'', ''expires_in'', ''scope''] set_token_response data
       \<lparr>tr_access = [], tr_refresh = [], tr_type = [], tr_expires_in = 0, tr_scope = []\<rparr>"

section \<open>Requests\<close>

definition form_request :: "string \<Rightarrow> (string \<times> string) list \<Rightarrow> http_request" where
  "form_request url values =
     \<lparr>rq_method = ''POST'', rq_url = url,
      rq_header = [(''Content-Type'', ''application/x-www-form-urlencoded''), (''Accept'', ''application/json'')],
      rq_body = Values_Encode values\<rparr>"

text \<open>\<open>strings.EqualFold(s, "bearer")\<close>.\<close>

definition is_bearer :: "string \<Rightarrow> bool" where
  "is_bearer s \<longleftrightarrow> fold_name s = fold_name ''bearer''"

definition tokenRequest :: "'z world_scheme XOAuthManager \<Rightarrow> (string \<times> string) list \<Rightarrow> ('z world_scheme, XOAuthTokens) act" where
  "tokenRequest m values =
     ebind (wrap_err (\<lambda>_. ErrorsNew ''X OAuth token exchange failed'') (om_client m (form_request XTokenEndpoint values))) (\<lambda>response.
     ebind (wrap_err (\<lambda>_. ErrorsNew ''X OAuth token response was invalid'')
              (lift (readBounded (rs_body response) xOAuthBodyLimit))) (\<lambda>(body, tooLarge).
     ebind (ensure (\<not> tooLarge) (ErrorsNew ''X OAuth token response was invalid'')) (\<lambda>_.
     ebind (ensure (rs_status response = 200)
              (Errorf ''X OAuth token exchange failed with status %d'' [ArgI (rs_status response)] None)) (\<lambda>_.
     ebind (wrap_err (\<lambda>_. ErrorsNew ''X OAuth token response was invalid'') (lift (UnmarshalTokenResponse body))) (\<lambda>decoded.
     ebind (ensure (\<not> (tr_access decoded = [] \<or> \<not> is_bearer (tr_type decoded) \<or> tr_expires_in decoded < 1 \<or> tr_expires_in decoded > 86400))
              (ErrorsNew ''X OAuth token response was incomplete'')) (\<lambda>_.
     let scopes = sort (Fields (tr_scope decoded))
     in ebind (ensure (hasExactlyRequiredScopes scopes)
                 (ErrorsNew ''X OAuth granted scopes do not match the least-privilege policy'')) (\<lambda>_.
        ebind now (\<lambda>nw.
        ok \<lparr>tk_access = tr_access decoded, tk_refresh = tr_refresh decoded, tk_type = ''Bearer'', tk_scopes = scopes,
            tk_expires_at = nw + tr_expires_in decoded * Second\<rparr>))))))))"

definition saveTokens :: "'z world_scheme XOAuthManager \<Rightarrow> XOAuthTokens \<Rightarrow> ('z world_scheme, unit) act" where
  "saveTokens m tokens =
     ebind (lift (MarshalTokens tokens)) (\<lambda>encoded.
     ebind now (\<lambda>nw. vault_Save (om_vault m) encoded nw))"

definition loadTokens :: "'z world_scheme XOAuthManager \<Rightarrow> ('z world_scheme, XOAuthTokens option) act" where
  "loadTokens m =
     ebind (vault_Load (om_vault m)) (\<lambda>r.
     case r of
       None \<Rightarrow> ok None
     | Some encoded \<Rightarrow>
         ebind (wrap_err (\<lambda>_. ErrorsNew ''stored X OAuth token record is invalid'') (lift (UnmarshalTokens encoded))) (\<lambda>tokens.
         ebind (ensure (\<not> (tk_access tokens = [] \<or> tk_refresh tokens = [] \<or> \<not> hasExactlyRequiredScopes (tk_scopes tokens)))
                  (ErrorsNew ''stored X OAuth token record violates policy'')) (\<lambda>_.
         ok (Some tokens))))"

definition Exchange :: "'z oauth_world_scheme XOAuthManager \<Rightarrow> string \<Rightarrow> string \<Rightarrow> string \<Rightarrow> ('z oauth_world_scheme, unit) act" where
  "Exchange m state binding code =
     ebind (consumeState state binding) (\<lambda>verifier.
     ebind (ensure (\<not> (TrimSpace code = [] \<or> length code > 4096 \<or> ContainsAny code [CR, LF]))
              (ErrorsNew ''X OAuth authorization code is invalid'')) (\<lambda>_.
     ebind (tokenRequest m [(''code'', code), (''grant_type'', ''authorization_code''), (''client_id'', om_clientID m),
                            (''redirect_uri'', om_redirectURI m), (''code_verifier'', verifier)]) (\<lambda>tokens.
     ebind (ensure (tk_refresh tokens \<noteq> []) (ErrorsNew ''X OAuth did not return the offline refresh token'')) (\<lambda>_.
     saveTokens m tokens))))"

definition Connected :: "'z world_scheme XOAuthManager \<Rightarrow> ('z world_scheme, bool) act" where
  "Connected m = ebind (attempt (loadTokens m)) (\<lambda>r. ok (case r of Inl _ \<Rightarrow> False | Inr t \<Rightarrow> t \<noteq> None))"

definition OAuth_RefreshBearerToken :: "'z world_scheme XOAuthManager \<Rightarrow> ('z world_scheme, string) act" where
  "OAuth_RefreshBearerToken m =
     ebind (loadTokens m) (\<lambda>r.
     case r of
       None \<Rightarrow> fail (ErrorsNew ''X OAuth refresh token is unavailable'')
     | Some current \<Rightarrow>
         ebind (ensure (tk_refresh current \<noteq> []) (ErrorsNew ''X OAuth refresh token is unavailable'')) (\<lambda>_.
         ebind (tokenRequest m [(''refresh_token'', tk_refresh current), (''grant_type'', ''refresh_token''),
                                (''client_id'', om_clientID m)]) (\<lambda>updated.
         let updated = (if tk_refresh updated = [] then updated\<lparr>tk_refresh := tk_refresh current\<rparr> else updated)
         in ebind (saveTokens m updated) (\<lambda>_. ok (tk_access updated)))))"

definition OAuth_BearerToken :: "'z world_scheme XOAuthManager \<Rightarrow> ('z world_scheme, string) act" where
  "OAuth_BearerToken m =
     ebind (loadTokens m) (\<lambda>r.
     case r of
       None \<Rightarrow> fail (ErrorsNew ''X OAuth connection is not configured'')
     | Some tokens \<Rightarrow>
         ebind now (\<lambda>nw.
         if tk_expires_at tokens > nw + 30 * Second then ok (tk_access tokens) else OAuth_RefreshBearerToken m))"

definition Revoke :: "'z world_scheme XOAuthManager \<Rightarrow> ('z world_scheme, unit) act" where
  "Revoke m =
     ebind (loadTokens m) (\<lambda>r.
     case r of
       None \<Rightarrow> ok ()
     | Some tokens \<Rightarrow>
         let token = (if tk_refresh tokens = [] then tk_access tokens else tk_refresh tokens)
         in ebind (wrap_err (\<lambda>_. ErrorsNew ''X OAuth revocation result is unknown'')
                     (om_client m (form_request XRevokeEndpoint [(''token'', token), (''client_id'', om_clientID m)]))) (\<lambda>response.
            ebind (wrap_err (\<lambda>_. ErrorsNew ''X OAuth revocation response was invalid'')
                     (lift (readBounded (rs_body response) xOAuthBodyLimit))) (\<lambda>(_, tooLarge).
            ebind (ensure (\<not> tooLarge) (ErrorsNew ''X OAuth revocation response was invalid'')) (\<lambda>_.
            ebind (ensure (\<not> (rs_status response < 200 \<or> rs_status response \<ge> 300))
                     (Errorf ''X OAuth revocation failed with status %d'' [ArgI (rs_status response)] None)) (\<lambda>_.
            vault_Delete (om_vault m))))))"

text \<open>The SQLite store as a vault, and the manager as the connector's token source.\<close>

definition SQLite_Vault :: "SQLite \<Rightarrow> 'z sqlite_world_scheme XOAuthVault" where
  "SQLite_Vault s = \<lparr>vault_Save = SaveXOAuthTokens s, vault_Load = LoadXOAuthTokens s, vault_Delete = DeleteXOAuthTokens\<rparr>"

definition OAuth_TokenSource :: "'z world_scheme XOAuthManager \<Rightarrow> 'z world_scheme BearerTokenSource" where
  "OAuth_TokenSource m = \<lparr>BearerToken = OAuth_BearerToken m, RefreshBearerToken = Some (OAuth_RefreshBearerToken m)\<rparr>"

section \<open>The record of tokens\<close>





section \<open>Pending states\<close>

lemma take_state_eq [simp]: "take_state key w = (Inr (states w key), w\<lparr>states := (states w)(key := None)\<rparr>)"
  by (simp add: take_state_def)

lemma consumeState_Inr:
  assumes "consumeState st b w = (Inr v, w')"
  shows "\<exists>raw p. RawURL_Decode st = Some raw \<and> length raw = 32 \<and> b \<noteq> [] \<and> states w (sha256 raw) = Some p \<and>
    os_expires_at p > clock w (ticks w) \<and> os_binding_hash p = sha256 b \<and> v = os_verifier p \<and>
    w' = w\<lparr>states := (states w)(sha256 raw := None), ticks := Suc (ticks w)\<rparr>"
  using assms by (auto simp: consumeState_def split: option.splits if_splits)

text \<open>Whatever \<open>consumeState\<close> returns, the state it was given is gone afterwards, and no other one is touched.\<close>

lemma consumeState_removes:
  assumes "consumeState st b w = (res, w')" and "RawURL_Decode st = Some raw" and "length raw = 32" and "b \<noteq> []"
  shows "states w' = (states w)(sha256 raw := None)"
  using assms by (auto simp: consumeState_def split: option.splits if_splits)

lemma consumeState_states:
  "consumeState st b w = (res, w') \<Longrightarrow> states w' = states w \<or> (\<exists>k. states w' = (states w)(k := None))"
  by (auto simp: consumeState_def split: option.splits if_splits)

lemma consumeState_unknown:
  assumes "RawURL_Decode st = Some raw" and "states w (sha256 raw) = None"
  shows "\<exists>e. consumeState st b w = (Inl e, w\<lparr>states := (states w)(sha256 raw := None)\<rparr>) \<or> consumeState st b w = (Inl e, w)"
  using assms by (auto simp: consumeState_def)

lemma Begin_Inr:
  assumes "Begin m b w = (Inr url, w')"
  defines "raw \<equiv> take 32 (entropy w)"
  shows "64 \<le> length (entropy w) \<and> b \<noteq> [] \<and>
    states w' (sha256 raw) = Some \<lparr>os_verifier = b64_encode_raw (take 32 (drop 32 (entropy w))),
      os_binding_hash = sha256 b, os_expires_at = clock w (ticks w) + 5 * Minute\<rparr>"
  using assms(1)
  by (auto simp: Begin_def randomOAuthValue_def ebind_eq_Inr ReadFull_eq_Inr raw_def add_state_def RawURL_roundtrip
      split: if_splits option.splits)

lemma Begin_states:
  assumes "Begin m b w = (res, w')" and "k \<noteq> sha256 (take 32 (entropy w))"
  shows "states w' k = states w k \<or> states w' k = None"
proof (cases res)
  case (Inr url)
  then show ?thesis
    using assms
    by (auto simp: Begin_def randomOAuthValue_def ebind_eq_Inr ReadFull_eq_Inr add_state_def RawURL_roundtrip
        split: if_splits option.splits)
next
  case (Inl e)
  then show ?thesis
    using assms
    by (auto simp: Begin_def randomOAuthValue_def ebind_eq_Inl ReadFull_eq_Inr ReadFull_def add_state_def RawURL_roundtrip
        split: if_splits option.splits)
qed

section \<open>Sequences of calls\<close>

datatype oauth_op = OBegin string | OExchange string string string | OBearer | ORefresh | ORevoke | OConnected

fun run_oauth :: "'z oauth_world_scheme XOAuthManager \<Rightarrow> oauth_op \<Rightarrow> 'z oauth_world_scheme \<Rightarrow> 'z oauth_world_scheme" where
  "run_oauth m (OBegin b) w = snd (Begin m b w)"
| "run_oauth m (OExchange st b code) w = snd (Exchange m st b code w)"
| "run_oauth m OBearer w = snd (OAuth_BearerToken m w)"
| "run_oauth m ORefresh w = snd (OAuth_RefreshBearerToken m w)"
| "run_oauth m ORevoke w = snd (Revoke m w)"
| "run_oauth m OConnected w = snd (Connected m w)"

abbreviation run_oauths :: "'z oauth_world_scheme XOAuthManager \<Rightarrow> oauth_op list \<Rightarrow> 'z oauth_world_scheme \<Rightarrow> 'z oauth_world_scheme" where
  "run_oauths m ops w \<equiv> fold (run_oauth m) ops w"

text \<open>No later \<open>Begin\<close> of the sequence draws a state with this hash.\<close>

fun not_reissued :: "'z oauth_world_scheme XOAuthManager \<Rightarrow> bytes \<Rightarrow> oauth_op list \<Rightarrow> 'z oauth_world_scheme \<Rightarrow> bool" where
  "not_reissued m key [] w \<longleftrightarrow> True"
| "not_reissued m key (op # ops) w \<longleftrightarrow>
     (case op of OBegin _ \<Rightarrow> key \<noteq> sha256 (take 32 (entropy w)) | _ \<Rightarrow> True) \<and> not_reissued m key ops (run_oauth m op w)"

section \<open>The vault\<close>

text \<open>The policy on a record of tokens: both tokens, and the four scopes, each once and no other.\<close>

definition policy_ok :: "XOAuthTokens \<Rightarrow> bool" where
  "policy_ok t \<longleftrightarrow> tk_access t \<noteq> [] \<and> tk_refresh t \<noteq> [] \<and>
     mset (tk_scopes t) = {#''offline.access'', ''tweet.read'', ''tweet.write'', ''users.read''#}"

lemma required_scopes_sorted: "sorted xRequiredScopes"
  by code_simp

lemma hasExactlyRequiredScopes_mset:
  "hasExactlyRequiredScopes scopes \<longleftrightarrow> mset scopes = {#''offline.access'', ''tweet.read'', ''tweet.write'', ''users.read''#}"
proof -
  have "hasExactlyRequiredScopes scopes \<longleftrightarrow> sort scopes = xRequiredScopes"
    by (auto simp: hasExactlyRequiredScopes_def Let_def list_all_iff list_eq_iff_nth_eq [of "sort scopes" xRequiredScopes])
  also have "\<dots> \<longleftrightarrow> mset scopes = mset xRequiredScopes"
  proof
    assume "sort scopes = xRequiredScopes"
    then show "mset scopes = mset xRequiredScopes" by (metis mset_sort)
  next
    assume "mset scopes = mset xRequiredScopes"
    then show "sort scopes = xRequiredScopes" by (intro properties_for_sort required_scopes_sorted) simp
  qed
  finally show ?thesis by (simp add: xRequiredScopes_def)
qed

text \<open>A response of the token endpoint that grants an access token.\<close>

definition token_grant :: "http_response \<Rightarrow> XOAuthTokens \<Rightarrow> bool" where
  "token_grant resp t \<longleftrightarrow> rs_status resp = 200 \<and>
     (\<exists>body d. rs_body resp = Body body \<and> length body \<le> 32768 \<and> UnmarshalTokenResponse body = Inr d \<and>
        is_bearer (tr_type d) \<and> 1 \<le> tr_expires_in d \<and> tr_expires_in d \<le> 86400 \<and> tk_access t = tr_access d)"

text \<open>A record obtained from the token endpoint with the refresh token of the stored one.\<close>

definition refreshed :: "'w round_tripper \<Rightarrow> ('w \<Rightarrow> bytes option) \<Rightarrow> string \<Rightarrow> XOAuthTokens \<Rightarrow> 'w \<Rightarrow> bool" where
  "refreshed client stored clientID t w \<longleftrightarrow>
     (\<exists>old data w1 resp w2. stored w = Some data \<and> UnmarshalTokens data = Inr old \<and> policy_ok old \<and> token_grant resp t \<and>
        client (form_request XTokenEndpoint [(''refresh_token'', tk_refresh old), (''grant_type'', ''refresh_token''),
          (''client_id'', clientID)]) w1 = (Inr resp, w2))"

locale token_vault =
  fixes vault :: "'z oauth_world_scheme XOAuthVault" and client :: "'z oauth_world_scheme round_tripper"
    and stored :: "'z oauth_world_scheme \<Rightarrow> bytes option"
  assumes ambient: "ambient_free stored" and pending: "stored (w\<lparr>states := x\<rparr>) = stored w"
    and save: "vault_Save vault data t w = (Inr u, w') \<Longrightarrow> stored w' = Some data"
    and save_fails: "vault_Save vault data t w = (Inl err, w') \<Longrightarrow> stored w' = stored w"
    and load: "vault_Load vault w = (Inr r, w') \<Longrightarrow> r = stored w"
    and load_keeps: "keeps stored (vault_Load vault)"
    and delete: "vault_Delete vault w = (Inr u, w') \<Longrightarrow> stored w' = None"
    and delete_fails: "vault_Delete vault w = (Inl err, w') \<Longrightarrow> stored w' = stored w"
    and client_keeps: "keeps stored (client req)"
    and keeps_states: "keeps states (vault_Save vault data t)" "keeps states (vault_Load vault)"
      "keeps states (vault_Delete vault)" "keeps states (client req)"
begin

lemma stored_tick [simp]: "stored (w\<lparr>ticks := n\<rparr>) = stored w" "stored (w\<lparr>entropy := e\<rparr>) = stored w"
  using ambient by (simp_all add: ambient_free_def)

lemma ambient_free_states [simp]: "ambient_free (states :: 'z oauth_world_scheme \<Rightarrow> _)"
  by (simp add: ambient_free_def)

lemma tokenRequest_keeps:
  assumes "om_client m = client" and "keeps g (client (form_request XTokenEndpoint vs))" and "ambient_free g"
  shows "keeps g (tokenRequest m vs)"
  unfolding tokenRequest_def assms(1) Let_def
  by (intro keeps_ebind keeps_wrap_err assms(2) keeps_lift keeps_ensure keeps_now assms(3) keeps_ok | simp split: prod.split | intro allI impI)+

lemma tokenRequest_Inr:
  assumes "tokenRequest m vs w = (Inr t, w')" and "om_client m = client"
  shows "tk_access t \<noteq> [] \<and> hasExactlyRequiredScopes (tk_scopes t) \<and> tk_type t = ''Bearer''"
    and "\<exists>resp w1. client (form_request XTokenEndpoint vs) w = (Inr resp, w1) \<and> token_grant resp t"
proof -
  show "tk_access t \<noteq> [] \<and> hasExactlyRequiredScopes (tk_scopes t) \<and> tk_type t = ''Bearer''"
    using assms(1) by (auto simp: tokenRequest_def ebind_eq_Inr Let_def split: if_splits)
  show "\<exists>resp w1. client (form_request XTokenEndpoint vs) w = (Inr resp, w1) \<and> token_grant resp t"
    using assms by (fastforce simp: tokenRequest_def ebind_eq_Inr wrap_err_eq_Inr Let_def not_less token_grant_def readBounded_Inr xOAuthBodyLimit_def
        split: if_splits)
qed

lemma saveTokens_outcome:
  assumes "om_vault m = vault" and "saveTokens m t w = (res, w')"
  shows "(\<exists>e. res = Inl e \<and> stored w' = stored w) \<or> (\<exists>data. MarshalTokens t = Inr data \<and> res = Inr () \<and> stored w' = Some data)"
proof (cases res)
  case (Inl e)
  then show ?thesis
    using assms save_fails by (fastforce simp: saveTokens_def ebind_eq_Inl)
next
  case (Inr u)
  then show ?thesis using assms save by (fastforce simp: saveTokens_def ebind_eq_Inr)
qed

lemma loadTokens_keeps:
  assumes "om_vault m = vault"
  shows "keeps stored (loadTokens m)" and "keeps states (loadTokens m)"
  unfolding loadTokens_def assms
  by (auto intro!: keeps_ebind keeps_wrap_err load_keeps keeps_states split: option.split)

lemma loadTokens_Inr:
  "om_vault m = vault \<Longrightarrow> loadTokens m w = (Inr (Some t), w') \<Longrightarrow>
     \<exists>data. stored w = Some data \<and> UnmarshalTokens data = Inr t \<and> policy_ok t"
  "om_vault m = vault \<Longrightarrow> loadTokens m w = (Inr None, w') \<Longrightarrow> stored w = None"
  using load by (fastforce simp: loadTokens_def ebind_eq_Inr policy_ok_def hasExactlyRequiredScopes_mset split: option.splits if_splits)+

lemma Exchange_outcome:
  assumes "om_client m = client" and "om_vault m = vault" and "Exchange m st b code w = (res, w')"
  shows "(\<exists>e. res = Inl e \<and> stored w' = stored w) \<or>
    (\<exists>t data v w1 resp w2. res = Inr () \<and> policy_ok t \<and> tk_type t = ''Bearer'' \<and> MarshalTokens t = Inr data \<and> stored w' = Some data \<and>
       consumeState st b w = (Inr v, w1) \<and> token_grant resp t \<and>
       client (form_request XTokenEndpoint [(''code'', code), (''grant_type'', ''authorization_code''), (''client_id'', om_clientID m),
         (''redirect_uri'', om_redirectURI m), (''code_verifier'', v)]) w1 = (Inr resp, w2))"
  using assms(3) unfolding Exchange_def
proof (cases rule: ebind_cases)
  case (failed e)
  then have "stored w' = stored w" by (auto simp: consumeState_def pending split: option.splits if_splits)
  then show ?thesis using failed by blast
next
  case (continued v w1)
  note consumed = continued(1)
  from continued have w1: "stored w1 = stored w" by (auto simp: consumeState_def pending split: option.splits if_splits)
  let ?vs = "[(''code'', code), (''grant_type'', ''authorization_code''), (''client_id'', om_clientID m),
                            (''redirect_uri'', om_redirectURI m), (''code_verifier'', v)]"
  show ?thesis
  proof (cases "TrimSpace code = [] \<or> length code > 4096 \<or> ContainsAny code [CR, LF]")
    case True
    then show ?thesis using continued(2) w1 by auto
  next
    case False
    then have "ebind (tokenRequest m ?vs) (\<lambda>tokens.
       ebind (ensure (tk_refresh tokens \<noteq> []) (ErrorsNew ''X OAuth did not return the offline refresh token'')) (\<lambda>_.
       saveTokens m tokens)) w1 = (res, w')"
      using continued(2) by simp
    then show ?thesis
    proof (cases rule: ebind_cases)
      case (failed e)
      then show ?thesis using keepsD [OF tokenRequest_keeps [OF assms(1) client_keeps ambient]] w1 by metis
    next
      case (continued t w2)
      note w2 = keepsD [OF tokenRequest_keeps [OF assms(1) client_keeps ambient] continued(1)]
      show ?thesis
      proof (cases "tk_refresh t = []")
        case True
        then show ?thesis using continued(2) w1 w2 by auto
      next
        case False
        then have "saveTokens m t w2 = (res, w')" using continued(2) by simp
        from saveTokens_outcome [OF assms(2) this] tokenRequest_Inr [OF continued(1) assms(1)] False w1 w2 consumed
        show ?thesis by (fastforce simp: policy_ok_def hasExactlyRequiredScopes_mset)
      qed
    qed
  qed
qed

lemma refreshed_tick [simp]: "refreshed client stored k t (w\<lparr>ticks := n\<rparr>) = refreshed client stored k t w"
  by (simp add: refreshed_def)

lemma Refresh_outcome:
  assumes "om_client m = client" and "om_vault m = vault" and "OAuth_RefreshBearerToken m w = (res, w')"
  shows "(\<exists>e. res = Inl e \<and> stored w' = stored w) \<or>
    (\<exists>t data. res = Inr (tk_access t) \<and> policy_ok t \<and> tk_type t = ''Bearer'' \<and> MarshalTokens t = Inr data \<and> stored w' = Some data \<and>
       refreshed client stored (om_clientID m) t w)"
  using assms(3) unfolding OAuth_RefreshBearerToken_def
proof (cases rule: ebind_cases)
  case (failed e)
  then show ?thesis using keepsD [OF loadTokens_keeps(1) [OF assms(2)]] by blast
next
  case (continued r w1)
  note w1 = keepsD [OF loadTokens_keeps(1) [OF assms(2)] continued(1)]
  show ?thesis
  proof (cases r)
    case None
    then show ?thesis using continued(2) w1 by auto
  next
    case (Some current)
    obtain old where old: "stored w = Some old" "UnmarshalTokens old = Inr current" and pol: "policy_ok current"
      using loadTokens_Inr(1) [OF assms(2)] continued(1) Some by blast
    let ?vs = "[(''refresh_token'', tk_refresh current), (''grant_type'', ''refresh_token''), (''client_id'', om_clientID m)]"
    let ?up = "\<lambda>updated. if tk_refresh updated = [] then updated\<lparr>tk_refresh := tk_refresh current\<rparr> else updated"
    have "ebind (tokenRequest m ?vs) (\<lambda>updated. ebind (saveTokens m (?up updated)) (\<lambda>_. ok (tk_access (?up updated)))) w1 = (res, w')"
      using continued(2) Some pol by (simp add: policy_ok_def Let_def)
    then show ?thesis
    proof (cases rule: ebind_cases)
      case (failed e)
      then show ?thesis using keepsD [OF tokenRequest_keeps [OF assms(1) client_keeps ambient]] w1 by metis
    next
      case (continued t w2)
      note w2 = keepsD [OF tokenRequest_keeps [OF assms(1) client_keeps ambient] continued(1)]
      obtain s w3 where s: "saveTokens m (?up t) w2 = (s, w3)" by fastforce
      have p: "policy_ok (?up t)" "tk_type (?up t) = ''Bearer''"
        using tokenRequest_Inr(1) [OF continued(1) assms(1)] pol by (auto simp: policy_ok_def hasExactlyRequiredScopes_mset)
      obtain resp wr where "client (form_request XTokenEndpoint ?vs) w1 = (Inr resp, wr)" "token_grant resp t"
        using tokenRequest_Inr(2) [OF continued(1) assms(1)] by blast
      moreover from this have "token_grant resp (?up t)" by (simp add: token_grant_def)
      ultimately have up: "refreshed client stored (om_clientID m) (?up t) w" unfolding refreshed_def using old pol by blast
      from saveTokens_outcome [OF assms(2) s] show ?thesis
      proof (elim disjE exE conjE)
        fix e assume "s = Inl e" "stored w3 = stored w2"
        then show ?thesis using continued(2) s w1 w2 by auto
      next
        fix data assume "MarshalTokens (?up t) = Inr data" "s = Inr ()" "stored w3 = Some data"
        then show ?thesis using continued(2) s p up by (intro disjI2 exI [of _ "?up t"] exI [of _ data]) auto
      qed
    qed
  qed
qed

lemma Bearer_outcome:
  assumes "om_client m = client" and "om_vault m = vault" and "OAuth_BearerToken m w = (Inr tok, w')"
  shows "(\<exists>t data. tok = tk_access t \<and> policy_ok t \<and> stored w = Some data \<and> UnmarshalTokens data = Inr t \<and>
       tk_expires_at t > clock w' (ticks w' - 1) + 30 * Second \<and> stored w' = stored w) \<or>
    (\<exists>t data. tok = tk_access t \<and> policy_ok t \<and> MarshalTokens t = Inr data \<and> stored w' = Some data \<and> refreshed client stored (om_clientID m) t w)"
proof -
  obtain r w1 where l: "loadTokens m w = (Inr r, w1)" and
      c: "(case r of None \<Rightarrow> fail (ErrorsNew ''X OAuth connection is not configured'')
         | Some tokens \<Rightarrow> ebind now (\<lambda>nw. if tk_expires_at tokens > nw + 30 * Second then ok (tk_access tokens)
             else OAuth_RefreshBearerToken m)) w1 = (Inr tok, w')"
    using assms(3) by (auto simp: OAuth_BearerToken_def ebind_eq_Inr)
  then obtain t where t: "r = Some t" by (cases r) auto
  note w1 = keepsD [OF loadTokens_keeps(1) [OF assms(2)] l]
  obtain data where d: "stored w = Some data" "UnmarshalTokens data = Inr t" "policy_ok t"
    using loadTokens_Inr(1) [OF assms(2)] l t by blast
  show ?thesis
  proof (cases "tk_expires_at t > clock w1 (ticks w1) + 30 * Second")
    case True
    then show ?thesis using c t d w1 by auto
  next
    case False
    then have "OAuth_RefreshBearerToken m (w1\<lparr>ticks := Suc (ticks w1)\<rparr>) = (Inr tok, w')" using c t by simp
    moreover have "refreshed client stored k u w1 = refreshed client stored k u w" for k u using w1 by (simp add: refreshed_def)
    ultimately show ?thesis using Refresh_outcome [OF assms(1,2), of "w1\<lparr>ticks := Suc (ticks w1)\<rparr>" "Inr tok" w'] by auto
  qed
qed

lemma Revoke_outcome:
  assumes "om_client m = client" and "om_vault m = vault" and "Revoke m w = (res, w')"
  shows "(\<exists>e. res = Inl e \<and> stored w' = stored w) \<or>
    res = Inr () \<and> stored w' = None \<and>
      (stored w = None \<or>
       (\<exists>t w1 resp w2. loadTokens m w = (Inr (Some t), w1) \<and> 200 \<le> rs_status resp \<and> rs_status resp < 300 \<and>
          client (form_request XRevokeEndpoint [(''token'', tk_refresh t), (''client_id'', om_clientID m)]) w1 = (Inr resp, w2)))"
  using assms(3) unfolding Revoke_def
proof (cases rule: ebind_cases)
  case (failed e)
  then show ?thesis using keepsD [OF loadTokens_keeps(1) [OF assms(2)]] by blast
next
  case (continued r w1)
  note w1 = keepsD [OF loadTokens_keeps(1) [OF assms(2)] continued(1)]
  show ?thesis
  proof (cases r)
    case None
    then show ?thesis using continued w1 loadTokens_Inr(2) [OF assms(2)] by auto
  next
    case (Some t)
    have rt: "tk_refresh t \<noteq> []" using loadTokens_Inr(1) [OF assms(2)] continued(1) Some by (auto simp: policy_ok_def)
    let ?req = "form_request XRevokeEndpoint [(''token'', tk_refresh t), (''client_id'', om_clientID m)]"
    obtain a w2 where a: "client ?req w1 = (a, w2)" by fastforce
    note w2 = keepsD [OF client_keeps a]
    obtain d w3 where d: "vault_Delete vault w2 = (d, w3)" by fastforce
    have "(\<exists>e. res = Inl e \<and> w' = w2) \<or>
        (\<exists>resp. a = Inr resp \<and> 200 \<le> rs_status resp \<and> rs_status resp < 300) \<and> res = d \<and> w' = w3"
      using continued(2) Some a d rt assms(1,2)
      by (cases a) (auto simp: wrap_err_def ebind_def Let_def split: sum.splits if_splits)
    then show ?thesis
      using delete [of w2 _ w3] delete_fails [of w2 _ w3] d w1 w2 a continued(1) Some by (cases d) auto
  qed
qed

lemma keeps_states_save:
  assumes "om_vault m = vault"
  shows "keeps states (saveTokens m t)"
  unfolding saveTokens_def assms by (auto intro!: keeps_ebind keeps_states keeps_now)

lemma keeps_states_refresh:
  assumes "om_client m = client" and "om_vault m = vault"
  shows "keeps states (OAuth_RefreshBearerToken m)"
  unfolding OAuth_RefreshBearerToken_def Let_def
  by (auto intro!: keeps_ebind loadTokens_keeps(2) [OF assms(2)] tokenRequest_keeps [OF assms(1)] keeps_states(4) keeps_states_save [OF assms(2)]
      split: option.split)

lemma keeps_states_bearer:
  assumes "om_client m = client" and "om_vault m = vault"
  shows "keeps states (OAuth_BearerToken m)"
  unfolding OAuth_BearerToken_def
  by (auto intro!: keeps_ebind loadTokens_keeps(2) [OF assms(2)] keeps_now keeps_states_refresh [OF assms] split: option.split)

lemma keeps_states_revoke:
  assumes "om_client m = client" and "om_vault m = vault"
  shows "keeps states (Revoke m)"
  unfolding Revoke_def Let_def assms
  by (auto intro!: keeps_ebind keeps_wrap_err loadTokens_keeps(2) [OF assms(2)] keeps_states split: option.split)

lemma keeps_states_connected: "om_vault m = vault \<Longrightarrow> states (snd (Connected m w)) = states w"
  using keeps_snd [OF loadTokens_keeps(2), of m w] by (auto simp: Connected_def ebind_attempt split: prod.splits sum.splits)

lemma Exchange_states:
  assumes "om_client m = client" and "om_vault m = vault" and "Exchange m st b code w = (res, w')"
  shows "states w' = states (snd (consumeState st b w))"
proof -
  have k: "keeps states (tokenRequest m vs)" "keeps states (saveTokens m t)" for vs t
    using tokenRequest_keeps [OF assms(1) keeps_states(4)] keeps_states_save [OF assms(2)] by auto
  obtain r w1 where c: "consumeState st b w = (r, w1)" by fastforce
  show ?thesis
  proof (cases r)
    case (Inl e)
    then show ?thesis using assms(3) c by (simp add: Exchange_def)
  next
    case (Inr v)
    have "keeps states (ebind (ensure (\<not> (TrimSpace code = [] \<or> length code > 4096 \<or> ContainsAny code [CR, LF]))
              (ErrorsNew ''X OAuth authorization code is invalid'')) (\<lambda>_.
       ebind (tokenRequest m [(''code'', code), (''grant_type'', ''authorization_code''), (''client_id'', om_clientID m),
                            (''redirect_uri'', om_redirectURI m), (''code_verifier'', v)]) (\<lambda>tokens.
       ebind (ensure (tk_refresh tokens \<noteq> []) (ErrorsNew ''X OAuth did not return the offline refresh token'')) (\<lambda>_.
       saveTokens m tokens))))"
      by (intro keeps_ebind keeps_ensure k)
    then show ?thesis using assms(3) c Inr by (auto simp: Exchange_def dest: keepsD)
  qed
qed

lemma run_oauth_states:
  assumes "om_client m = client" and "om_vault m = vault" and "\<And>b. op = OBegin b \<Longrightarrow> key \<noteq> sha256 (take 32 (entropy w))"
  shows "states (run_oauth m op w) key = states w key \<or> states (run_oauth m op w) key = None"
proof (cases op)
  case (OBegin b)
  then show ?thesis using assms(3) Begin_states [of m b w "fst (Begin m b w)" "snd (Begin m b w)" key] by simp
next
  case (OExchange st b code)
  have "states (run_oauth m op w) = states (snd (consumeState st b w))"
    using Exchange_states [OF assms(1,2) surjective_pairing] OExchange by simp
  then show ?thesis
    using consumeState_states [of st b w "fst (consumeState st b w)" "snd (consumeState st b w)"] by (auto split: if_splits)
qed (use keeps_snd [OF keeps_states_bearer [OF assms(1,2)]] keeps_snd [OF keeps_states_refresh [OF assms(1,2)]]
    keeps_snd [OF keeps_states_revoke [OF assms(1,2)]] keeps_states_connected [OF assms(2)] in simp_all)

lemma run_oauths_states:
  "om_client m = client \<Longrightarrow> om_vault m = vault \<Longrightarrow> not_reissued m key ops w \<Longrightarrow>
   states (run_oauths m ops w) key = states w key \<or> states (run_oauths m ops w) key = None"
proof (induction ops arbitrary: w)
  case (Cons op ops)
  then show ?case using run_oauth_states [OF Cons.prems(1,2), of op key w] by fastforce
qed simp

end

section \<open>The SQLite store is such a vault\<close>

definition oauth_client :: "(http_request \<Rightarrow> 'z oauth_world_scheme \<Rightarrow> post_answer) \<Rightarrow> 'z oauth_world_scheme round_tripper" where
  "oauth_client answer req w = (answer req w, w)"

definition sqlite_tokens :: "SQLite \<Rightarrow> 'z sqlite_world_scheme \<Rightarrow> bytes option" where
  "sqlite_tokens s = sealed_value s t_x_oauth ''x:oauth-tokens:v1''"

lemma store_free_states: "store_free (states :: 'z oauth_world_scheme \<Rightarrow> _)"
  by (simp add: store_free_def ambient_free_def)

lemma SaveXOAuthTokens_tokens:
  "SaveXOAuthTokens s data t w = (Inr u, w') \<Longrightarrow> sqlite_tokens s w' = Some data"
  "SaveXOAuthTokens s data t w = (Inl err, w') \<Longrightarrow> sqlite_tokens s w' = sqlite_tokens s w"
proof -
  assume "SaveXOAuthTokens s data t w = (Inr u, w')"
  from save_sealed_value [OF this [unfolded SaveXOAuthTokens_def], of t_x_oauth "millis t"]
  show "sqlite_tokens s w' = Some data" by (simp add: sqlite_tokens_def)
next
  assume "SaveXOAuthTokens s data t w = (Inl err, w')"
  from save_sealed_failed [OF this [unfolded SaveXOAuthTokens_def]]
  show "sqlite_tokens s w' = sqlite_tokens s w" by (simp add: sqlite_tokens_def sealed_value_def)
qed

lemma LoadXOAuthTokens_tokens: "LoadXOAuthTokens s w = (Inr r, w') \<Longrightarrow> r = sqlite_tokens s w"
  unfolding LoadXOAuthTokens_def sqlite_tokens_def by (rule load_sealed_value)

interpretation sqlite_vault: token_vault "SQLite_Vault s" "oauth_client answer" "sqlite_tokens s" for s answer
proof (unfold_locales, simp_all add: SQLite_Vault_def SaveXOAuthTokens_tokens LoadXOAuthTokens_tokens)
  show "ambient_free (sqlite_tokens s)" by (simp add: ambient_free_def sqlite_tokens_def sealed_value_def)
  show "sqlite_tokens s (w\<lparr>states := x\<rparr>) = sqlite_tokens s w" for w :: "'a oauth_world_scheme" and x
    by (simp add: sqlite_tokens_def sealed_value_def)
  show "keeps (sqlite_tokens s) (LoadXOAuthTokens s)"
    unfolding sqlite_tokens_def by (intro sealed_value_of_db) (simp add: keeps_def)
  show "sqlite_tokens s w' = None" if "DeleteXOAuthTokens w = (Inr (), w')" for w w' :: "'a oauth_world_scheme"
    using exec_put [OF that [unfolded DeleteXOAuthTokens_def]] by (simp add: sqlite_tokens_def sealed_value_def split: option.splits)
  show "sqlite_tokens s w' = sqlite_tokens s w" if "DeleteXOAuthTokens w = (Inl err, w')" for w w' :: "'a oauth_world_scheme" and err
    using exec_Inl [OF that [unfolded DeleteXOAuthTokens_def]] by (simp add: sqlite_tokens_def sealed_value_def)
  show "keeps (sqlite_tokens s) (oauth_client answer req)" "keeps states (oauth_client answer req)" for req
    by (simp_all add: keeps_def oauth_client_def)
  show "keeps (states :: 'a oauth_world_scheme \<Rightarrow> _) (SaveXOAuthTokens s data t)" for data t
    unfolding SaveXOAuthTokens_def by (rule keeps_sealed(1) [OF store_free_states])
  show "keeps (states :: 'a oauth_world_scheme \<Rightarrow> _) (LoadXOAuthTokens s)"
    unfolding LoadXOAuthTokens_def by (rule keeps_sealed(2) [OF store_free_states])
  show "keeps (states :: 'a oauth_world_scheme \<Rightarrow> _) DeleteXOAuthTokens"
    unfolding DeleteXOAuthTokens_def by (rule keeps_store_free [OF store_free_states])
qed

section \<open>Properties\<close>

lemma Exchange_Inr_state:
  assumes "Exchange m st b code w = (Inr u, w')" and "RawURL_Decode st = Some raw"
  shows "\<exists>p. states w (sha256 raw) = Some p \<and> os_expires_at p > clock w (ticks w) \<and> os_binding_hash p = sha256 b"
  using assms consumeState_Inr [of st b w] by (fastforce simp: Exchange_def ebind_eq_Inr)

lemma Exchange_unknown:
  assumes "RawURL_Decode st = Some raw" and "states w (sha256 raw) = None"
  shows "\<exists>e. fst (Exchange m st b code w) = Inl e"
  using consumeState_unknown [OF assms, of b] by (auto simp: Exchange_def)

text \<open>
  C26: an authorization state works once, for the session it was issued to, for five minutes. After
  \<open>Begin\<close> issued a state, and after any other calls, an exchange with it succeeds only under a binding
  with the same hash and before the five minutes are over; and after any exchange attempt with it,
  successful or not, every later exchange with it fails.
\<close>

theorem oauth_state_once:
  assumes "om_vault m = SQLite_Vault s" and "om_client m = oauth_client answer"
    and "Begin m b w = (Inr url, w1)"
    and "not_reissued m (sha256 (take 32 (entropy w))) ops w1"
    and "Exchange m (b64_encode_raw (take 32 (entropy w))) b2 code (run_oauths m ops w1) = (res, w2)"
  shows "(res = Inr () \<longrightarrow> sha256 b2 = sha256 b \<and>
      clock (run_oauths m ops w1) (ticks (run_oauths m ops w1)) < clock w (ticks w) + 5 * Minute) \<and>
    (b2 \<noteq> [] \<and> not_reissued m (sha256 (take 32 (entropy w))) ops2 w2 \<longrightarrow>
      (\<exists>e. fst (Exchange m (b64_encode_raw (take 32 (entropy w))) b3 code3 (run_oauths m ops2 w2)) = Inl e))"
proof -
  let ?raw = "take 32 (entropy w)" and ?w = "run_oauths m ops w1"
  have dec: "RawURL_Decode (b64_encode_raw ?raw) = Some ?raw" by (simp add: RawURL_roundtrip)
  note b = Begin_Inr [OF assms(3)]
  have now_or_none: "states ?w (sha256 ?raw) = states w1 (sha256 ?raw) \<or> states ?w (sha256 ?raw) = None"
    by (rule sqlite_vault.run_oauths_states [OF assms(2,1,4)])
  have "sha256 b2 = sha256 b \<and> clock ?w (ticks ?w) < clock w (ticks w) + 5 * Minute" if "res = Inr ()"
    using Exchange_Inr_state [of m _ b2 code ?w "()" w2, OF _ dec] assms(5) that now_or_none b by auto
  moreover have "\<exists>e. fst (Exchange m (b64_encode_raw ?raw) b3 code3 (run_oauths m ops2 w2)) = Inl e"
    if "b2 \<noteq> []" "not_reissued m (sha256 ?raw) ops2 w2"
  proof (rule Exchange_unknown [OF dec])
    have "length ?raw = 32" using b by simp
    then have "states w2 (sha256 ?raw) = None"
      using sqlite_vault.Exchange_states [OF assms(2,1,5)]
        consumeState_removes [OF surjective_pairing [of "consumeState (b64_encode_raw ?raw) b2 ?w"] dec _ that(1)] by simp
    then show "states (run_oauths m ops2 w2) (sha256 ?raw) = None"
      using sqlite_vault.run_oauths_states [OF assms(2,1) that(2)] by simp
  qed
  ultimately show ?thesis by blast
qed


section \<open>Witnesses\<close>

definition sample_oauth_world :: oauth_world where
  "sample_oauth_world = \<lparr>entropy = replicate 512 CHR 0x07, clock = (\<lambda>_. y2000), ticks = 0, db = empty_db, faults = [], states = (\<lambda>_. None)\<rparr>"

definition sample_manager :: "oauth_world XOAuthManager" where
  "sample_manager = \<lparr>om_clientID = ''client'', om_redirectURI = ''https://app.example/cb'',
     om_client = oauth_client (\<lambda>_ _. Inl (ErrorsNew ''offline'')),
     om_vault = SQLite_Vault \<lparr>sealer = Some \<lparr>master = replicate 32 CHR 0x01\<rparr>\<rparr>\<rparr>"

lemma sample_manager_parts:
  "om_vault sample_manager = SQLite_Vault \<lparr>sealer = Some \<lparr>master = replicate 32 CHR 0x01\<rparr>\<rparr>"
  "om_client sample_manager = oauth_client (\<lambda>_ _. Inl (ErrorsNew ''offline''))"
  by (simp_all add: sample_manager_def)

lemma sample_begin: "\<exists>url w1. Begin sample_manager ''session'' sample_oauth_world = (Inr url, w1)"
  by (simp add: Begin_def randomOAuthValue_def sample_oauth_world_def RawURL_roundtrip add_state_def)

theorem oauth_state_once_witness:
  "\<exists>url w1 res w2 e. Begin sample_manager ''session'' sample_oauth_world = (Inr url, w1) \<and>
     Exchange sample_manager (b64_encode_raw (take 32 (entropy sample_oauth_world))) ''other'' ''code'' w1 = (res, w2) \<and>
     fst (Exchange sample_manager (b64_encode_raw (take 32 (entropy sample_oauth_world))) ''session'' ''code'' w2) = Inl e"
proof -
  obtain url w1 where b: "Begin sample_manager ''session'' sample_oauth_world = (Inr url, w1)" using sample_begin by blast
  obtain res w2 where x: "Exchange sample_manager (b64_encode_raw (take 32 (entropy sample_oauth_world))) ''other'' ''code'' w1 = (res, w2)"
    by fastforce
  from oauth_state_once [OF sample_manager_parts b, of "[]" "''other''" "''code''" res w2 "[]" "''session''" "''code''"]
  show ?thesis using b x by auto
qed






end
