(* ===== verification/Go_HTTP.thy ===== *)
theory Go_HTTP
  imports Go_Decode Go_URL
begin

text \<open>
  What the handlers see of \<open>net/http\<close>: a request after the server has parsed its start line, headers
  and cookies, with the form parsing that \<open>ParseForm\<close> and \<open>FormValue\<close> do lazily and once, and the
  reply a handler writes. A handler is a state transformer that returns the reply.
\<close>

section \<open>Requests and forms\<close>

text \<open>
  The body of a request as the form parser sees it: no form (a malformed content type is an error), a
  URL-encoded body of the given size with the pairs that decode and the error of the first pair that
  does not, or a multipart body with its values (none when it cannot be read).
\<close>

datatype post_body =
    NoForm "go_error option"
  | UrlEncoded nat "(string \<times> string) list" "go_error option"
  | Multipart "(string \<times> string) list option"

text \<open>
  \<open>sq_path\<close> is the cleaned URL path by segments, an empty last one for a trailing slash; \<open>sq_header\<close>
  is \<open>Header.Get\<close>; \<open>sq_limit\<close> is the limit of \<open>MaxBytesReader\<close> once installed; \<open>sq_form\<close> is
  \<open>r.Form\<close>, absent until it has been parsed.
\<close>

record server_request =
  sq_method :: string
  sq_path :: "string list"
  sq_query :: "(string \<times> string) list"
  sq_query_err :: "go_error option"
  sq_header :: "string \<Rightarrow> string"
  sq_cookies :: "(string \<times> string) list"
  sq_post :: post_body
  sq_limit :: "nat option"
  sq_form :: "(string \<times> string) list option"

text \<open>The first value of a key, or the empty string (\<open>Values.Get\<close>).\<close>

definition Values_Get :: "(string \<times> string) list \<Rightarrow> string \<Rightarrow> string" where
  "Values_Get vs key = (case map_of vs key of None \<Rightarrow> [] | Some v \<Rightarrow> v)"

definition Cookie :: "server_request \<Rightarrow> string \<Rightarrow> string option" where
  "Cookie r name = map_of (sq_cookies r) name"

definition maxFormSize :: nat where "maxFormSize = 10485760"

text \<open>\<open>parsePostForm\<close>: without a \<open>MaxBytesReader\<close> the body may have 10 MiB.\<close>

definition parsePostForm :: "server_request \<Rightarrow> (string \<times> string) list \<times> go_error option" where
  "parsePostForm r =
     (if sq_method r \<notin> {''POST'', ''PUT'', ''PATCH''} then ([], None)
      else case sq_post r of
        NoForm err \<Rightarrow> ([], err)
      | Multipart _ \<Rightarrow> ([], None)
      | UrlEncoded n vs err \<Rightarrow>
          (case sq_limit r of
             Some k \<Rightarrow> if n > k then ([], Some (ErrorsNew ''http: request body too large'')) else (vs, err)
           | None \<Rightarrow> if n > maxFormSize then ([], Some (ErrorsNew ''http: POST too large'')) else (vs, err)))"

text \<open>A second call finds the form parsed and reports no error, whatever the first one reported.\<close>

definition ParseForm :: "server_request \<Rightarrow> go_error option \<times> server_request" where
  "ParseForm r =
     (case sq_form r of
        Some _ \<Rightarrow> (None, r)
      | None \<Rightarrow>
          let (vs, err) = parsePostForm r
          in (case err of None \<Rightarrow> sq_query_err r | Some e \<Rightarrow> Some e, r\<lparr>sq_form := Some (vs @ sq_query r)\<rparr>))"

definition ParseMultipartForm :: "server_request \<Rightarrow> server_request" where
  "ParseMultipartForm r =
     (let r' = snd (ParseForm r)
      in case sq_post r of
           Multipart (Some vs) \<Rightarrow> r'\<lparr>sq_form := map_option (\<lambda>f. f @ vs) (sq_form r')\<rparr>
         | _ \<Rightarrow> r')"

definition FormValue :: "server_request \<Rightarrow> string \<Rightarrow> string \<times> server_request" where
  "FormValue r key =
     (let r' = (case sq_form r of Some _ \<Rightarrow> r | None \<Rightarrow> ParseMultipartForm r)
      in (Values_Get (case sq_form r' of None \<Rightarrow> [] | Some f \<Rightarrow> f) key, r'))"

section \<open>Replies\<close>

record cookie =
  ck_Name :: string
  ck_Value :: string
  ck_Path :: string
  ck_HttpOnly :: bool
  ck_Secure :: bool
  ck_SameSiteStrict :: bool
  ck_Expires :: "time option"
  ck_MaxAge :: int

text \<open>A reply body: text, a JSON document, or the data a page template is executed with.\<close>

datatype 'p reply_body = NoBody | Plain string | JSON_Body json | Page 'p

record 'p reply =
  rp_status :: nat
  rp_header :: "(string \<times> string) list"
  rp_cookies :: "cookie list"
  rp_body :: "'p reply_body"

type_synonym ('w, 'p) handler = "server_request \<Rightarrow> 'w \<Rightarrow> 'p reply \<times> 'w"

definition http_Error :: "string \<Rightarrow> nat \<Rightarrow> 'p reply" where
  "http_Error message code =
     \<lparr>rp_status = code,
      rp_header = [(''Content-Type'', ''text/plain; charset=utf-8''), (''X-Content-Type-Options'', ''nosniff'')],
      rp_cookies = [], rp_body = Plain (message @ [LF])\<rparr>"

definition StatusText :: "nat \<Rightarrow> string" where
  "StatusText code =
     (if code = 303 then ''See Other'' else if code = 307 then ''Temporary Redirect'' else if code = 400 then ''Bad Request''
      else if code = 404 then ''Not Found'' else if code = 500 then ''Internal Server Error'' else [])"

definition html_byte :: "char \<Rightarrow> string" where
  "html_byte c =
     (if c = CHR ''&'' then ''&amp;'' else if c = CHR ''<'' then ''&lt;'' else if c = CHR ''>'' then ''&gt;''
      else if c = CHR 0x22 then ''&#34;'' else if c = CHR 0x27 then ''&#39;'' else [c])"

text \<open>
  \<open>http.Redirect\<close> to a clean absolute path or an absolute URL of ASCII characters, where no content type is set before:
  a GET or HEAD gets the type of a short page, and a GET the page.
\<close>

definition http_Redirect :: "server_request \<Rightarrow> string \<Rightarrow> nat \<Rightarrow> 'p reply" where
  "http_Redirect r url code =
     \<lparr>rp_status = code,
      rp_header = (''Location'', url) #
        (if sq_method r = ''GET'' \<or> sq_method r = ''HEAD'' then [(''Content-Type'', ''text/html; charset=utf-8'')] else []),
      rp_cookies = [],
      rp_body = (if sq_method r = ''GET''
                 then Plain (''<a href='' @ [CHR 0x22] @ concat (map html_byte url) @ [CHR 0x22] @ ''>'' @ StatusText code @ ''</a>.'' @ [LF, LF])
                 else NoBody)\<rparr>"

definition no_content :: "'p reply" where
  "no_content = \<lparr>rp_status = 204, rp_header = [], rp_cookies = [], rp_body = NoBody\<rparr>"

definition json_reply :: "json \<Rightarrow> 'p reply" where
  "json_reply j =
     \<lparr>rp_status = 200, rp_header = [(''Content-Type'', ''application/json''), (''Cache-Control'', ''no-store'')],
      rp_cookies = [], rp_body = JSON_Body j\<rparr>"

definition with_cookie :: "cookie \<Rightarrow> 'p reply \<Rightarrow> 'p reply" where
  "with_cookie c p = p\<lparr>rp_cookies := c # rp_cookies p\<rparr>"

section \<open>Sequencing of handlers\<close>

definition respond :: "'p reply \<Rightarrow> 'w \<Rightarrow> 'p reply \<times> 'w" where
  "respond p w = (p, w)"

text \<open>\<open>x := f()\<close> for a call that changes the state and does not fail.\<close>

definition sbind :: "('w \<Rightarrow> 'a \<times> 'w) \<Rightarrow> ('a \<Rightarrow> 'w \<Rightarrow> 'b \<times> 'w) \<Rightarrow> 'w \<Rightarrow> 'b \<times> 'w" where
  "sbind m f w = (case m w of (x, w') \<Rightarrow> f x w')"

text \<open>\<open>x, err := f(); if err != nil { ...; return }\<close>.\<close>

definition on_error :: "('w, 'a) act \<Rightarrow> (go_error \<Rightarrow> 'w \<Rightarrow> 'b \<times> 'w) \<Rightarrow> ('a \<Rightarrow> 'w \<Rightarrow> 'b \<times> 'w) \<Rightarrow> 'w \<Rightarrow> 'b \<times> 'w" where
  "on_error m h f w = (case m w of (Inl e, w') \<Rightarrow> h e w' | (Inr x, w') \<Rightarrow> f x w')"

text \<open>The frame of a handler: what it keeps of the state.\<close>

definition leaves :: "('w \<Rightarrow> 'v) \<Rightarrow> ('w \<Rightarrow> 'a \<times> 'w) \<Rightarrow> bool" where
  "leaves g h \<longleftrightarrow> (\<forall>w. g (snd (h w)) = g w)"

lemma respond_simp [simp]: "respond p w = (p, w)"
  by (simp add: respond_def)

lemma leaves_respond [intro!, simp]: "leaves g (respond p)"
  by (simp add: leaves_def)

lemma leaves_Pair [intro!, simp]: "leaves g (Pair x)"
  by (simp add: leaves_def)

lemma leaves_snd: "leaves g h \<Longrightarrow> g (snd (h w)) = g w"
  by (simp add: leaves_def)

lemma leavesD: "leaves g h \<Longrightarrow> h w = (x, w') \<Longrightarrow> g w' = g w"
  by (metis leaves_snd snd_conv)

lemma leaves_keeps: "keeps g m \<longleftrightarrow> leaves g m"
  by (simp add: keeps_def leaves_def)

lemma keeps_update: "(\<And>w. g (u w) = g w) \<Longrightarrow> keeps g (\<lambda>w. (c w, u w))"
  by (simp add: keeps_def)

lemma leaves_sbind [intro]: "leaves g m \<Longrightarrow> (\<And>x. leaves g (f x)) \<Longrightarrow> leaves g (sbind m f)"
  by (auto simp: leaves_def sbind_def split: prod.splits) (metis snd_conv)

lemma leaves_on_error [intro]:
  "keeps g m \<Longrightarrow> (\<And>e. leaves g (h e)) \<Longrightarrow> (\<And>x. leaves g (f x)) \<Longrightarrow> leaves g (on_error m h f)"
  by (auto simp: leaves_def keeps_def on_error_def split: prod.splits sum.splits) (metis snd_conv)+

lemma leaves_if [intro]: "leaves g m \<Longrightarrow> leaves g n \<Longrightarrow> leaves g (if b then m else n)"
  by simp

lemma on_error_Inl [simp]: "m w = (Inl e, w') \<Longrightarrow> on_error m h f w = h e w'"
  by (simp add: on_error_def)

lemma on_error_Inr [simp]: "m w = (Inr x, w') \<Longrightarrow> on_error m h f w = f x w'"
  by (simp add: on_error_def)

lemma sbind_simp [simp]: "m w = (x, w') \<Longrightarrow> sbind m f w = f x w'"
  by (simp add: sbind_def)

text \<open>A step of which every run stays within a preorder on states, and the sequences of such steps.\<close>

definition moves :: "('w \<Rightarrow> 'w \<Rightarrow> bool) \<Rightarrow> ('w \<Rightarrow> 'a \<times> 'w) \<Rightarrow> bool" where
  "moves R h \<longleftrightarrow> (\<forall>w. R w (snd (h w)))"

lemma movesD: "moves R h \<Longrightarrow> h w = (x, w') \<Longrightarrow> R w w'"
  by (metis moves_def snd_conv)

lemma moves_sbind:
  assumes "transp R" and "moves R m" and "\<And>x. moves R (f x)"
  shows "moves R (sbind m f)"
  unfolding moves_def
proof
  fix w
  obtain x w1 where m: "m w = (x, w1)" by fastforce
  have "R w1 (snd (f x w1))" using assms(3) by (simp add: moves_def)
  then show "R w (snd (sbind m f w))" using transpD [OF assms(1) movesD [OF assms(2) m]] m by simp
qed

lemma moves_ebind:
  assumes "transp R" and "moves R m" and "\<And>x. moves R (f x)"
  shows "moves R (ebind m f)"
  unfolding moves_def
proof
  fix w
  obtain r w1 where m: "m w = (r, w1)" by fastforce
  have one: "R w w1" by (rule movesD [OF assms(2) m])
  show "R w (snd (ebind m f w))"
  proof (cases r)
    case (Inl e)
    then show ?thesis using one m by simp
  next
    case (Inr x)
    have "R w1 (snd (f x w1))" using assms(3) by (simp add: moves_def)
    then show ?thesis using transpD [OF assms(1) one] m Inr by simp
  qed
qed

lemma moves_on_error:
  assumes "transp R" and "moves R m" and "\<And>e. moves R (h e)" and "\<And>x. moves R (f x)"
  shows "moves R (on_error m h f)"
  unfolding moves_def
proof
  fix w
  obtain r w1 where m: "m w = (r, w1)" by fastforce
  note one = transpD [OF assms(1) movesD [OF assms(2) m]]
  show "R w (snd (on_error m h f w))"
  proof (cases r)
    case (Inl e)
    have "R w1 (snd (h e w1))" using assms(3) by (simp add: moves_def)
    then show ?thesis using one m Inl by simp
  next
    case (Inr x)
    have "R w1 (snd (f x w1))" using assms(4) by (simp add: moves_def)
    then show ?thesis using one m Inr by simp
  qed
qed

lemma moves_return:
  assumes "reflp R"
  shows "moves R (respond p)" "moves R (Pair x)" "moves R (ok y)" "moves R (fail e)" "moves R (lift v)" "moves R (ensure b err)"
  using assms by (simp_all add: moves_def reflp_def)

lemma moves_case:
  "(\<And>e. moves R (h e)) \<Longrightarrow> (\<And>x. moves R (f x)) \<Longrightarrow> moves R (\<lambda>w. case g w of Inl e \<Rightarrow> h e w | Inr x \<Rightarrow> f x w)"
  by (simp add: moves_def split: sum.split)

lemma moves_at: "(\<And>b. moves R (F b)) \<Longrightarrow> moves R (\<lambda>w. F (g w) w)"
  by (simp add: moves_def)

lemma moves_ite: "moves R f \<Longrightarrow> moves R g \<Longrightarrow> moves R (\<lambda>w. if b w then f w else g w)"
  by (simp add: moves_def)

lemma moves_if: "moves R f \<Longrightarrow> moves R g \<Longrightarrow> moves R (if b then f else g)"
  by simp

lemma moves_wrap_err: "moves R m \<Longrightarrow> moves R (wrap_err f m)"
  by (simp add: moves_def)

lemma FormValue_parsed: "sq_form (snd (FormValue r key)) \<noteq> None"
  by (auto simp: FormValue_def ParseMultipartForm_def ParseForm_def Let_def split: option.splits post_body.splits prod.splits)

end
