(* ===== verification/Auth.thy ===== *)
theory Auth
  imports Platform_XOAuth Go_HTTP
begin

text \<open>
  Package \<open>internal/auth\<close>, \<open>passkeys.go\<close>: operator authentication with passkeys. The manager's
  configuration is a record; its state (the user's credentials, the sessions and ceremonies by the hash
  of their token, the recovery hash and the recent failures) extends the world, beside the states of
  the OAuth manager, so that both can be used by one server. The go-webauthn library is a
  parameter, a record of its four calls and of the JSON of its credentials; a call may depend on the
  world (its clock and random source) and does not change the manager. Each handler runs as one step here; \<open>Auth_Concurrency\<close> interleaves
  the sections of the recovery handlers.
\<close>

section \<open>Types\<close>

record 'w StateStore =
  ss_LoadAuthState :: "('w, (bytes \<times> bytes) option) act"
  ss_SaveAuthState :: "bytes \<Rightarrow> bytes \<Rightarrow> time \<Rightarrow> ('w, unit) act"
  ss_LoadRecoveryHash :: "('w, bytes option) act"
  ss_SaveRecoveryHash :: "bytes \<Rightarrow> time \<Rightarrow> ('w, unit) act"

record AuthConfig =
  RPID :: string
  Origin :: string
  BootstrapToken :: string
  SessionTTL :: duration
  DevMode :: bool

record 'c user =
  user_ID :: bytes
  Credentials :: "'c list"

record session =
  se_Expires :: time
  se_CSRF :: string

record 's ceremony =
  ce_Kind :: string
  ce_Expires :: time
  ce_CSRF :: string
  ce_Session :: 's
  ce_Bootstrap :: bool

text \<open>The mutable fields of \<open>Manager\<close>, guarded by its mutex.\<close>

record ('c, 's) auth_world = oauth_world +
  mg_user :: "'c user"
  sessions :: "bytes \<Rightarrow> session option"
  ceremonies :: "bytes \<Rightarrow> 's ceremony option"
  recoveryHash :: bytes
  recoverySet :: bool
  recoveryFails :: "time list"

text \<open>
  The library: beginning a ceremony gives the options for the browser, as the outcome of
  \<open>json.Marshal\<close> on them (the members of an object), and the session data; finishing one gives the
  verified credential.
\<close>

record ('w, 'c, 's) WebAuthn =
  wa_BeginRegistration :: "'c user \<Rightarrow> 'w \<Rightarrow> go_error + (go_error + (string \<times> json) list) \<times> 's"
  wa_FinishRegistration :: "'c user \<Rightarrow> 's \<Rightarrow> server_request \<Rightarrow> 'w \<Rightarrow> go_error + 'c"
  wa_BeginLogin :: "'c user \<Rightarrow> 'w \<Rightarrow> go_error + (go_error + (string \<times> json) list) \<times> 's"
  wa_FinishLogin :: "'c user \<Rightarrow> 's \<Rightarrow> server_request \<Rightarrow> 'w \<Rightarrow> go_error + 'c"
  wa_CredentialID :: "'c \<Rightarrow> bytes"
  wa_MarshalCredentials :: "'c list \<Rightarrow> go_error + bytes"
  wa_UnmarshalCredentials :: "bytes \<Rightarrow> go_error + 'c list"

record ('w, 'c, 's) Manager =
  mg_wa :: "('w, 'c, 's) WebAuthn"
  mg_store :: "'w StateStore"
  bootstrapHash :: bytes
  secureCookies :: bool
  sessionTTL :: duration
  devMode :: bool
  devCSRF :: string

definition sessionCookie :: string where "sessionCookie = ''ivpn_session''"
definition ceremonyCookie :: string where "ceremonyCookie = ''ivpn_ceremony''"

section \<open>Tokens\<close>

definition randomToken :: "nat \<Rightarrow> ('z world_scheme, string) act" where
  "randomToken n = ebind (ReadFull n) (\<lambda>raw. ok (b64_encode_raw raw))"

definition randomTokenWithHash :: "nat \<Rightarrow> ('z world_scheme, bytes \<times> string) act" where
  "randomTokenWithHash n = ebind (ReadFull n) (\<lambda>raw. ok (sha256 raw, b64_encode_raw raw))"

section \<open>Construction\<close>

definition load :: "('c, 's, 'z) auth_world_scheme StateStore \<Rightarrow> (('c, 's, 'z) auth_world_scheme, 'c, 's) WebAuthn \<Rightarrow>
    (('c, 's, 'z) auth_world_scheme, unit) act" where
  "load st wa =
     ebind (ss_LoadAuthState st) (\<lambda>r.
     case r of
       None \<Rightarrow>
         ebind (ReadFull 32) (\<lambda>userID w. (Inr (), w\<lparr>mg_user := \<lparr>user_ID = userID, Credentials = []\<rparr>\<rparr>))
     | Some (userID, encoded) \<Rightarrow>
         ebind (wrap_err (\<lambda>err. Errorf ''decode passkey credentials: %w'' [] (Some err))
                  (lift (wa_UnmarshalCredentials wa encoded))) (\<lambda>credentials w.
         (Inr (), w\<lparr>mg_user := \<lparr>user_ID = userID, Credentials = credentials\<rparr>\<rparr>)))"

definition loadRecovery :: "('c, 's, 'z) auth_world_scheme StateStore \<Rightarrow> (('c, 's, 'z) auth_world_scheme, unit) act" where
  "loadRecovery st =
     ebind (ss_LoadRecoveryHash st) (\<lambda>r.
     case r of
       None \<Rightarrow> ok ()
     | Some hash \<Rightarrow>
         ebind (ensure (length hash = 32) (ErrorsNew ''stored recovery hash is invalid'')) (\<lambda>_ w.
         (Inr (), w\<lparr>recoveryHash := hash, recoverySet := True\<rparr>)))"

text \<open>The fields of a fresh \<open>Manager\<close>; the user is set by \<open>load\<close>.\<close>

definition fresh_manager :: "(('c, 's, 'z) auth_world_scheme, unit) act" where
  "fresh_manager w =
     (Inr (), w\<lparr>mg_user := \<lparr>user_ID = [], Credentials = []\<rparr>, sessions := (\<lambda>_. None), ceremonies := (\<lambda>_. None),
                recoveryHash := replicate 32 CHR 0x00, recoverySet := False, recoveryFails := []\<rparr>)"

definition New :: "(string \<Rightarrow> string \<Rightarrow> go_error + (('c, 's, 'z) auth_world_scheme, 'c, 's) WebAuthn) \<Rightarrow>
    ('c, 's, 'z) auth_world_scheme StateStore \<Rightarrow> AuthConfig \<Rightarrow>
    (('c, 's, 'z) auth_world_scheme, (('c, 's, 'z) auth_world_scheme, 'c, 's) Manager) act" where
  "New webauthn_New st cfg =
     (let ttl = (if SessionTTL cfg = 0 then 15 * Minute else SessionTTL cfg)
      in ebind (case URL_Parse (Origin cfg) of
                  None \<Rightarrow> fail (ErrorsNew ''WebAuthn origin must be an absolute URL'')
                | Some origin \<Rightarrow> ebind (ensure (Host origin \<noteq> []) (ErrorsNew ''WebAuthn origin must be an absolute URL'')) (\<lambda>_. ok origin)) (\<lambda>origin.
         ebind (ensure (DevMode cfg \<or> Scheme origin = ''https'') (ErrorsNew ''WebAuthn origin must use HTTPS outside development mode'')) (\<lambda>_.
         ebind (ensure (RPID cfg \<noteq> []) (ErrorsNew ''WebAuthn relying-party ID is required'')) (\<lambda>_.
         ebind (ensure (DevMode cfg \<or> length (BootstrapToken cfg) \<ge> 32) (ErrorsNew ''bootstrap token must contain at least 32 characters'')) (\<lambda>_.
         ebind (lift (webauthn_New (RPID cfg) (Origin cfg))) (\<lambda>wa.
         ebind fresh_manager (\<lambda>_.
         ebind (randomToken 24) (\<lambda>csrf.
         ebind (load st wa) (\<lambda>_.
         ebind (loadRecovery st) (\<lambda>_.
         ok \<lparr>mg_wa = wa, mg_store = st, bootstrapHash = sha256 (BootstrapToken cfg),
             secureCookies = (Scheme origin = ''https''), sessionTTL = ttl, devMode = DevMode cfg, devCSRF = csrf\<rparr>))))))))))"

section \<open>Readiness and sessions\<close>

definition CredentialCount :: "('c, 's, 'z) auth_world_scheme \<Rightarrow> nat" where
  "CredentialCount w = length (Credentials (mg_user w))"

definition HasPasskeys :: "('c, 's, 'z) auth_world_scheme \<Rightarrow> bool" where
  "HasPasskeys w \<longleftrightarrow> CredentialCount w > 0"

definition OperationallyReady :: "(('c, 's, 'z) auth_world_scheme, 'c, 's) Manager \<Rightarrow> ('c, 's, 'z) auth_world_scheme \<Rightarrow> bool" where
  "OperationallyReady m w \<longleftrightarrow> devMode m \<or> length (Credentials (mg_user w)) \<ge> 2 \<and> recoverySet w"

text \<open>The clock is read only when there is a session, as \<open>&&\<close> evaluates it.\<close>

definition sessionForRequest :: "server_request \<Rightarrow> ('c, 's, 'z) auth_world_scheme \<Rightarrow> session option \<times> ('c, 's, 'z) auth_world_scheme" where
  "sessionForRequest r w =
     (case Option.bind (Cookie r sessionCookie) RawURL_Decode of
        None \<Rightarrow> (None, w)
      | Some raw \<Rightarrow>
          (case sessions w (sha256 raw) of
             None \<Rightarrow> (None, w)
           | Some entry \<Rightarrow> (if clock w (ticks w) < se_Expires entry then Some entry else None, w\<lparr>ticks := Suc (ticks w)\<rparr>)))"

definition authenticated :: "server_request \<Rightarrow> ('c, 's, 'z) auth_world_scheme \<Rightarrow> bool \<times> ('c, 's, 'z) auth_world_scheme" where
  "authenticated r w = (let (s, w') = sessionForRequest r w in (s \<noteq> None, w'))"

definition CSRFToken :: "(('c, 's, 'z) auth_world_scheme, 'c, 's) Manager \<Rightarrow> server_request \<Rightarrow>
    ('c, 's, 'z) auth_world_scheme \<Rightarrow> string \<times> ('c, 's, 'z) auth_world_scheme" where
  "CSRFToken m r w =
     (if devMode m then (devCSRF m, w)
      else let (s, w') = sessionForRequest r w in (case s of None \<Rightarrow> [] | Some x \<Rightarrow> se_CSRF x, w'))"

text \<open>Reading the token from the form parses it, so the request changes too.\<close>

definition provided_csrf :: "server_request \<Rightarrow> string \<times> server_request" where
  "provided_csrf r =
     (let provided = sq_header r ''X-Csrf-Token''
      in if provided = [] then FormValue r ''csrf_token'' else (provided, r))"

definition ValidateCSRF :: "(('c, 's, 'z) auth_world_scheme, 'c, 's) Manager \<Rightarrow> server_request \<Rightarrow>
    ('c, 's, 'z) auth_world_scheme \<Rightarrow> (bool \<times> server_request) \<times> ('c, 's, 'z) auth_world_scheme" where
  "ValidateCSRF m r w =
     (let (expected, w') = CSRFToken m r w;
          (provided, r') = provided_csrf r
      in ((expected \<noteq> [] \<and> expected = provided, r'), w'))"

definition acceptsHTML :: "server_request \<Rightarrow> bool" where
  "acceptsHTML r \<longleftrightarrow> sq_header r ''Accept'' = [] \<or> sq_header r ''Accept'' = ''text/html'' \<or> sq_header r ''Sec-Fetch-Dest'' = ''document''"

definition Require :: "(('c, 's, 'z) auth_world_scheme, 'c, 's) Manager \<Rightarrow> (('c, 's, 'z) auth_world_scheme, 'p) handler \<Rightarrow>
    (('c, 's, 'z) auth_world_scheme, 'p) handler" where
  "Require m handler r =
     (if devMode m then handler r
      else sbind (authenticated r) (\<lambda>auth.
        if auth then handler r
        else if sq_method r = ''GET'' \<and> acceptsHTML r then respond (http_Redirect r ''/login'' 303)
        else respond (http_Error ''authentication required'' 401)))"

definition validBootstrap :: "(('c, 's, 'z) auth_world_scheme, 'c, 's) Manager \<Rightarrow> string \<Rightarrow> bool" where
  "validBootstrap m v \<longleftrightarrow> sha256 v = bootstrapHash m"

definition purgeLocked :: "time \<Rightarrow> ('c, 's, 'z) auth_world_scheme \<Rightarrow> ('c, 's, 'z) auth_world_scheme" where
  "purgeLocked nw w =
     w\<lparr>sessions := (\<lambda>k. case sessions w k of None \<Rightarrow> None | Some v \<Rightarrow> if nw > se_Expires v then None else Some v),
       ceremonies := (\<lambda>k. case ceremonies w k of None \<Rightarrow> None | Some v \<Rightarrow> if nw > ce_Expires v then None else Some v)\<rparr>"

text \<open>\<open>int(d.Seconds())\<close> truncates towards zero.\<close>

definition whole_seconds :: "duration \<Rightarrow> int" where
  "whole_seconds d = (if d \<ge> 0 then d div Second else - ((- d) div Second))"

definition session_cookie :: "(('c, 's, 'z) auth_world_scheme, 'c, 's) Manager \<Rightarrow> string \<Rightarrow> time option \<Rightarrow> int \<Rightarrow> cookie" where
  "session_cookie m v expires age =
     \<lparr>ck_Name = sessionCookie, ck_Value = v, ck_Path = ''/'', ck_HttpOnly = True, ck_Secure = secureCookies m,
      ck_SameSiteStrict = True, ck_Expires = expires, ck_MaxAge = age\<rparr>"

text \<open>The session is entered first, then expired entries are purged under a second clock reading.\<close>

definition add_session :: "bytes \<Rightarrow> session \<Rightarrow> (('c, 's, 'z) auth_world_scheme, unit) act" where
  "add_session hash s =
     ebind (\<lambda>w. (Inr (), w\<lparr>sessions := (sessions w)(hash \<mapsto> s)\<rparr>)) (\<lambda>_.
     ebind now (\<lambda>nw w. (Inr (), purgeLocked nw w)))"

definition issueSession :: "(('c, 's, 'z) auth_world_scheme, 'c, 's) Manager \<Rightarrow> (('c, 's, 'z) auth_world_scheme, cookie) act" where
  "issueSession m =
     ebind (randomTokenWithHash 32) (\<lambda>(hash, raw).
     ebind (randomToken 24) (\<lambda>csrf.
     ebind now (\<lambda>nw.
     let expires = nw + sessionTTL m
     in ebind (add_session hash \<lparr>se_Expires = expires, se_CSRF = csrf\<rparr>) (\<lambda>_.
        ok (session_cookie m raw (Some expires) (whole_seconds (sessionTTL m)))))))"

section \<open>Ceremonies\<close>

text \<open>
  The options pass through \<open>map[string]any\<close>, so the members of every object come out sorted; the
  numbers in them are small integers, which a \<open>float64\<close> keeps.
\<close>

fun sort_members :: "json \<Rightarrow> json" where
  "sort_members (JArr xs) = JArr (map sort_members xs)"
| "sort_members (JObj ms) = JObj (sort_key fst (map (\<lambda>(k, v). (k, sort_members v)) ms))"
| "sort_members j = j"

definition ceremony_payload :: "(string \<times> json) list \<Rightarrow> string \<Rightarrow> json" where
  "ceremony_payload options csrf =
     sort_members (JObj ((''csrfToken'', JStr csrf) # filter (\<lambda>(k, _). k \<noteq> ''csrfToken'') options))"

definition add_ceremony :: "bytes \<Rightarrow> (time \<Rightarrow> 's ceremony) \<Rightarrow> ('c, 's, 'z) auth_world_scheme \<Rightarrow> unit \<times> ('c, 's, 'z) auth_world_scheme" where
  "add_ceremony token entry w =
     (let w' = purgeLocked (clock w (ticks w)) w
      in ((), w'\<lparr>ceremonies := (ceremonies w')(token \<mapsto> entry (clock w (Suc (ticks w)))), ticks := Suc (Suc (ticks w))\<rparr>))"

definition ceremony_cookie :: "(('c, 's, 'z) auth_world_scheme, 'c, 's) Manager \<Rightarrow> string \<Rightarrow> cookie" where
  "ceremony_cookie m raw =
     \<lparr>ck_Name = ceremonyCookie, ck_Value = raw, ck_Path = ''/auth/'', ck_HttpOnly = True, ck_Secure = secureCookies m,
      ck_SameSiteStrict = True, ck_Expires = None, ck_MaxAge = 300\<rparr>"

definition beginCeremony :: "(('c, 's, 'z) auth_world_scheme, 'c, 's) Manager \<Rightarrow> string \<Rightarrow> 's \<Rightarrow> bool \<Rightarrow>
    go_error + (string \<times> json) list \<Rightarrow> ('c, 's, 'z) auth_world_scheme \<Rightarrow> 'p reply \<times> ('c, 's, 'z) auth_world_scheme" where
  "beginCeremony m kind data bootstrap options =
     on_error (randomTokenWithHash 32) (\<lambda>_. respond (http_Error ''entropy source unavailable'' 500)) (\<lambda>(token, raw).
     on_error (randomToken 24) (\<lambda>_. respond (http_Error ''entropy source unavailable'' 500)) (\<lambda>csrf.
     sbind (add_ceremony token (\<lambda>nw. \<lparr>ce_Kind = kind, ce_Expires = nw + 5 * Minute, ce_CSRF = csrf,
                                     ce_Session = data, ce_Bootstrap = bootstrap\<rparr>)) (\<lambda>_.
     respond (with_cookie (ceremony_cookie m raw)
       (case options of
          Inl _ \<Rightarrow> http_Error ''could not encode ceremony'' 500
        | Inr ms \<Rightarrow> json_reply (ceremony_payload ms csrf))))))"

text \<open>The entry is deleted before it is checked; the clock is read only for an entry of the right kind.\<close>

definition take_ceremony :: "bytes \<Rightarrow> ('c, 's, 'z) auth_world_scheme \<Rightarrow> 's ceremony option \<times> ('c, 's, 'z) auth_world_scheme" where
  "take_ceremony hash w = (ceremonies w hash, w\<lparr>ceremonies := (ceremonies w)(hash := None)\<rparr>)"

definition consumeCeremony :: "server_request \<Rightarrow> string \<Rightarrow> ('c, 's, 'z) auth_world_scheme \<Rightarrow>
    's ceremony option \<times> ('c, 's, 'z) auth_world_scheme" where
  "consumeCeremony r kind =
     (case Option.bind (Cookie r ceremonyCookie) RawURL_Decode of
        None \<Rightarrow> Pair None
      | Some raw \<Rightarrow>
          sbind (take_ceremony (sha256 raw)) (\<lambda>found.
          case found of
            None \<Rightarrow> Pair None
          | Some entry \<Rightarrow>
              if ce_Kind entry \<noteq> kind then Pair None
              else (\<lambda>w. (if clock w (ticks w) > ce_Expires entry \<or> ce_CSRF entry \<noteq> sq_header r ''X-Csrf-Token''
                         then None else Some entry, w\<lparr>ticks := Suc (ticks w)\<rparr>))))"

section \<open>Recovery\<close>

text \<open>
  A rotation saves the hash of a fresh code, and then puts it in force under the manager's mutex. Only the recovery
  handlers hold \<open>recoveryMu\<close> around both parts; \<open>registerFinish\<close> does not.
\<close>

definition rotate_save :: "(('c, 's, 'z) auth_world_scheme, 'c, 's) Manager \<Rightarrow> (('c, 's, 'z) auth_world_scheme, string) act" where
  "rotate_save m =
     ebind (randomToken 32) (\<lambda>raw.
     let code = ''ivpn-recovery-'' @ raw
     in ebind now (\<lambda>nw.
        ebind (ss_SaveRecoveryHash (mg_store m) (sha256 code) nw) (\<lambda>_. ok code)))"

definition rotate_install :: "string \<Rightarrow> ('c, 's, 'z) auth_world_scheme \<Rightarrow> ('c, 's, 'z) auth_world_scheme" where
  "rotate_install code w = w\<lparr>recoveryHash := sha256 code, recoverySet := True, recoveryFails := []\<rparr>"

definition rotateRecoveryCode :: "(('c, 's, 'z) auth_world_scheme, 'c, 's) Manager \<Rightarrow> (('c, 's, 'z) auth_world_scheme, string) act" where
  "rotateRecoveryCode m = ebind (rotate_save m) (\<lambda>code w. (Inr code, rotate_install code w))"

definition validRecoveryCode :: "string \<Rightarrow> ('c, 's, 'z) auth_world_scheme \<Rightarrow> bool" where
  "validRecoveryCode v w \<longleftrightarrow> recoverySet w \<and> sha256 v = recoveryHash w"

definition allowRecoveryAttempt :: "time \<Rightarrow> ('c, 's, 'z) auth_world_scheme \<Rightarrow> bool \<times> ('c, 's, 'z) auth_world_scheme" where
  "allowRecoveryAttempt nw w =
     (let kept = filter (\<lambda>failure. failure > nw - 15 * Minute) (recoveryFails w)
      in (length kept < 5, w\<lparr>recoveryFails := kept\<rparr>))"

definition recordRecoveryFailure :: "time \<Rightarrow> ('c, 's, 'z) auth_world_scheme \<Rightarrow> unit \<times> ('c, 's, 'z) auth_world_scheme" where
  "recordRecoveryFailure nw w = ((), w\<lparr>recoveryFails := recoveryFails w @ [nw]\<rparr>)"

definition writeRecoveryCode :: "string \<Rightarrow> 'p reply" where
  "writeRecoveryCode code = json_reply (JObj [(''recoveryCode'', JStr code)])"

text \<open>A clock reading between steps that cannot fail.\<close>

definition time_Now :: "'z world_scheme \<Rightarrow> time \<times> 'z world_scheme" where
  "time_Now w = (clock w (ticks w), w\<lparr>ticks := Suc (ticks w)\<rparr>)"

section \<open>Handlers\<close>

definition persistLocked :: "(('c, 's, 'z) auth_world_scheme, 'c, 's) Manager \<Rightarrow> (('c, 's, 'z) auth_world_scheme, unit) act" where
  "persistLocked m w =
     ebind (lift (wa_MarshalCredentials (mg_wa m) (Credentials (mg_user w)))) (\<lambda>encoded.
     ebind now (\<lambda>nw. ss_SaveAuthState (mg_store m) (user_ID (mg_user w)) encoded nw)) w"

text \<open>Who may add a passkey: the holder of the bootstrap token before the first one, a session after it.\<close>

definition may_register :: "(('c, 's, 'z) auth_world_scheme, 'c, 's) Manager \<Rightarrow> bool \<Rightarrow> server_request \<Rightarrow>
    ('c, 's, 'z) auth_world_scheme \<Rightarrow> string option \<times> ('c, 's, 'z) auth_world_scheme" where
  "may_register m bootstrap r =
     (if bootstrap then Pair (if validBootstrap m (sq_header r ''X-Bootstrap-Token'') then None else Some ''invalid bootstrap token'')
      else if devMode m then Pair None
      else sbind (authenticated r) (\<lambda>auth. Pair (if auth then None else Some ''authentication required'')))"

definition registerBegin :: "(('c, 's, 'z) auth_world_scheme, 'c, 's) Manager \<Rightarrow> (('c, 's, 'z) auth_world_scheme, 'p) handler" where
  "registerBegin m r w0 =
     (let bootstrap = (CredentialCount w0 = 0)
      in sbind (may_register m bootstrap r) (\<lambda>refused.
         case refused of
           Some message \<Rightarrow> respond (http_Error message 401)
         | None \<Rightarrow>
             (\<lambda>w. case wa_BeginRegistration (mg_wa m) (mg_user w) w of
                Inl _ \<Rightarrow> respond (http_Error ''could not begin passkey registration'' 500) w
              | Inr (creation, data) \<Rightarrow> beginCeremony m ''register'' data bootstrap creation w)) w0)"

text \<open>The credential joins the list before it is persisted, and stays there when persisting fails.\<close>

definition finish_registration :: "(('c, 's, 'z) auth_world_scheme, 'c, 's) Manager \<Rightarrow> 's \<Rightarrow> server_request \<Rightarrow>
    (('c, 's, 'z) auth_world_scheme, unit) act" where
  "finish_registration m data r =
     ebind (\<lambda>w. (wa_FinishRegistration (mg_wa m) (mg_user w) data r w, w)) (\<lambda>credential.
     ebind (\<lambda>w. (Inr (), w\<lparr>mg_user := (mg_user w)\<lparr>Credentials := Credentials (mg_user w) @ [credential]\<rparr>\<rparr>)) (\<lambda>_.
     persistLocked m))"

definition registerFinish :: "(('c, 's, 'z) auth_world_scheme, 'c, 's) Manager \<Rightarrow> (('c, 's, 'z) auth_world_scheme, 'p) handler" where
  "registerFinish m r =
     sbind (consumeCeremony r ''register'') (\<lambda>found.
     case found of
       None \<Rightarrow> respond (http_Error ''registration ceremony expired or invalid'' 400)
     | Some entry \<Rightarrow>
         sbind (may_register m (ce_Bootstrap entry) r) (\<lambda>refused.
         case refused of
           Some message \<Rightarrow> respond (http_Error message 401)
         | None \<Rightarrow>
             on_error (finish_registration m (ce_Session entry) r)
               (\<lambda>_. respond (http_Error ''passkey registration verification failed'' 400)) (\<lambda>_.
             on_error (if ce_Bootstrap entry then rotateRecoveryCode m else ok [])
               (\<lambda>_. respond (http_Error ''passkey registered but recovery code creation failed; authenticate and rotate recovery'' 500)) (\<lambda>recoveryCode.
             on_error (issueSession m) (\<lambda>_. respond (http_Error ''could not create session'' 500)) (\<lambda>c.
             respond (with_cookie c (if recoveryCode \<noteq> [] then writeRecoveryCode recoveryCode else no_content)))))))"

definition loginBegin :: "(('c, 's, 'z) auth_world_scheme, 'c, 's) Manager \<Rightarrow> (('c, 's, 'z) auth_world_scheme, 'p) handler" where
  "loginBegin m r w =
     (if \<not> HasPasskeys w then respond (http_Error ''no passkeys are registered'' 409) w
      else case wa_BeginLogin (mg_wa m) (mg_user w) w of
        Inl _ \<Rightarrow> respond (http_Error ''could not begin authentication'' 500) w
      | Inr (assertion, data) \<Rightarrow> beginCeremony m ''login'' data False assertion w)"

text \<open>The first credential with the identifier of the verified one is replaced by it.\<close>

fun replace_credential :: "('c \<Rightarrow> bytes) \<Rightarrow> 'c \<Rightarrow> 'c list \<Rightarrow> 'c list" where
  "replace_credential ident credential [] = []"
| "replace_credential ident credential (c # cs) =
     (if ident c = ident credential then credential # cs else c # replace_credential ident credential cs)"

definition finish_login :: "(('c, 's, 'z) auth_world_scheme, 'c, 's) Manager \<Rightarrow> 's \<Rightarrow> server_request \<Rightarrow>
    (('c, 's, 'z) auth_world_scheme, unit) act" where
  "finish_login m data r =
     ebind (\<lambda>w. (wa_FinishLogin (mg_wa m) (mg_user w) data r w, w)) (\<lambda>credential.
     ebind (\<lambda>w. (Inr (), w\<lparr>mg_user := (mg_user w)\<lparr>Credentials := replace_credential (wa_CredentialID (mg_wa m)) credential (Credentials (mg_user w))\<rparr>\<rparr>)) (\<lambda>_.
     persistLocked m))"

definition loginFinish :: "(('c, 's, 'z) auth_world_scheme, 'c, 's) Manager \<Rightarrow> (('c, 's, 'z) auth_world_scheme, 'p) handler" where
  "loginFinish m r =
     sbind (consumeCeremony r ''login'') (\<lambda>found.
     case found of
       None \<Rightarrow> respond (http_Error ''authentication ceremony expired or invalid'' 400)
     | Some entry \<Rightarrow>
         on_error (finish_login m (ce_Session entry) r) (\<lambda>_. respond (http_Error ''passkey authentication failed'' 401)) (\<lambda>_.
         on_error (issueSession m) (\<lambda>_. respond (http_Error ''could not create session'' 500)) (\<lambda>c.
         respond (with_cookie c no_content))))"

definition recoveryLogin :: "(('c, 's, 'z) auth_world_scheme, 'c, 's) Manager \<Rightarrow> (('c, 's, 'z) auth_world_scheme, 'p) handler" where
  "recoveryLogin m r w0 =
     (if \<not> HasPasskeys w0 then respond (http_Error ''recovery is unavailable before passkey enrollment'' 409) w0
      else
        sbind time_Now (\<lambda>nw.
        sbind (allowRecoveryAttempt nw) (\<lambda>allowed.
        if \<not> allowed then respond (http_Error ''recovery attempts are temporarily limited'' 429)
        else (\<lambda>w.
          if \<not> validRecoveryCode (sq_header r ''X-Recovery-Code'') w
          then sbind time_Now (\<lambda>nw. sbind (recordRecoveryFailure nw) (\<lambda>_. respond (http_Error ''recovery code is invalid'' 401))) w
          else
            on_error (rotateRecoveryCode m) (\<lambda>_. respond (http_Error ''recovery code rotation failed'' 500)) (\<lambda>replacement.
            on_error (issueSession m) (\<lambda>_. respond (http_Error ''could not create recovery session'' 500)) (\<lambda>c.
            respond (with_cookie c (writeRecoveryCode replacement)))) w))) w0)"

definition recoveryRotate :: "(('c, 's, 'z) auth_world_scheme, 'c, 's) Manager \<Rightarrow> (('c, 's, 'z) auth_world_scheme, 'p) handler" where
  "recoveryRotate m r =
     sbind (if devMode m then Pair True else authenticated r) (\<lambda>auth.
     if \<not> auth then respond (http_Error ''authentication required'' 401)
     else
       sbind (ValidateCSRF m r) (\<lambda>(valid, _).
       if \<not> valid then respond (http_Error ''invalid CSRF token'' 403)
       else
         on_error (rotateRecoveryCode m) (\<lambda>_. respond (http_Error ''recovery code rotation failed'' 500)) (\<lambda>replacement.
         respond (writeRecoveryCode replacement))))"

definition delete_session :: "bytes \<Rightarrow> ('c, 's, 'z) auth_world_scheme \<Rightarrow> unit \<times> ('c, 's, 'z) auth_world_scheme" where
  "delete_session hash w = ((), w\<lparr>sessions := (sessions w)(hash := None)\<rparr>)"

definition logout :: "(('c, 's, 'z) auth_world_scheme, 'c, 's) Manager \<Rightarrow> (('c, 's, 'z) auth_world_scheme, 'p) handler" where
  "logout m r =
     sbind (case Option.bind (Cookie r sessionCookie) RawURL_Decode of
              None \<Rightarrow> Pair ()
            | Some raw \<Rightarrow> delete_session (sha256 raw)) (\<lambda>_.
     respond (with_cookie (session_cookie m [] None (- 1)) (http_Redirect r ''/login'' 303)))"

datatype auth_route = RegisterBegin | RegisterFinish | LoginBegin | LoginFinish | Recovery | RecoveryRotate | Logout

text \<open>The patterns of \<open>Routes\<close>, all of them for POST.\<close>

definition auth_pattern :: "string \<Rightarrow> string list \<Rightarrow> auth_route option" where
  "auth_pattern method path =
     (if method \<noteq> ''POST'' then None
      else map_of
        [([''auth'', ''register'', ''begin''], RegisterBegin), ([''auth'', ''register'', ''finish''], RegisterFinish),
         ([''auth'', ''login'', ''begin''], LoginBegin), ([''auth'', ''login'', ''finish''], LoginFinish),
         ([''auth'', ''recovery''], Recovery), ([''auth'', ''recovery'', ''rotate''], RecoveryRotate),
         ([''auth'', ''logout''], Logout)] path)"

fun Routes :: "(('c, 's, 'z) auth_world_scheme, 'c, 's) Manager \<Rightarrow> auth_route \<Rightarrow> (('c, 's, 'z) auth_world_scheme, 'p) handler" where
  "Routes m RegisterBegin = registerBegin m"
| "Routes m RegisterFinish = registerFinish m"
| "Routes m LoginBegin = loginBegin m"
| "Routes m LoginFinish = loginFinish m"
| "Routes m Recovery = recoveryLogin m"
| "Routes m RecoveryRotate = recoveryRotate m"
| "Routes m Logout = logout m"

text \<open>The SQLite store as the state store.\<close>

definition SQLite_StateStore :: "SQLite \<Rightarrow> 'z sqlite_world_scheme StateStore" where
  "SQLite_StateStore s =
     \<lparr>ss_LoadAuthState = LoadAuthState s, ss_SaveAuthState = SaveAuthState s,
      ss_LoadRecoveryHash = LoadRecoveryHash s, ss_SaveRecoveryHash = SaveRecoveryHash s\<rparr>"

end
