(* ===== verification/Auth_Props.thy ===== *)
theory Auth_Props
  imports Auth
begin

text \<open>
  What operator authentication guarantees: where sessions come from, how long a recovery code works and
  how many can be tried, and what survives a restart. The contract of the state store is the locale
  \<open>auth_store\<close>, which the SQLite store satisfies.
\<close>

section \<open>Where sessions come from\<close>

text \<open>A step that may remove sessions but adds none.\<close>

definition fewer_sessions :: "('c, 's, 'z) auth_world_scheme \<Rightarrow> ('c, 's, 'z) auth_world_scheme \<Rightarrow> bool" where
  "fewer_sessions w w' \<longleftrightarrow> (\<forall>k s. sessions w' k = Some s \<longrightarrow> sessions w k = Some s)"

lemma fewer_sessions_preorder [simp]: "reflp fewer_sessions" "transp fewer_sessions"
  by (auto simp: fewer_sessions_def reflp_def transp_def)

abbreviation no_new_sessions where "no_new_sessions \<equiv> moves fewer_sessions"

lemmas no_new_intros = moves_sbind [OF fewer_sessions_preorder(2)] moves_ebind [OF fewer_sessions_preorder(2)]
  moves_on_error [OF fewer_sessions_preorder(2)] moves_wrap_err

lemmas no_new_return [simp, intro!] = moves_return [OF fewer_sessions_preorder(1)]

lemma leaves_no_new: "leaves sessions h \<Longrightarrow> no_new_sessions h"
  by (simp add: leaves_def moves_def fewer_sessions_def)

lemma keeps_no_new: "keeps sessions h \<Longrightarrow> no_new_sessions h"
  by (simp add: keeps_def moves_def fewer_sessions_def)

lemma ambient_free_manager [simp, intro]:
  "ambient_free mg_user" "ambient_free sessions" "ambient_free ceremonies" "ambient_free recoveryHash"
  "ambient_free recoverySet" "ambient_free recoveryFails"
  by (simp_all add: ambient_free_def)

lemma purgeLocked_sessions: "sessions (purgeLocked nw w) k = Some s \<longleftrightarrow> sessions w k = Some s \<and> \<not> nw > se_Expires s"
  by (auto simp: purgeLocked_def split: option.splits)

lemma issueSession_sessions:
  assumes "issueSession m w = (res, w')"
  shows "(\<exists>e. res = Inl e \<and> sessions w' = sessions w) \<or>
    (\<exists>c raw. res = Inr c \<and> ck_Name c = sessionCookie \<and> RawURL_Decode (ck_Value c) = Some raw \<and> raw = take 32 (entropy w) \<and>
       length raw = 32 \<and> ck_Secure c = secureCookies m \<and> ck_HttpOnly c \<and> ck_SameSiteStrict c \<and>
       (\<forall>k s. sessions w' k = Some s \<longrightarrow> sessions w k = Some s \<or>
          k = sha256 raw \<and> se_Expires s = clock w (ticks w) + sessionTTL m))"
proof (cases "56 \<le> length (entropy w)")
  case True
  define raw where "raw = take 32 (entropy w)"
  define w1 where "w1 = w\<lparr>entropy := drop 56 (entropy w), ticks := Suc (ticks w)\<rparr>"
  define s0 where "s0 = \<lparr>se_Expires = clock w (ticks w) + sessionTTL m, se_CSRF = b64_encode_raw (take 24 (drop 32 (entropy w)))\<rparr>"
  define c where "c = session_cookie m (b64_encode_raw raw) (Some (clock w (ticks w) + sessionTTL m)) (whole_seconds (sessionTTL m))"
  let ?w2 = "w1\<lparr>sessions := (sessions w1)(sha256 raw \<mapsto> s0), ticks := Suc (ticks w1)\<rparr>"
  have "issueSession m w = (Inr c, purgeLocked (clock w (Suc (ticks w))) ?w2)"
    using True by (simp add: issueSession_def randomTokenWithHash_def randomToken_def add_session_def raw_def w1_def s0_def c_def Let_def)
  moreover have "sessions w1 = sessions w" by (simp add: w1_def)
  ultimately have "res = Inr c" "\<And>k s. sessions w' k = Some s \<Longrightarrow> sessions w k = Some s \<or> k = sha256 raw \<and> s = s0"
    using assms by (auto simp: purgeLocked_sessions split: if_splits)
  moreover have "length raw = 32" "RawURL_Decode (ck_Value c) = Some raw" "ck_Name c = sessionCookie" "ck_Secure c = secureCookies m"
      "ck_HttpOnly c" "ck_SameSiteStrict c"
    using True by (simp_all add: raw_def c_def session_cookie_def RawURL_roundtrip)
  moreover have "se_Expires s0 = clock w (ticks w) + sessionTTL m" by (simp add: s0_def)
  ultimately show ?thesis unfolding raw_def [symmetric] by blast
next
  case False
  then have "(24 \<le> length (entropy w) - 32) = False" by arith
  then have "\<exists>e. fst (issueSession m w) = Inl e" and "sessions (snd (issueSession m w)) = sessions w"
    by (simp_all add: issueSession_def randomTokenWithHash_def randomToken_def ebind_def ReadFull_def)
  then show ?thesis using assms by auto
qed

text \<open>The hash under which a request's cookie is looked up, and the reply that hands a session out.\<close>

definition cookie_hash :: "server_request \<Rightarrow> string \<Rightarrow> bytes option" where
  "cookie_hash r name = map_option sha256 (Option.bind (Cookie r name) RawURL_Decode)"

definition hands_out :: "'p reply \<Rightarrow> bytes \<Rightarrow> bool" where
  "hands_out p k \<longleftrightarrow> (\<exists>c\<in>set (rp_cookies p). ck_Name c = sessionCookie \<and> ck_HttpOnly c \<and> ck_SameSiteStrict c \<and>
     (\<exists>raw. RawURL_Decode (ck_Value c) = Some raw \<and> length raw = 32 \<and> k = sha256 raw))"

lemma issue_tail:
  assumes "on_error (issueSession m) (\<lambda>_. respond e) (\<lambda>c. respond (with_cookie c q)) w = (p, w')"
    and "sessions w' k = Some s"
  shows "sessions w k = Some s \<or> hands_out p k \<and> se_Expires s = clock w (ticks w) + sessionTTL m"
proof -
  obtain res w1 where i: "issueSession m w = (res, w1)" by fastforce
  show ?thesis
  proof (cases res)
    case (Inl e)
    then show ?thesis using issueSession_sessions [OF i] i assms by auto
  next
    case (Inr c)
    then have "p = with_cookie c q" "w' = w1" using assms(1) i by simp_all
    then show ?thesis using issueSession_sessions [OF i] Inr assms(2) by (auto simp: hands_out_def with_cookie_def)
  qed
qed

section \<open>The contract of the state store\<close>

text \<open>The manager's own fields, which the store never touches.\<close>

definition mgr :: "('c, 's, 'z) auth_world_scheme \<Rightarrow> _" where
  "mgr w = (mg_user w, sessions w, ceremonies w, recoveryHash w, recoverySet w, recoveryFails w)"

lemma keeps_mgr:
  assumes "keeps mgr h"
  shows "keeps mg_user h" "keeps sessions h" "keeps ceremonies h" "keeps recoveryHash h" "keeps recoverySet h" "keeps recoveryFails h"
  using assms by (auto simp: keeps_def mgr_def)

lemma ambient_free_mgr [simp, intro]: "ambient_free mgr"
  by (simp add: ambient_free_def mgr_def)

text \<open>
  \<open>stored_user\<close> and \<open>stored_recovery\<close> are what a load would return: a save that succeeds sets them, one
  that fails leaves them, and nothing the manager does in memory changes them.
\<close>

locale auth_store =
  fixes st :: "('c, 's, 'z) auth_world_scheme StateStore"
    and stored_user :: "('c, 's, 'z) auth_world_scheme \<Rightarrow> (bytes \<times> bytes) option"
    and stored_recovery :: "('c, 's, 'z) auth_world_scheme \<Rightarrow> bytes option"
  assumes store_keeps_mgr: "keeps mgr (ss_LoadAuthState st)" "keeps mgr (ss_SaveAuthState st u c t)"
      "keeps mgr (ss_LoadRecoveryHash st)" "keeps mgr (ss_SaveRecoveryHash st h t)"
    and load_keeps: "keeps stored_user (ss_LoadAuthState st)" "keeps stored_recovery (ss_LoadAuthState st)"
      "keeps stored_user (ss_LoadRecoveryHash st)" "keeps stored_recovery (ss_LoadRecoveryHash st)"
    and save_keeps: "keeps stored_recovery (ss_SaveAuthState st u c t)" "keeps stored_user (ss_SaveRecoveryHash st h t)"
    and save_user: "ss_SaveAuthState st u c t w = (Inr x, w') \<Longrightarrow> stored_user w' = Some (u, c)"
    and save_user_failed: "ss_SaveAuthState st u c t w = (Inl e, w') \<Longrightarrow> stored_user w' = stored_user w"
    and save_recovery: "ss_SaveRecoveryHash st h t w = (Inr x, w') \<Longrightarrow> stored_recovery w' = Some h"
    and save_recovery_failed: "ss_SaveRecoveryHash st h t w = (Inl e, w') \<Longrightarrow> stored_recovery w' = stored_recovery w"
    and load_user: "ss_LoadAuthState st w = (Inr r, w') \<Longrightarrow> r = stored_user w"
    and load_recovery: "ss_LoadRecoveryHash st w = (Inr r2, w') \<Longrightarrow> r2 = stored_recovery w"
    and stored_ambient: "ambient_free stored_user" "ambient_free stored_recovery"
    and stored_user_mgr: "stored_user (w\<lparr>mg_user := a\<rparr>) = stored_user w" "stored_user (w\<lparr>sessions := b\<rparr>) = stored_user w"
      "stored_user (w\<lparr>ceremonies := d\<rparr>) = stored_user w" "stored_user (w\<lparr>recoveryHash := h, recoverySet := i, recoveryFails := j\<rparr>) = stored_user w"
    and stored_recovery_mgr: "stored_recovery (w\<lparr>mg_user := a\<rparr>) = stored_recovery w" "stored_recovery (w\<lparr>sessions := b\<rparr>) = stored_recovery w"
      "stored_recovery (w\<lparr>ceremonies := d\<rparr>) = stored_recovery w"
      "stored_recovery (w\<lparr>recoveryHash := h, recoverySet := i, recoveryFails := j\<rparr>) = stored_recovery w"
begin

lemma rotate_no_new:
  assumes "mg_store m = st"
  shows "no_new_sessions (rotateRecoveryCode m)"
  unfolding rotateRecoveryCode_def rotate_save_def rotate_install_def randomToken_def Let_def assms
  by (intro no_new_intros keeps_no_new keeps_ReadFull keeps_now ambient_free_manager no_new_return)
    (rule keeps_mgr(2) [OF store_keeps_mgr(4)] | simp add: keeps_def)+

lemma persist_no_new: "mg_store m = st \<Longrightarrow> no_new_sessions (persistLocked m)"
proof -
  assume "mg_store m = st"
  then have "keeps sessions (ebind (lift enc) (\<lambda>encoded. ebind now (\<lambda>nw. ss_SaveAuthState (mg_store m) u encoded nw)))" for enc u
    using keeps_mgr(2) [OF store_keeps_mgr(2)] by (auto intro!: keeps_ebind keeps_now)
  then show ?thesis by (auto simp: moves_def fewer_sessions_def persistLocked_def keeps_def)
qed

lemma finish_no_new:
  "mg_store m = st \<Longrightarrow> no_new_sessions (finish_registration m d r)" "mg_store m = st \<Longrightarrow> no_new_sessions (finish_login m d r)"
  unfolding finish_registration_def finish_login_def
  by (intro no_new_intros persist_no_new; simp add: moves_def fewer_sessions_def)+

end

lemma session_reads_no_new: "no_new_sessions (authenticated r)" "no_new_sessions (ValidateCSRF m r)"
  by (auto simp: ValidateCSRF_def CSRFToken_def authenticated_def sessionForRequest_def moves_def fewer_sessions_def Let_def
      split: option.splits prod.splits)

lemma may_register_no_new: "no_new_sessions (may_register m b r)"
  by (auto simp: may_register_def authenticated_def sessionForRequest_def moves_def fewer_sessions_def sbind_def Let_def
      split: option.splits prod.splits)

lemma consumeCeremony_no_new: "no_new_sessions (consumeCeremony r kind)"
  by (auto simp: consumeCeremony_def take_ceremony_def moves_def fewer_sessions_def sbind_def split: option.splits)

definition live_ceremony :: "server_request \<Rightarrow> string \<Rightarrow> 's ceremony \<Rightarrow> ('c, 's, 'z) auth_world_scheme \<Rightarrow> bool" where
  "live_ceremony r kind entry w \<longleftrightarrow>
     (\<exists>k. cookie_hash r ceremonyCookie = Some k \<and> ceremonies w k = Some entry) \<and>
     ce_Kind entry = kind \<and> ce_CSRF entry = sq_header r ''X-Csrf-Token'' \<and> clock w (ticks w) \<le> ce_Expires entry"

definition live_session :: "server_request \<Rightarrow> time \<Rightarrow> ('c, 's, 'z) auth_world_scheme \<Rightarrow> bool" where
  "live_session r t w \<longleftrightarrow> (\<exists>k s. cookie_hash r sessionCookie = Some k \<and> sessions w k = Some s \<and> t < se_Expires s)"

lemma consumeCeremony_Some:
  assumes "consumeCeremony r kind w = (Some entry, w')"
  shows "live_ceremony r kind entry w"
    and "\<exists>k. cookie_hash r ceremonyCookie = Some k \<and>
      w' = w\<lparr>ceremonies := (ceremonies w)(k := None), ticks := Suc (ticks w)\<rparr>"
  using assms
  by (auto simp: consumeCeremony_def take_ceremony_def live_ceremony_def cookie_hash_def sbind_def
      split: option.splits if_splits)

lemma may_register_None:
  assumes "may_register m b r w = (None, w')"
  shows "if b then validBootstrap m (sq_header r ''X-Bootstrap-Token'') else devMode m \<or> live_session r (clock w (ticks w)) w"
    and "mg_user w' = mg_user w"
  using assms
  by (auto simp: may_register_def authenticated_def sessionForRequest_def live_session_def cookie_hash_def sbind_def Let_def
      split: option.splits if_splits prod.splits)

text \<open>
  What a request must have shown before a session is handed out: a passkey for a live login ceremony,
  a new passkey for a live registration ceremony together with the bootstrap token or a live session, or the
  current recovery code within the attempt limit.
\<close>

definition proven_login :: "(('c, 's, 'z) auth_world_scheme, 'c, 's) Manager \<Rightarrow> server_request \<Rightarrow> ('c, 's, 'z) auth_world_scheme \<Rightarrow> bool" where
  "proven_login m r w \<longleftrightarrow> (\<exists>entry c. live_ceremony r ''login'' entry w \<and>
     wa_FinishLogin (mg_wa m) (mg_user w) (ce_Session entry) r (snd (consumeCeremony r ''login'' w)) = Inr c)"

definition proven_registration :: "(('c, 's, 'z) auth_world_scheme, 'c, 's) Manager \<Rightarrow> server_request \<Rightarrow> ('c, 's, 'z) auth_world_scheme \<Rightarrow> bool" where
  "proven_registration m r w \<longleftrightarrow> (\<exists>entry c. live_ceremony r ''register'' entry w \<and>
     wa_FinishRegistration (mg_wa m) (mg_user w) (ce_Session entry) r
       (snd (may_register m (ce_Bootstrap entry) r (snd (consumeCeremony r ''register'' w)))) = Inr c \<and>
     (if ce_Bootstrap entry then validBootstrap m (sq_header r ''X-Bootstrap-Token'')
      else devMode m \<or> live_session r (clock w (Suc (ticks w))) w))"

definition proven_recovery :: "server_request \<Rightarrow> ('c, 's, 'z) auth_world_scheme \<Rightarrow> bool" where
  "proven_recovery r w \<longleftrightarrow> HasPasskeys w \<and> validRecoveryCode (sq_header r ''X-Recovery-Code'') w \<and>
     length (filter (\<lambda>f. f > clock w (ticks w) - 15 * Minute) (recoveryFails w)) < 5"

fun proven :: "(('c, 's, 'z) auth_world_scheme, 'c, 's) Manager \<Rightarrow> auth_route \<Rightarrow> server_request \<Rightarrow> ('c, 's, 'z) auth_world_scheme \<Rightarrow> bool" where
  "proven m LoginFinish r w = proven_login m r w"
| "proven m RegisterFinish r w = proven_registration m r w"
| "proven m Recovery r w = proven_recovery r w"
| "proven m _ r w = False"

context auth_store
begin

lemma loginFinish_sessions:
  assumes "mg_store m = st" and "loginFinish m r w = (p, w')" and "sessions w' k = Some s"
  shows "sessions w k = Some s \<or> proven_login m r w \<and> hands_out p k"
proof -
  obtain f w1 where c: "consumeCeremony r ''login'' w = (f, w1)" by fastforce
  have back1: "sessions w1 k = Some s \<Longrightarrow> sessions w k = Some s"
    using movesD [OF consumeCeremony_no_new c] by (simp add: fewer_sessions_def)
  show ?thesis
  proof (cases f)
    case None
    then show ?thesis using assms c back1 by (simp add: loginFinish_def)
  next
    case (Some entry)
    note cs = consumeCeremony_Some [OF c [unfolded Some]]
    obtain res w2 where fl: "finish_login m (ce_Session entry) r w1 = (res, w2)" by fastforce
    have back2: "sessions w2 k = Some s \<Longrightarrow> sessions w k = Some s"
      using movesD [OF finish_no_new(2) [OF assms(1)] fl] back1 by (simp add: fewer_sessions_def)
    show ?thesis
    proof (cases res)
      case (Inl e)
      then show ?thesis using assms c Some fl back2 by (simp add: loginFinish_def)
    next
      case (Inr u)
      then have "mg_user w1 = mg_user w" "\<exists>cr. wa_FinishLogin (mg_wa m) (mg_user w1) (ce_Session entry) r w1 = Inr cr"
        using cs(2) fl by (auto simp: finish_login_def ebind_eq_Inr)
      then have "proven_login m r w" using cs(1) c by (auto simp: proven_login_def)
      then show ?thesis
        using issue_tail [OF _ assms(3), of m _ no_content w2 p] assms(2) c Some fl Inr back2 by (auto simp: loginFinish_def)
    qed
  qed
qed

text \<open>The end of \<open>registerFinish\<close>: the recovery code for a bootstrap, then the session.\<close>

lemma register_tail:
  assumes "mg_store m = st" and "sessions w' k = Some s"
    and "on_error (if b then rotateRecoveryCode m else ok []) (\<lambda>_. respond e1) (\<lambda>code.
           on_error (issueSession m) (\<lambda>_. respond e2) (\<lambda>c. respond (with_cookie c (q code)))) w = (p, w')"
  shows "sessions w k = Some s \<or> hands_out p k"
proof -
  let ?rot = "if b then rotateRecoveryCode m else ok []"
  obtain res w1 where r: "?rot w = (res, w1)" by fastforce
  have nn: "no_new_sessions ?rot" using rotate_no_new [OF assms(1)] by (cases b) simp_all
  have bk: "sessions w1 k = Some s \<Longrightarrow> sessions w k = Some s"
    using movesD [OF nn r] by (auto simp: fewer_sessions_def)
  show ?thesis
  proof (cases res)
    case (Inl e)
    then show ?thesis using assms(2,3) r bk by simp
  next
    case (Inr code)
    then show ?thesis using issue_tail [OF _ assms(2), of m e2 "q code" w1 p] assms(3) r bk by auto
  qed
qed

lemma registerFinish_sessions:
  assumes "mg_store m = st" and "registerFinish m r w = (p, w')" and "sessions w' k = Some s"
  shows "sessions w k = Some s \<or> proven_registration m r w \<and> hands_out p k"
proof -
  obtain f w1 where c: "consumeCeremony r ''register'' w = (f, w1)" by fastforce
  have back1: "sessions w1 k = Some s \<Longrightarrow> sessions w k = Some s"
    using movesD [OF consumeCeremony_no_new c] by (simp add: fewer_sessions_def)
  show ?thesis
  proof (cases f)
    case None
    then show ?thesis using assms c back1 by (simp add: registerFinish_def)
  next
    case (Some entry)
    note cs = consumeCeremony_Some [OF c [unfolded Some]]
    obtain refused w2 where mr: "may_register m (ce_Bootstrap entry) r w1 = (refused, w2)" by fastforce
    have back2: "sessions w2 k = Some s \<Longrightarrow> sessions w k = Some s"
      using movesD [OF may_register_no_new mr] back1 by (simp add: fewer_sessions_def)
    show ?thesis
    proof (cases refused)
      case (Some message)
      then show ?thesis using assms(2,3) c mr \<open>f = Some entry\<close> back2 by (simp add: registerFinish_def)
    next
      case None
      obtain res w3 where fr: "finish_registration m (ce_Session entry) r w2 = (res, w3)" by fastforce
      have back3: "sessions w3 k = Some s \<Longrightarrow> sessions w k = Some s"
        using movesD [OF finish_no_new(1) [OF assms(1)] fr] back2 by (simp add: fewer_sessions_def)
      show ?thesis
      proof (cases res)
        case (Inl e)
        then show ?thesis using assms(2,3) c mr \<open>f = Some entry\<close> None fr back3 by (simp add: registerFinish_def)
      next
        case (Inr u)
        have u: "mg_user w2 = mg_user w" using may_register_None(2) [OF mr [unfolded None]] cs(2) by auto
        have "live_session r (clock w (Suc (ticks w))) w" if "live_session r (clock w1 (ticks w1)) w1"
          using that cs(2) by (auto simp: live_session_def)
        then have "proven_registration m r w"
          using cs(1) may_register_None(1) [OF mr [unfolded None]] fr Inr u c mr
          by (auto simp: proven_registration_def finish_registration_def ebind_eq_Inr split: if_splits)
        then show ?thesis
          using register_tail [OF assms(1,3)] assms(2) c mr fr Inr \<open>f = Some entry\<close> None back3
          by (fastforce simp: registerFinish_def)
      qed
    qed
  qed
qed

lemma recoveryLogin_sessions:
  assumes "mg_store m = st" and "recoveryLogin m r w = (p, w')" and "sessions w' k = Some s"
  shows "sessions w k = Some s \<or> proven_recovery r w \<and> hands_out p k"
proof (cases "proven_recovery r w")
  case False
  then show ?thesis using assms(2,3)
    by (auto simp: recoveryLogin_def proven_recovery_def time_Now_def allowRecoveryAttempt_def recordRecoveryFailure_def
        validRecoveryCode_def sbind_def Let_def split: if_splits)
next
  case True
  then show ?thesis
    using register_tail [OF assms(1,3), of True "http_Error ''recovery code rotation failed'' 500" "http_Error ''could not create recovery session'' 500"
        writeRecoveryCode "w\<lparr>ticks := Suc (ticks w), recoveryFails := filter (\<lambda>f. f > clock w (ticks w) - 15 * Minute) (recoveryFails w)\<rparr>" p]
      assms(2)
    by (auto simp: recoveryLogin_def proven_recovery_def time_Now_def allowRecoveryAttempt_def validRecoveryCode_def sbind_def Let_def)
qed

lemma recoveryRotate_no_new:
  assumes "mg_store m = st"
  shows "no_new_sessions (recoveryRotate m r)"
proof -
  have "no_new_sessions (if devMode m then Pair True else authenticated r)" by (simp add: session_reads_no_new)
  then show ?thesis
    unfolding recoveryRotate_def
    by (intro no_new_intros)
      (auto intro!: no_new_intros session_reads_no_new no_new_return rotate_no_new [OF assms] split: prod.split)
qed

end

lemma add_ceremony_no_new: "no_new_sessions (add_ceremony token entry)"
  by (auto simp: add_ceremony_def purgeLocked_def moves_def fewer_sessions_def Let_def split: option.splits if_splits)

lemma beginCeremony_no_new: "no_new_sessions (beginCeremony m kind d b options)"
  unfolding beginCeremony_def randomTokenWithHash_def randomToken_def
  by (auto intro!: no_new_intros no_new_return keeps_no_new [OF keeps_ReadFull] add_ceremony_no_new)

lemma begin_no_new: "no_new_sessions (registerBegin m r)" "no_new_sessions (loginBegin m r)"
proof -
  show "no_new_sessions (registerBegin m r)"
    unfolding registerBegin_def [abs_def] Let_def
    by (rule moves_at [where g = "\<lambda>w. CredentialCount w = 0"],
        intro moves_sbind [OF fewer_sessions_preorder(2)] may_register_no_new, split option.split)
      (auto intro!: moves_case no_new_return beginCeremony_no_new split: prod.split)
  show "no_new_sessions (loginBegin m r)"
    unfolding loginBegin_def [abs_def]
    by (intro moves_ite moves_case no_new_return) (auto simp: beginCeremony_no_new)
qed

lemma logout_sessions:
  "logout m r w = (p, w') \<Longrightarrow> sessions w' k = Some s \<Longrightarrow> sessions w k = Some s \<and> cookie_hash r sessionCookie \<noteq> Some k"
  by (auto simp: logout_def delete_session_def cookie_hash_def sbind_def split: option.splits if_splits)

context auth_store
begin

lemma Routes_sessions:
  assumes "mg_store m = st" and "Routes m route r w = (p, w')" and "sessions w' k = Some s"
  shows "sessions w k = Some s \<and> (route = Logout \<longrightarrow> cookie_hash r sessionCookie \<noteq> Some k) \<or> proven m route r w \<and> hands_out p k"
proof (cases route)
  case RegisterFinish
  then show ?thesis using registerFinish_sessions assms by simp
next
  case LoginFinish
  then show ?thesis using loginFinish_sessions assms by simp
next
  case Recovery
  then show ?thesis using recoveryLogin_sessions assms by simp
next
  case Logout
  then show ?thesis using logout_sessions assms by simp
next
  case RegisterBegin
  then show ?thesis using movesD [OF begin_no_new(1)] assms by (fastforce simp: fewer_sessions_def)
next
  case LoginBegin
  then show ?thesis using movesD [OF begin_no_new(2)] assms by (fastforce simp: fewer_sessions_def)
next
  case RecoveryRotate
  then show ?thesis using movesD [OF recoveryRotate_no_new] assms by (fastforce simp: fewer_sessions_def)
qed

end

section \<open>Runs of the manager\<close>

text \<open>
  A run: requests to the routes of the manager, in any order, with any change of the rest of the world
  between them (other handlers, the passing of time, other users of the store).
\<close>

inductive auth_run :: "(('c, 's, 'z) auth_world_scheme, 'c, 's) Manager \<Rightarrow> ('c, 's, 'z) auth_world_scheme \<Rightarrow>
    (auth_route \<times> server_request \<times> 'p reply) list \<Rightarrow> ('c, 's, 'z) auth_world_scheme \<Rightarrow> bool" for m w0 where
  start: "auth_run m w0 [] w0"
| request: "auth_run m w0 tr w \<Longrightarrow> Routes m route r w = (p, w') \<Longrightarrow> auth_run m w0 (tr @ [(route, r, p)]) w'"
| elsewhere: "auth_run m w0 tr w \<Longrightarrow> mgr w' = mgr w \<Longrightarrow> auth_run m w0 tr w'"

text \<open>The request that earned a session, and that it has not been logged out since.\<close>

definition earned :: "(('c, 's, 'z) auth_world_scheme, 'c, 's) Manager \<Rightarrow> ('c, 's, 'z) auth_world_scheme \<Rightarrow>
    (auth_route \<times> server_request \<times> 'p reply) list \<Rightarrow> bytes \<Rightarrow> bool" where
  "earned m w0 tr k \<longleftrightarrow>
     (\<exists>tr1 route r p tr2 w1. tr = tr1 @ (route, r, p) # tr2 \<and> auth_run m w0 tr1 w1 \<and> fst (Routes m route r w1) = p \<and>
        proven m route r w1 \<and> hands_out p k \<and>
        (\<forall>(route', r', p') \<in> set tr2. route' = Logout \<longrightarrow> cookie_hash r' sessionCookie \<noteq> Some k))"

lemma earned_append:
  assumes "earned m w0 tr k" and "route = Logout \<longrightarrow> cookie_hash r sessionCookie \<noteq> Some k"
  shows "earned m w0 (tr @ [(route, r, p)]) k"
proof -
  obtain tr1 route1 r1 p1 tr2 w1 where "tr = tr1 @ (route1, r1, p1) # tr2" "auth_run m w0 tr1 w1" "fst (Routes m route1 r1 w1) = p1"
      "proven m route1 r1 w1" "hands_out p1 k" "\<forall>(route', r', p') \<in> set tr2. route' = Logout \<longrightarrow> cookie_hash r' sessionCookie \<noteq> Some k"
    using assms(1) unfolding earned_def by blast
  then show ?thesis
    unfolding earned_def using assms(2)
    by (intro exI [of _ tr1] exI [of _ route1] exI [of _ r1] exI [of _ p1] exI [of _ "tr2 @ [(route, r, p)]"] exI [of _ w1]) auto
qed

context auth_store
begin

lemma run_earned:
  assumes "auth_run m w0 tr w" and "mg_store m = st" and "\<And>k. sessions w0 k = None" and "sessions w k = Some s"
  shows "earned m w0 tr k"
  using assms
proof (induction arbitrary: s rule: auth_run.induct)
  case start
  then show ?case by simp
next
  case (request tr w route r p w')
  consider "sessions w k = Some s" "route = Logout \<longrightarrow> cookie_hash r sessionCookie \<noteq> Some k"
    | "proven m route r w" "hands_out p k"
    using Routes_sessions [OF request.prems(1) request.hyps(2) request.prems(3)] by blast
  then show ?case
  proof cases
    case 1
    then show ?thesis using request.IH [OF request.prems(1,2)] by (blast intro: earned_append)
  next
    case 2
    then show ?thesis
      unfolding earned_def using request.hyps
      by (intro exI [of _ tr] exI [of _ route] exI [of _ r] exI [of _ p] exI [of _ "[]"] exI [of _ w]) auto
  qed
next
  case (elsewhere tr w w')
  then show ?case by (metis mgr_def prod.inject)
qed

end

section \<open>The SQLite store satisfies the contract\<close>

definition sqlite_user :: "SQLite \<Rightarrow> 'z sqlite_world_scheme \<Rightarrow> (bytes \<times> bytes) option" where
  "sqlite_user s w =
     (case t_auth (db w) of
        None \<Rightarrow> None
      | Some r \<Rightarrow>
          (case sealer s of
             None \<Rightarrow> Some (au_user_id r, au_credentials r)
           | Some e \<Rightarrow>
               (case (Open e (au_user_id r) ''auth:user-id:v1'', Open e (au_credentials r) ''auth:credentials:v1'') of
                  (Inr u, Inr c) \<Rightarrow> Some (u, c)
                | _ \<Rightarrow> None)))"

definition sqlite_recovery :: "SQLite \<Rightarrow> 'z sqlite_world_scheme \<Rightarrow> bytes option" where
  "sqlite_recovery s = sealed_value s t_recovery ''auth:recovery-hash:v1''"

lemma store_free_mgr: "store_free mgr"
  by (simp add: store_free_def mgr_def)

lemma LoadAuthState_user:
  assumes "LoadAuthState s w = (Inr r, w')"
  shows "r = sqlite_user s w"
proof -
  obtain row w1 where q: "query t_auth w = (Inr row, w1)"
    using assms by (auto simp: LoadAuthState_def ebind_eq_Inr)
  then have "row = t_auth (db w)" by (auto dest: query_outcome)
  then show ?thesis using assms q
    by (cases "t_auth (db w)"; cases "sealer s") (auto simp: LoadAuthState_def sqlite_user_def ebind_eq_Inr)
qed

lemma SaveAuthState_user:
  "SaveAuthState s u c t w = (Inr x, w') \<Longrightarrow> sqlite_user s w' = Some (u, c)"
  "SaveAuthState s u c t w = (Inl err, w') \<Longrightarrow> db w' = db w"
proof -
  assume f: "SaveAuthState s u c t w = (Inr x, w')"
  show "sqlite_user s w' = Some (u, c)"
  proof (cases "sealer s")
    case None
    then show ?thesis using f exec_put by (fastforce simp: SaveAuthState_def sqlite_user_def ebind_ok)
  next
    case (Some e)
    then obtain us wx cs wy where "Seal e u ''auth:user-id:v1'' w = (Inr us, wx)" "Seal e c ''auth:credentials:v1'' wx = (Inr cs, wy)"
        "exec (\<lambda>d. Inr ((), d\<lparr>t_auth := Some \<lparr>au_user_id = us, au_credentials = cs, au_updated_at = millis t\<rparr>\<rparr>)) wy = (Inr (), w')"
      using f by (auto simp: SaveAuthState_def ebind_eq_Inr)
    then show ?thesis using Some by (simp add: sqlite_user_def exec_put Open_Seal_any)
  qed
next
  assume f: "SaveAuthState s u c t w = (Inl err, w')"
  note sealed = keepsD [OF keeps_Seal [OF ambient_free_db(1)]]
  show "db w' = db w"
  proof (cases "sealer s")
    case None
    then show ?thesis using f exec_Inl by (auto simp: SaveAuthState_def ebind_ok)
  next
    case (Some e)
    then show ?thesis using f
      by (auto simp: SaveAuthState_def ebind_eq_Inl ebind_eq_Inr wrap_err_eq_Inl dest!: exec_Inl sealed)
  qed
qed

lemma auth_tables:
  "keeps db (LoadAuthState s)" "keeps db (LoadRecoveryHash s)"
  "keeps (\<lambda>w. t_recovery (db w)) (SaveAuthState s u c t)" "keeps (\<lambda>w. t_auth (db w)) (SaveRecoveryHash s h t)"
proof -
  have af: "ambient_free (\<lambda>w. t_recovery (db w))" "ambient_free (\<lambda>w. t_auth (db w))" by (simp_all add: ambient_free_def)
  show "keeps db (LoadAuthState s)" "keeps db (LoadRecoveryHash s)"
    unfolding LoadAuthState_def LoadRecoveryHash_def load_sealed_def
    by (auto intro!: keeps_ebind keeps_wrap_err keeps_db_query split: option.split)
  show "keeps (\<lambda>w. t_recovery (db w)) (SaveAuthState s u c t)"
    unfolding SaveAuthState_def
    by (auto intro!: keeps_ebind keeps_wrap_err keeps_Seal af exec_keeps split: option.split)
  show "keeps (\<lambda>w. t_auth (db w)) (SaveRecoveryHash s h t)"
    unfolding SaveRecoveryHash_def save_sealed_def
    by (auto intro!: keeps_ebind keeps_wrap_err keeps_Seal af exec_keeps split: option.split)
qed

lemma SaveRecoveryHash_value:
  "SaveRecoveryHash s h t w = (Inr x, w') \<Longrightarrow> sqlite_recovery s w' = Some h"
  "SaveRecoveryHash s h t w = (Inl e, w') \<Longrightarrow> sqlite_recovery s w' = sqlite_recovery s w"
proof -
  assume "SaveRecoveryHash s h t w = (Inr x, w')"
  from save_sealed_value [OF this [unfolded SaveRecoveryHash_def], of t_recovery "millis t"]
  show "sqlite_recovery s w' = Some h" by (simp add: sqlite_recovery_def)
next
  assume "SaveRecoveryHash s h t w = (Inl e, w')"
  from save_sealed_failed [OF this [unfolded SaveRecoveryHash_def]]
  show "sqlite_recovery s w' = sqlite_recovery s w" by (simp add: sqlite_recovery_def sealed_value_def)
qed

lemma LoadRecoveryHash_value: "LoadRecoveryHash s w = (Inr r, w') \<Longrightarrow> r = sqlite_recovery s w"
  unfolding LoadRecoveryHash_def sqlite_recovery_def by (rule load_sealed_value)

lemma stored_of_tables:
  "keeps (\<lambda>w. t_auth (db w)) h \<Longrightarrow> keeps (sqlite_user s) h" "keeps (\<lambda>w. t_recovery (db w)) h \<Longrightarrow> keeps (sqlite_recovery s) h"
  "keeps db h \<Longrightarrow> keeps (sqlite_user s) h" "keeps db h \<Longrightarrow> keeps (sqlite_recovery s) h"
  by (simp_all add: keeps_def sqlite_user_def sqlite_recovery_def sealed_value_def)

interpretation sqlite_auth: auth_store "SQLite_StateStore s" "sqlite_user s" "sqlite_recovery s" for s
proof (unfold_locales, simp_all add: SQLite_StateStore_def LoadAuthState_user SaveAuthState_user
      LoadRecoveryHash_value SaveRecoveryHash_value stored_of_tables auth_tables)
  show "keeps mgr (LoadAuthState s)"
    unfolding LoadAuthState_def
    by (auto intro!: keeps_ebind keeps_wrap_err keeps_store_free [OF store_free_mgr] split: option.split)
  show "keeps mgr (SaveAuthState s u c t)" for u c t
    unfolding SaveAuthState_def
    by (auto intro!: keeps_ebind keeps_wrap_err keeps_Seal keeps_store_free [OF store_free_mgr] split: option.split)
  show "keeps mgr (LoadRecoveryHash s)" "keeps mgr (SaveRecoveryHash s h t)" for h t
    unfolding LoadRecoveryHash_def SaveRecoveryHash_def by (rule keeps_sealed [OF store_free_mgr])+
  show "sqlite_user s w' = sqlite_user s w" if "SaveAuthState s u c t w = (Inl e, w')" for u c t w e w'
    using SaveAuthState_user(2) [OF that] by (simp add: sqlite_user_def)
qed (simp_all add: ambient_free_def sqlite_user_def sqlite_recovery_def sealed_value_def)

section \<open>Sessions are earned\<close>

text \<open>The steps of a successful construction.\<close>

lemma New_parts:
  assumes "New webauthn_New st cfg w = (Inr m, w0)"
  obtains w2 where "load st (mg_wa m) ((snd (fresh_manager w))\<lparr>entropy := drop 24 (entropy w)\<rparr>) = (Inr (), w2)"
    "loadRecovery st w2 = (Inr (), w0)" "mg_store m = st" "devMode m = DevMode cfg"
proof -
  obtain origin where u: "URL_Parse (Origin cfg) = Some origin" "Host origin \<noteq> []"
    using assms by (cases "URL_Parse (Origin cfg)") (auto simp: New_def Let_def ebind_eq_Inr split: if_splits)
  have c1: "DevMode cfg \<or> Scheme origin = ''https''" by (rule ccontr) (use assms u in \<open>simp add: New_def ebind_def\<close>)
  have c2: "RPID cfg \<noteq> []" by (rule ccontr) (use assms u c1 in \<open>simp add: New_def ebind_def\<close>)
  have c3: "DevMode cfg \<or> 32 \<le> length (BootstrapToken cfg)" by (rule ccontr) (use assms u c1 c2 in \<open>simp add: New_def ebind_def\<close>)
  obtain wa where wa: "webauthn_New (RPID cfg) (Origin cfg) = Inr wa"
    using assms u c1 c2 c3 by (cases "webauthn_New (RPID cfg) (Origin cfg)") (simp_all add: New_def ebind_def)
  define w1 where "w1 = snd (fresh_manager w)"
  have fm: "fresh_manager w = (Inr (), w1)" "entropy w1 = entropy w" by (simp_all add: w1_def fresh_manager_def)
  have "ebind (randomToken 24) (\<lambda>csrf. ebind (load st wa) (\<lambda>_. ebind (loadRecovery st) (\<lambda>_.
      ok \<lparr>mg_wa = wa, mg_store = st, bootstrapHash = sha256 (BootstrapToken cfg), secureCookies = (Scheme origin = ''https''),
        sessionTTL = (if SessionTTL cfg = 0 then 15 * Minute else SessionTTL cfg), devMode = DevMode cfg, devCSRF = csrf\<rparr>))) w1 = (Inr m, w0)"
    using assms u c1 c2 c3 wa fm(1) by (simp add: New_def Let_def)
  then show ?thesis using that fm(2) unfolding w1_def [symmetric] by (auto simp: ebind_eq_Inr randomToken_def ReadFull_eq_Inr)
qed

lemma New_fresh:
  assumes "New webauthn_New (SQLite_StateStore s) cfg w = (Inr m, w0)"
  shows "mg_store m = SQLite_StateStore s" and "sessions w0 k = None" and "ceremonies w0 k = None"
proof -
  define w1 where "w1 = (snd (fresh_manager w))\<lparr>entropy := drop 24 (entropy w)\<rparr>"
  obtain w2 where l: "load (SQLite_StateStore s) (mg_wa m) w1 = (Inr (), w2)" "loadRecovery (SQLite_StateStore s) w2 = (Inr (), w0)"
    and m: "mg_store m = SQLite_StateStore s"
    unfolding w1_def by (rule New_parts [OF assms])
  have e: "sessions w1 = (\<lambda>_. None)" "ceremonies w1 = (\<lambda>_. None)" by (simp_all add: w1_def fresh_manager_def)
  have "sessions w2 = sessions w1" "ceremonies w2 = ceremonies w1"
    using l(1) keepsD [OF keeps_mgr(2) [OF sqlite_auth.store_keeps_mgr(1) [of s]]] keepsD [OF keeps_mgr(3) [OF sqlite_auth.store_keeps_mgr(1) [of s]]]
    by (auto simp: load_def ebind_eq_Inr ReadFull_eq_Inr split: option.splits)
  moreover have "sessions w0 = sessions w2" "ceremonies w0 = ceremonies w2"
    using l(2) keepsD [OF keeps_mgr(2) [OF sqlite_auth.store_keeps_mgr(3) [of s]]] keepsD [OF keeps_mgr(3) [OF sqlite_auth.store_keeps_mgr(3) [of s]]]
    by (auto simp: loadRecovery_def ebind_eq_Inr split: option.splits)
  ultimately show "sessions w0 k = None" "ceremonies w0 k = None" "mg_store m = SQLite_StateStore s" using e m by simp_all
qed

text \<open>
  C28: sessions are earned. In every run of the manager over the SQLite store, from the start of the
  process, a request that counts as authenticated carries the token of a session that an earlier request
  earned: by a passkey for a live login ceremony, by registering a passkey with the bootstrap token or
  a live session, or by the current recovery code within the attempt limit. The reply to that request
  handed the token out in an http-only, same-site cookie, the session has not expired, and no logout with
  it has happened since.
\<close>

theorem session_traceback:
  assumes "New webauthn_New (SQLite_StateStore s) cfg w = (Inr m, w0)"
    and "auth_run m w0 tr w1"
    and "authenticated r w1 = (True, w2)"
  shows "\<exists>k e. cookie_hash r sessionCookie = Some k \<and> sessions w1 k = Some e \<and> clock w1 (ticks w1) < se_Expires e \<and> earned m w0 tr k"
proof -
  obtain k e where "cookie_hash r sessionCookie = Some k" "sessions w1 k = Some e" "clock w1 (ticks w1) < se_Expires e"
    using assms(3) by (auto simp: authenticated_def sessionForRequest_def cookie_hash_def split: option.splits if_splits)
  with sqlite_auth.run_earned [OF assms(2) New_fresh(1) [OF assms(1)] New_fresh(2) [OF assms(1)]] show ?thesis by blast
qed

section \<open>Witness\<close>

text \<open>A library with one kind of credential, a store that holds one, and a login.\<close>

definition sample_webauthn :: "((unit, unit) auth_world, unit, unit) WebAuthn" where
  "sample_webauthn =
     \<lparr>wa_BeginRegistration = (\<lambda>_ _. Inr (Inr [], ())), wa_FinishRegistration = (\<lambda>_ _ _ _. Inr ()),
      wa_BeginLogin = (\<lambda>_ _. Inr (Inr [], ())), wa_FinishLogin = (\<lambda>_ _ _ _. Inr ()), wa_CredentialID = (\<lambda>_. ''id''),
      wa_MarshalCredentials = (\<lambda>_. Inr ''[1]''), wa_UnmarshalCredentials = (\<lambda>_. Inr [()])\<rparr>"

definition sample_auth_config :: AuthConfig where
  "sample_auth_config = \<lparr>RPID = ''ivpn.internal'', Origin = ''https://ivpn.internal'', BootstrapToken = replicate 32 CHR ''t'',
     SessionTTL = 0, DevMode = False\<rparr>"

definition sample_auth_world :: "(unit, unit) auth_world" where
  "sample_auth_world =
     \<lparr>entropy = replicate 512 CHR 0x07, clock = (\<lambda>_. y2000), ticks = 0,
      db = empty_db\<lparr>t_auth := Some \<lparr>au_user_id = ''user'', au_credentials = ''[1]'', au_updated_at = 0\<rparr>\<rparr>,
      faults = [], states = (\<lambda>_. None), mg_user = \<lparr>user_ID = [], Credentials = []\<rparr>, sessions = (\<lambda>_. None),
      ceremonies = (\<lambda>_. None), recoveryHash = [], recoverySet = False, recoveryFails = []\<rparr>"

definition sample_manager_auth :: "((unit, unit) auth_world, unit, unit) Manager" where
  "sample_manager_auth =
     \<lparr>mg_wa = sample_webauthn, mg_store = SQLite_StateStore \<lparr>sealer = None\<rparr>, bootstrapHash = sha256 (replicate 32 CHR ''t''),
      secureCookies = True, sessionTTL = 15 * Minute, devMode = False, devCSRF = b64_encode_raw (replicate 24 CHR 0x07)\<rparr>"

definition sample_request :: "string \<Rightarrow> server_request" where
  "sample_request name =
     \<lparr>sq_method = ''POST'', sq_path = [], sq_query = [], sq_query_err = None,
      sq_header = (\<lambda>k. if k = ''X-Csrf-Token'' then b64_encode_raw (replicate 24 CHR 0x07) else []),
      sq_cookies = [(name, b64_encode_raw (replicate 32 CHR 0x07))], sq_post = NoForm None, sq_limit = None, sq_form = None\<rparr>"

lemma SQLite_StateStore_simps [simp]:
  "ss_LoadAuthState (SQLite_StateStore s) = LoadAuthState s" "ss_SaveAuthState (SQLite_StateStore s) = SaveAuthState s"
  "ss_LoadRecoveryHash (SQLite_StateStore s) = LoadRecoveryHash s" "ss_SaveRecoveryHash (SQLite_StateStore s) = SaveRecoveryHash s"
  by (simp_all add: SQLite_StateStore_def)

lemma sample_origin: "map_option (\<lambda>u. (Scheme u, Host u)) (URL_Parse ''https://ivpn.internal'') = Some (''https'', ''ivpn.internal'')"
  by code_simp

lemma sample_auth_new:
  "\<exists>w0. New (\<lambda>_ _. Inr sample_webauthn) (SQLite_StateStore \<lparr>sealer = None\<rparr>) sample_auth_config sample_auth_world = (Inr sample_manager_auth, w0) \<and>
     Credentials (mg_user w0) = [()] \<and> entropy w0 = replicate 488 CHR 0x07 \<and> faults w0 = [] \<and> clock w0 = (\<lambda>_. y2000)"
proof -
  obtain u where u: "URL_Parse ''https://ivpn.internal'' = Some u" "Scheme u = ''https''" "Host u = ''ivpn.internal''"
    using sample_origin by auto
  show ?thesis
    by (simp add: New_def sample_auth_config_def u Let_def fresh_manager_def randomToken_def sample_auth_world_def load_def loadRecovery_def
        LoadAuthState_def LoadRecoveryHash_def load_sealed_def query_def sql_def empty_db_def
        sample_webauthn_def sample_manager_auth_def)
qed

text \<open>The two requests of a login: the tokens of the ceremony are the next ones of the random source.\<close>

lemma sample_auth_login:
  assumes "Credentials (mg_user w0) = [()]" "entropy w0 = replicate 488 CHR 0x07" "faults w0 = []" "clock w0 = (\<lambda>_. y2000)"
  shows "\<exists>(p1 :: unit reply) w1 (p2 :: unit reply) w2 w3. Routes sample_manager_auth LoginBegin (sample_request []) w0 = (p1, w1) \<and>
     Routes sample_manager_auth LoginFinish (sample_request ceremonyCookie) w1 = (p2, w2) \<and>
     authenticated (sample_request sessionCookie) w2 = (True, w3)"
proof -
  let ?t = "sha256 (replicate 32 CHR 0x07)" and ?c = "b64_encode_raw (replicate 24 CHR 0x07)"
  obtain p1 :: "unit reply" and w1 where l1: "loginBegin sample_manager_auth (sample_request []) w0 = (p1, w1)"
    and w1: "entropy w1 = replicate 432 CHR 0x07" "clock w1 = (\<lambda>_. y2000)" "faults w1 = []"
      "ceremonies w1 ?t = Some \<lparr>ce_Kind = ''login'', ce_Expires = y2000 + 5 * Minute, ce_CSRF = ?c, ce_Session = (), ce_Bootstrap = False\<rparr>"
    using assms
    by (simp add: loginBegin_def HasPasskeys_def CredentialCount_def sample_manager_auth_def sample_webauthn_def beginCeremony_def
        randomTokenWithHash_def randomToken_def add_ceremony_def purgeLocked_def Let_def)
  have "\<exists>(p2 :: unit reply) w2 w3. loginFinish sample_manager_auth (sample_request ceremonyCookie) w1 = (p2, w2) \<and>
      authenticated (sample_request sessionCookie) w2 = (True, w3)"
    using w1
    by (simp add: loginFinish_def consumeCeremony_def sample_request_def Cookie_def ceremonyCookie_def sessionCookie_def RawURL_roundtrip
        take_ceremony_def sample_manager_auth_def sample_webauthn_def finish_login_def persistLocked_def SaveAuthState_def exec_def sql_def
        issueSession_def randomTokenWithHash_def randomToken_def add_session_def purgeLocked_def authenticated_def sessionForRequest_def Let_def ebind_ok)
  then show ?thesis using l1 by auto
qed

theorem session_traceback_witness:
  "\<exists>w0 tr w1 k. New (\<lambda>_ _. Inr sample_webauthn) (SQLite_StateStore \<lparr>sealer = None\<rparr>) sample_auth_config sample_auth_world =
       (Inr sample_manager_auth, w0) \<and>
     auth_run sample_manager_auth w0 (tr :: (auth_route \<times> server_request \<times> unit reply) list) w1 \<and> earned sample_manager_auth w0 tr k"
proof -
  obtain w0 where n: "New (\<lambda>_ _. Inr sample_webauthn) (SQLite_StateStore \<lparr>sealer = None\<rparr>) sample_auth_config sample_auth_world =
       (Inr sample_manager_auth, w0)" "Credentials (mg_user w0) = [()]" "entropy w0 = replicate 488 CHR 0x07" "faults w0 = []" "clock w0 = (\<lambda>_. y2000)"
    using sample_auth_new by blast
  obtain p1 w1 and p2 :: "unit reply" and w2 w3 where l:
      "Routes sample_manager_auth LoginBegin (sample_request []) w0 = (p1 :: unit reply, w1)"
      "Routes sample_manager_auth LoginFinish (sample_request ceremonyCookie) w1 = (p2, w2)"
      "authenticated (sample_request sessionCookie) w2 = (True, w3)"
    using sample_auth_login [OF n(2-5)] by blast
  have run: "auth_run sample_manager_auth w0
      (([] @ [(LoginBegin, sample_request [], p1)]) @ [(LoginFinish, sample_request ceremonyCookie, p2)]) w2"
    by (rule auth_run.request [OF auth_run.request [OF auth_run.start l(1)] l(2)])
  from session_traceback [OF n(1) run l(3)] show ?thesis using n(1) run by blast
qed

end
