(* ===== verification/Auth_Frame.thy ===== *)
theory Auth_Frame
  imports Auth_Props
begin

text \<open>
  The frame of the manager's handlers. The locale \<open>manager_steps\<close> takes a preorder on worlds that is respected
  by the ambient reads, by every update of the manager's fields outside recovery, and by the two operations that save;
  every handler but the recovery login then stays within it. \<open>manager_relation\<close> adds the record of failed attempts and
  covers every handler. They are used for the agreement of memory and store on the recovery code, for the interleavings
  of recovery attempts, and for what the handlers leave alone.
\<close>

locale manager_steps =
  fixes m :: "(('c, 's, 'z) auth_world_scheme, 'c, 's) Manager"
    and R :: "('c, 's, 'z) auth_world_scheme \<Rightarrow> ('c, 's, 'z) auth_world_scheme \<Rightarrow> bool"
  assumes R_reflp: "reflp R" and R_transp: "transp R"
    and R_ticks: "R w (w\<lparr>ticks := n\<rparr>)" and R_entropy: "R w (w\<lparr>entropy := e\<rparr>)"
    and R_user: "R w (w\<lparr>mg_user := u\<rparr>)" and R_sessions: "R w (w\<lparr>sessions := b\<rparr>)" and R_ceremonies: "R w (w\<lparr>ceremonies := d\<rparr>)"
    and R_rotate: "moves R (rotateRecoveryCode m)" and R_persist: "moves R (persistLocked m)"
begin

lemmas R_seq = moves_sbind [OF R_transp] moves_ebind [OF R_transp] moves_on_error [OF R_transp] moves_wrap_err
  moves_return [OF R_reflp] moves_ite moves_if

lemma R_trans: "R u v \<Longrightarrow> R v w \<Longrightarrow> R u w"
  using R_transp by (rule transpD)

lemma R_refl: "R w w"
  using R_reflp by (rule reflpD)

lemma R_update: "(\<And>w. R w (g w)) \<Longrightarrow> moves R (\<lambda>w. (c w, g w))"
  by (simp add: moves_def)

lemma R_purge: "R w (purgeLocked nw w)"
  unfolding purgeLocked_def by (rule R_trans [OF R_sessions R_ceremonies])

lemma R_ambient: "moves R (ReadFull n)" "moves R now" "moves R time_Now"
  by (auto simp: moves_def ReadFull_def time_Now_def R_refl R_entropy R_ticks)

lemma R_tokens: "moves R (randomToken n)" "moves R (randomTokenWithHash n)"
  unfolding randomToken_def randomTokenWithHash_def by (intro R_seq R_ambient)+

lemma R_issueSession: "moves R (issueSession m)"
  unfolding issueSession_def add_session_def Let_def
  by (auto intro!: R_seq R_tokens R_ambient R_update R_sessions R_purge)

lemma R_sessionForRequest: "moves R (sessionForRequest r)"
  by (auto simp: moves_def sessionForRequest_def R_refl R_ticks split: option.split)

lemma R_reads: "moves R (authenticated r)" "moves R (CSRFToken m r)" "moves R (ValidateCSRF m r)" "moves R (may_register m b r)"
proof -
  have s: "R w (snd (sessionForRequest r w))" for w using R_sessionForRequest by (simp add: moves_def)
  show a: "moves R (authenticated r)" by (simp add: moves_def authenticated_def Let_def case_prod_beta s)
  show c: "moves R (CSRFToken m r)" by (simp add: moves_def CSRFToken_def Let_def case_prod_beta s R_refl)
  show "moves R (ValidateCSRF m r)" using c by (simp add: moves_def ValidateCSRF_def Let_def case_prod_beta)
  show "moves R (may_register m b r)" unfolding may_register_def by (intro R_seq a)
qed

lemma R_consumeCeremony: "moves R (consumeCeremony r kind)"
proof -
  have "moves R (take_ceremony h)" for h by (simp add: moves_def take_ceremony_def R_ceremonies)
  then show ?thesis
    unfolding consumeCeremony_def by (auto intro!: R_seq R_update R_ticks split: option.split)
qed

lemma R_finish: "moves R (finish_registration m d r)" "moves R (finish_login m d r)"
  unfolding finish_registration_def finish_login_def by (intro R_seq R_persist R_update R_user R_refl)+

lemma R_beginCeremony: "moves R (beginCeremony m kind d b options)"
proof -
  have "R w (snd (add_ceremony token entry w))" for token entry w
    unfolding add_ceremony_def Let_def snd_conv by (intro R_trans [OF R_trans [OF R_purge R_ceremonies] R_ticks])
  then have "moves R (add_ceremony token entry)" for token entry by (simp add: moves_def)
  then show ?thesis unfolding beginCeremony_def by (auto intro!: R_seq R_tokens)
qed

lemma R_registerFinish: "moves R (registerFinish m r)"
  unfolding registerFinish_def
  by (intro moves_sbind [OF R_transp] R_consumeCeremony)
    (auto intro!: R_seq R_reads R_finish R_rotate R_issueSession split: option.split)

lemma other_Routes_move:
  assumes "route \<noteq> Recovery"
  shows "moves R (Routes m route r)"
proof (cases route)
  case RegisterBegin
  show ?thesis
    unfolding RegisterBegin Routes.simps registerBegin_def [abs_def] Let_def
    by (rule moves_at [where g = "\<lambda>w. CredentialCount w = 0"], intro moves_sbind [OF R_transp] R_reads, split option.split)
      (auto intro!: moves_case moves_return [OF R_reflp] R_beginCeremony split: prod.split)
next
  case LoginBegin
  show ?thesis
    unfolding LoginBegin Routes.simps loginBegin_def [abs_def]
    by (intro moves_ite moves_case moves_return [OF R_reflp]) (auto simp: R_beginCeremony)
next
  case LoginFinish
  show ?thesis
    unfolding LoginFinish Routes.simps loginFinish_def
    by (auto intro!: R_seq R_consumeCeremony R_finish R_issueSession split: option.split)
next
  case RecoveryRotate
  have "moves R (if devMode m then Pair True else authenticated r)" by (intro moves_if R_reads moves_return [OF R_reflp])
  then show ?thesis
    unfolding RecoveryRotate Routes.simps recoveryRotate_def
    by (intro moves_sbind [OF R_transp]) (auto intro!: R_seq R_reads R_rotate split: prod.split)
next
  case Logout
  have "moves R (delete_session h)" for h by (simp add: moves_def delete_session_def R_sessions)
  then show ?thesis
    unfolding Logout Routes.simps logout_def by (auto intro!: R_seq split: option.split)
qed (use assms in \<open>simp_all add: R_registerFinish\<close>)

end

locale manager_relation = manager_steps +
  assumes R_fails: "R w (w\<lparr>recoveryFails := f\<rparr>)"
begin

lemma R_recoveryLogin: "moves R (recoveryLogin m r)"
proof -
  have "moves R (allowRecoveryAttempt nw)" "moves R (recordRecoveryFailure nw)" for nw
    by (simp_all add: moves_def allowRecoveryAttempt_def recordRecoveryFailure_def Let_def R_fails)
  then show ?thesis
    unfolding recoveryLogin_def [abs_def] by (intro R_seq R_ambient R_rotate R_issueSession)
qed

theorem Routes_moves: "moves R (Routes m route r)"
  by (cases "route = Recovery") (simp_all add: R_recoveryLogin other_Routes_move)

end

end
