(* ===== verification/Auth_Recovery.thy ===== *)
theory Auth_Recovery
  imports Auth_Frame
begin

text \<open>
  Recovery codes, with the handlers running one after another: what a successful use changes, that the code a
  restarted process accepts is the one the running process accepts, and one case in which the credentials in memory
  run ahead of the stored ones. What changes when handlers run at the same time is in \<open>Auth_Concurrency\<close>.
\<close>

section \<open>Use of a code\<close>

definition code_of :: "server_request \<Rightarrow> string" where
  "code_of r = sq_header r ''X-Recovery-Code''"

lemma http_Error_status [simp]: "rp_status (http_Error message code) = code"
  by (simp add: http_Error_def)

context auth_store
begin

lemma rotate_outcome:
  assumes "mg_store m = st" and "rotateRecoveryCode m w = (res, w')"
  shows "case res of
      Inl e \<Rightarrow> mgr w' = mgr w \<and> stored_recovery w' = stored_recovery w
    | Inr code \<Rightarrow> code = ''ivpn-recovery-'' @ b64_encode_raw (take 32 (entropy w)) \<and> 32 \<le> length (entropy w) \<and>
        recoverySet w' \<and> recoveryHash w' = sha256 code \<and> stored_recovery w' = Some (sha256 code) \<and> recoveryFails w' = [] \<and>
        mg_user w' = mg_user w \<and> sessions w' = sessions w \<and> ceremonies w' = ceremonies w"
proof (cases "32 \<le> length (entropy w)")
  case False
  then show ?thesis using assms(2) stored_ambient(2)
    by (auto simp: rotateRecoveryCode_def rotate_save_def rotate_install_def randomToken_def ReadFull_def ebind_def mgr_def ambient_free_def split: if_splits)
next
  case True
  define code where "code = ''ivpn-recovery-'' @ b64_encode_raw (take 32 (entropy w))"
  define w1 where "w1 = w\<lparr>entropy := drop 32 (entropy w), ticks := Suc (ticks w)\<rparr>"
  have w1: "mgr w1 = mgr w" "stored_recovery w1 = stored_recovery w"
    using stored_ambient(2) by (simp_all add: w1_def mgr_def ambient_free_def)
  have e: "rotateRecoveryCode m w = ebind (ss_SaveRecoveryHash st (sha256 code) (clock w (ticks w))) (\<lambda>_ w.
        (Inr code, w\<lparr>recoveryHash := sha256 code, recoverySet := True, recoveryFails := []\<rparr>)) w1"
    using True assms(1)
    by (simp add: rotateRecoveryCode_def rotate_save_def rotate_install_def randomToken_def code_def w1_def Let_def)
      (simp add: ebind_def ok_def split: prod.split sum.split)
  obtain r w2 where s: "ss_SaveRecoveryHash st (sha256 code) (clock w (ticks w)) w1 = (r, w2)" by fastforce
  have w2: "mgr w2 = mgr w" using keepsD [OF store_keeps_mgr(4) s] w1 by simp
  show ?thesis
  proof (cases r)
    case (Inl err)
    then show ?thesis using e s assms(2) w2 save_recovery_failed [OF s [unfolded Inl]] w1 by auto
  next
    case (Inr u)
    then have "res = Inr code" "w' = w2\<lparr>recoveryHash := sha256 code, recoverySet := True, recoveryFails := []\<rparr>"
      using e s assms(2) by simp_all
    then show ?thesis
      using True w2 save_recovery [OF s [unfolded Inr]] by (simp add: code_def mgr_def stored_recovery_mgr)
  qed
qed

text \<open>Memory and store agree on the recovery code: every step keeps it so.\<close>

definition rec_view :: "('c, 's, 'z) auth_world_scheme \<Rightarrow> bool \<times> bytes \<times> bytes option" where
  "rec_view w = (recoverySet w, recoveryHash w, stored_recovery w)"

definition in_step :: "('c, 's, 'z) auth_world_scheme \<Rightarrow> bool" where
  "in_step w \<longleftrightarrow> stored_recovery w = (if recoverySet w then Some (recoveryHash w) else None)"

definition stays_in_step :: "('c, 's, 'z) auth_world_scheme \<Rightarrow> ('c, 's, 'z) auth_world_scheme \<Rightarrow> bool" where
  "stays_in_step w w' \<longleftrightarrow> (in_step w \<longrightarrow> in_step w')"

lemma stays_preorder: "reflp stays_in_step" "transp stays_in_step"
  by (auto simp: stays_in_step_def reflp_def transp_def)

lemma leaves_stays: "leaves rec_view h \<Longrightarrow> moves stays_in_step h"
  by (auto simp: leaves_def moves_def stays_in_step_def in_step_def rec_view_def)

lemma rec_view_ambient: "ambient_free rec_view"
  using stored_ambient(2) by (simp add: ambient_free_def rec_view_def)

lemma rec_view_updates [simp]:
  "rec_view (w\<lparr>sessions := b\<rparr>) = rec_view w" "rec_view (w\<lparr>ceremonies := d\<rparr>) = rec_view w" "rec_view (w\<lparr>mg_user := a\<rparr>) = rec_view w"
  "rec_view (w\<lparr>ticks := n\<rparr>) = rec_view w" "rec_view (w\<lparr>recoveryFails := f\<rparr>) = rec_view w"
proof -
  have "w\<lparr>recoveryFails := f\<rparr> = w\<lparr>recoveryHash := recoveryHash w, recoverySet := recoverySet w, recoveryFails := f\<rparr>" by simp
  then have "stored_recovery (w\<lparr>recoveryFails := f\<rparr>) = stored_recovery w" by (metis stored_recovery_mgr(4))
  then show "rec_view (w\<lparr>recoveryFails := f\<rparr>) = rec_view w" by (simp add: rec_view_def)
qed (use rec_view_ambient in \<open>simp_all add: rec_view_def stored_recovery_mgr ambient_free_def\<close>)

lemma rotate_stays: "mg_store m = st \<Longrightarrow> moves stays_in_step (rotateRecoveryCode m)"
proof -
  assume m: "mg_store m = st"
  have "stays_in_step w w'" if "rotateRecoveryCode m w = (res, w')" for w res w'
    using rotate_outcome [OF m that] by (cases res) (auto simp: stays_in_step_def in_step_def mgr_def)
  then show ?thesis by (metis moves_def prod.collapse)
qed

lemma persist_leaves:
  assumes "mg_store m = st"
  shows "leaves rec_view (persistLocked m)"
proof -
  have "keeps rec_view (ss_SaveAuthState st u c t)" for u c t
    using keeps_mgr(4,5) [OF store_keeps_mgr(2) [of u c t]] save_keeps(1) [of u c t] by (simp add: keeps_def rec_view_def)
  then have "keeps rec_view (ebind (lift enc) (\<lambda>encoded. ebind now (\<lambda>nw. ss_SaveAuthState (mg_store m) u encoded nw)))" for enc u
    unfolding assms by (intro keeps_ebind keeps_lift keeps_now rec_view_ambient)
  then show ?thesis by (simp add: leaves_def keeps_def persistLocked_def)
qed

lemma Routes_stay:
  assumes "mg_store m = st"
  shows "moves stays_in_step (Routes m route r)"
proof -
  have u: "stays_in_step w w'" if "rec_view w' = rec_view w" for w w'
    using that by (auto simp: stays_in_step_def in_step_def rec_view_def)
  have "manager_relation m stays_in_step"
    by (unfold_locales, fact stays_preorder(1), fact stays_preorder(2))
      (use rec_view_ambient rotate_stays [OF assms] leaves_stays [OF persist_leaves [OF assms]] in \<open>auto intro!: u simp: ambient_free_def\<close>)
  then show ?thesis by (rule manager_relation.Routes_moves)
qed

lemma New_in_step:
  assumes "New webauthn_New st cfg w = (Inr m, w0)"
  shows "in_step w0" and "stored_recovery w0 = stored_recovery w" and "mg_store m = st"
proof -
  define w1 where "w1 = (snd (fresh_manager w))\<lparr>entropy := drop 24 (entropy w)\<rparr>"
  obtain w2 where l: "load st (mg_wa m) w1 = (Inr (), w2)" "loadRecovery st w2 = (Inr (), w0)" and m: "mg_store m = st"
    using New_parts [OF assms] unfolding w1_def by blast
  have "stored_recovery (snd (fresh_manager w)) =
      stored_recovery (w\<lparr>mg_user := \<lparr>user_ID = [], Credentials = []\<rparr>, sessions := (\<lambda>_. None), ceremonies := (\<lambda>_. None)\<rparr>)"
    by (simp only: fresh_manager_def snd_conv stored_recovery_mgr(4))
  then have e: "stored_recovery w1 = stored_recovery w" "recoverySet w1 = False"
    using stored_ambient(2) by (simp_all add: w1_def ambient_free_def stored_recovery_mgr fresh_manager_def)
  have two: "recoverySet w2 = recoverySet w1" "stored_recovery w2 = stored_recovery w1"
    using l(1) keepsD [OF keeps_mgr(5) [OF store_keeps_mgr(1)]] keepsD [OF load_keeps(2)] stored_ambient(2)
    by (auto simp: load_def ebind_eq_Inr ReadFull_eq_Inr stored_recovery_mgr ambient_free_def split: option.splits)
  obtain r w3 where lr: "ss_LoadRecoveryHash st w2 = (Inr r, w3)" using l(2) by (auto simp: loadRecovery_def ebind_eq_Inr)
  have three: "r = stored_recovery w2" "recoverySet w3 = recoverySet w2" "stored_recovery w3 = stored_recovery w2"
    using load_recovery [OF lr] keepsD [OF keeps_mgr(5) [OF store_keeps_mgr(3)] lr] keepsD [OF load_keeps(4) lr] by simp_all
  have upd: "stored_recovery (w3\<lparr>recoveryHash := h, recoverySet := True\<rparr>) = stored_recovery w3" for h
    using stored_recovery_mgr(4) [where w = w3 and h = h and i = True and j = "recoveryFails w3"] by simp
  have "in_step w0 \<and> stored_recovery w0 = stored_recovery w2"
  proof (cases r)
    case None
    then show ?thesis using l(2) lr three two(1) e(2) by (simp add: loadRecovery_def in_step_def)
  next
    case (Some h)
    then have "w0 = w3\<lparr>recoveryHash := h, recoverySet := True\<rparr>" using l(2) lr by (auto simp: loadRecovery_def ebind_eq_Inr split: if_splits)
    then show ?thesis using Some three upd by (simp add: in_step_def)
  qed
  then show "in_step w0" "stored_recovery w0 = stored_recovery w" "mg_store m = st" using two e m by simp_all
qed

lemma in_step_valid: "in_step w \<Longrightarrow> validRecoveryCode c w \<longleftrightarrow> stored_recovery w = Some (sha256 c)"
  by (auto simp: in_step_def validRecoveryCode_def)

lemma recoveryLogin_success:
  assumes "mg_store m = st" and "recoveryLogin m r w = (p, w')" and "rp_status p = 200"
  shows "validRecoveryCode (code_of r) w"
    and "\<exists>fresh. rp_body p = JSON_Body (JObj [(''recoveryCode'', JStr fresh)]) \<and> recoverySet w' \<and> recoveryHash w' = sha256 fresh \<and>
      fresh = ''ivpn-recovery-'' @ b64_encode_raw (take 32 (entropy w))"
proof -
  let ?w1 = "w\<lparr>ticks := Suc (ticks w), recoveryFails := filter (\<lambda>f. f > clock w (ticks w) - 15 * Minute) (recoveryFails w)\<rparr>"
  have val: "validRecoveryCode (code_of r) w"
    and tail: "on_error (rotateRecoveryCode m) (\<lambda>_. respond (http_Error ''recovery code rotation failed'' 500)) (\<lambda>replacement.
      on_error (issueSession m) (\<lambda>_. respond (http_Error ''could not create recovery session'' 500)) (\<lambda>c.
      respond (with_cookie c (writeRecoveryCode replacement)))) ?w1 = (p, w')"
    using assms(2,3)
    by (auto simp: recoveryLogin_def time_Now_def allowRecoveryAttempt_def recordRecoveryFailure_def validRecoveryCode_def code_of_def
        sbind_def Let_def split: if_splits)
  show "validRecoveryCode (code_of r) w" by (fact val)
  obtain res w2 where rot: "rotateRecoveryCode m ?w1 = (res, w2)" by fastforce
  then obtain fresh where f: "res = Inr fresh" using tail assms(3) by (cases res) auto
  obtain res2 w3 where iss: "issueSession m w2 = (res2, w3)" by fastforce
  then obtain c where "res2 = Inr c" using tail assms(3) rot f by (cases res2) auto
  then have pw: "p = with_cookie c (writeRecoveryCode fresh)" "w' = w3" using tail rot f iss by simp_all
  have k: "keeps recoverySet (issueSession m)" "keeps recoveryHash (issueSession m)"
    unfolding issueSession_def add_session_def randomTokenWithHash_def randomToken_def Let_def
    by (auto intro!: keeps_ebind keeps_update keeps_ReadFull keeps_now simp: purgeLocked_def)
  show "\<exists>fresh. rp_body p = JSON_Body (JObj [(''recoveryCode'', JStr fresh)]) \<and> recoverySet w' \<and> recoveryHash w' = sha256 fresh \<and>
      fresh = ''ivpn-recovery-'' @ b64_encode_raw (take 32 (entropy w))"
    using rotate_outcome [OF assms(1) rot] f pw keepsD [OF k(1) iss] keepsD [OF k(2) iss]
    by (auto simp: with_cookie_def writeRecoveryCode_def json_reply_def)
qed

end

section \<open>Lifecycle of the recovery code\<close>

text \<open>Requests to the manager's routes, one after another.\<close>

fun run_routes :: "(('c, 's, 'z) auth_world_scheme, 'c, 's) Manager \<Rightarrow> (auth_route \<times> server_request) list \<Rightarrow>
    ('c, 's, 'z) auth_world_scheme \<Rightarrow> ('c, 's, 'z) auth_world_scheme" where
  "run_routes m [] w = w"
| "run_routes m ((route, r) # rest) w = run_routes m rest (snd (Routes m route r w :: unit reply \<times> _))"

context auth_store
begin

lemma run_routes_in_step: "mg_store m = st \<Longrightarrow> in_step w \<Longrightarrow> in_step (run_routes m reqs w)"
proof (induction reqs arbitrary: w)
  case (Cons x reqs)
  obtain route r where x: "x = (route, r)" by fastforce
  have "moves stays_in_step (Routes m route r :: _ \<Rightarrow> unit reply \<times> _)" by (rule Routes_stay [OF Cons.prems(1)])
  then have "in_step (snd (Routes m route r w :: unit reply \<times> _))" using Cons.prems(2) by (simp add: moves_def stays_in_step_def)
  then show ?case using Cons x by simp
qed simp

end

text \<open>
  C29: lifecycle of the recovery code, for handlers that run one after another. At every point of a run of the
  manager over the SQLite store, the codes it accepts are exactly those whose hash is stored, so a process restarted on the store accepts exactly the
  same codes. A recovery that succeeds presented such a code; its reply carries the fresh code, and
  from then on exactly codes with the hash of the fresh one are accepted, so the used code is
  void unless the two collide.
\<close>

theorem recovery_code_lifecycle:
  assumes "New webauthn_New (SQLite_StateStore s) cfg w = (Inr m, w0)"
  shows "(\<forall>c. validRecoveryCode c (run_routes m reqs w0) \<longleftrightarrow> sqlite_recovery s (run_routes m reqs w0) = Some (sha256 c)) \<and>
    (\<forall>wn cfg2 m2 w2. New wn (SQLite_StateStore s) cfg2 (run_routes m reqs w0) = (Inr m2, w2) \<longrightarrow>
       (\<forall>c. validRecoveryCode c w2 \<longleftrightarrow> validRecoveryCode c (run_routes m reqs w0))) \<and>
    (\<forall>r p w2. recoveryLogin m r (run_routes m reqs w0) = (p, w2) \<and> rp_status p = 200 \<longrightarrow>
       validRecoveryCode (code_of r) (run_routes m reqs w0) \<and>
       (\<exists>fresh. rp_body p = JSON_Body (JObj [(''recoveryCode'', JStr fresh)]) \<and>
          (\<forall>c. validRecoveryCode c w2 \<longleftrightarrow> sha256 c = sha256 fresh)))"
proof -
  note n = sqlite_auth.New_in_step [OF assms]
  let ?w = "run_routes m reqs w0"
  note i = sqlite_auth.run_routes_in_step [OF n(3,1)]
  note v = sqlite_auth.in_step_valid
  have "validRecoveryCode c w2 \<longleftrightarrow> validRecoveryCode c ?w" if "New wn (SQLite_StateStore s) cfg2 ?w = (Inr m2, w2)" for wn cfg2 m2 w2 c
    using v [OF sqlite_auth.New_in_step(1) [OF that]] sqlite_auth.New_in_step(2) [OF that] v [OF i] by simp
  moreover have "validRecoveryCode (code_of r) ?w \<and> (\<exists>fresh. rp_body p = JSON_Body (JObj [(''recoveryCode'', JStr fresh)]) \<and>
      (\<forall>c. validRecoveryCode c w2 \<longleftrightarrow> sha256 c = sha256 fresh))" if "recoveryLogin m r ?w = (p, w2)" "rp_status p = 200" for r p w2
    using sqlite_auth.recoveryLogin_success [OF n(3) that] by (auto simp: validRecoveryCode_def)
  ultimately show ?thesis using v [OF i] by blast
qed

section \<open>Credentials in memory and in the store\<close>

lemma persist_keeps_user:
  assumes "mg_store m = SQLite_StateStore s"
  shows "keeps mg_user (persistLocked m)"
proof -
  have "keeps mg_user (ebind (lift enc) (\<lambda>encoded. ebind now (\<lambda>nw. ss_SaveAuthState (mg_store m) u encoded nw)))" for enc u
    unfolding assms by (intro keeps_ebind keeps_now keeps_lift ambient_free_manager keeps_mgr(1) [OF sqlite_auth.store_keeps_mgr(2)])
  then show ?thesis by (simp add: keeps_def persistLocked_def)
qed

text \<open>
  \<open>registerFinish\<close> appends the credential before it is saved and does not take it back: when the save fails, the
  reply reports a failed registration, yet the credential is in the list that logins are verified against.
\<close>

lemma unsaved_credential_stays:
  assumes "consumeCeremony r ''register'' w = (Some entry, w1)" and "may_register m (ce_Bootstrap entry) r w1 = (None, w2)"
    and "wa_FinishRegistration (mg_wa m) (mg_user w2) (ce_Session entry) r w2 = Inr c"
    and "persistLocked m (w2\<lparr>mg_user := (mg_user w2)\<lparr>Credentials := Credentials (mg_user w2) @ [c]\<rparr>\<rparr>) = (Inl e, w3)"
    and "mg_store m = SQLite_StateStore s" and "registerFinish m r w = (p, w')"
  shows "rp_status p = 400 \<and> Credentials (mg_user w') = Credentials (mg_user w) @ [c]"
proof -
  let ?w = "w2\<lparr>mg_user := (mg_user w2)\<lparr>Credentials := Credentials (mg_user w2) @ [c]\<rparr>\<rparr>"
  have "finish_registration m (ce_Session entry) r w2 = (Inl e, w3)"
    using assms(3,4) by (simp add: finish_registration_def)
  then have "p = http_Error ''passkey registration verification failed'' 400" "w' = w3"
    using assms(1,2,6) by (simp_all add: registerFinish_def)
  moreover have "mg_user w3 = mg_user ?w" by (rule keepsD [OF persist_keeps_user [OF assms(5)] assms(4)])
  moreover have "mg_user w2 = mg_user w"
    using may_register_None(2) [OF assms(2)] consumeCeremony_Some(2) [OF assms(1)] by auto
  ultimately show ?thesis by simp
qed

text \<open>
  A bootstrap ceremony begun before the first passkey was registered can be finished after it: the bootstrap token
  alone then adds a further passkey.
\<close>

lemma bootstrap_after_enrolment:
  assumes "consumeCeremony r ''register'' w = (Some entry, w1)" and "ce_Bootstrap entry"
    and "validBootstrap m (sq_header r ''X-Bootstrap-Token'')"
    and "wa_FinishRegistration (mg_wa m) (mg_user w1) (ce_Session entry) r w1 = Inr c"
  shows "may_register m (ce_Bootstrap entry) r w1 = (None, w1)"
    and "\<exists>res w2. finish_registration m (ce_Session entry) r w1 = (res, w2) \<and>
      (mg_store m = SQLite_StateStore s \<longrightarrow> Credentials (mg_user w2) = Credentials (mg_user w) @ [c])"
proof -
  show "may_register m (ce_Bootstrap entry) r w1 = (None, w1)" using assms(2,3) by (simp add: may_register_def)
  let ?w = "w1\<lparr>mg_user := (mg_user w1)\<lparr>Credentials := Credentials (mg_user w1) @ [c]\<rparr>\<rparr>"
  obtain res w2 where p: "persistLocked m ?w = (res, w2)" by fastforce
  have "mg_user w2 = mg_user ?w" if "mg_store m = SQLite_StateStore s"
    by (rule keepsD [OF persist_keeps_user [OF that] p])
  moreover have "finish_registration m (ce_Session entry) r w1 = (res, w2)"
    using assms(4) p by (simp add: finish_registration_def)
  moreover have "mg_user w1 = mg_user w" using consumeCeremony_Some(2) [OF assms(1)] by auto
  ultimately show "\<exists>res w2. finish_registration m (ce_Session entry) r w1 = (res, w2) \<and>
      (mg_store m = SQLite_StateStore s \<longrightarrow> Credentials (mg_user w2) = Credentials (mg_user w) @ [c])" by auto
qed

section \<open>Witnesses\<close>

theorem recovery_code_lifecycle_witness:
  "\<exists>w0. New (\<lambda>_ _. Inr sample_webauthn) (SQLite_StateStore \<lparr>sealer = None\<rparr>) sample_auth_config sample_auth_world =
       (Inr sample_manager_auth, w0) \<and>
     (\<forall>c. validRecoveryCode c w0 \<longleftrightarrow> sqlite_recovery \<lparr>sealer = None\<rparr> w0 = Some (sha256 c))"
proof -
  obtain w0 where n: "New (\<lambda>_ _. Inr sample_webauthn) (SQLite_StateStore \<lparr>sealer = None\<rparr>) sample_auth_config sample_auth_world =
       (Inr sample_manager_auth, w0)"
    using sample_auth_new by blast
  from recovery_code_lifecycle [OF n, of "[]"] show ?thesis using n by auto
qed

end
