(* ===== verification/Web.thy ===== *)
theory Web
  imports Auth_Recovery Service_Props Go_Fmt
begin

text \<open>
  Package \<open>internal/web\<close>, \<open>server.go\<close>: the operator's web interface. A handler returns the reply; a page is
  the data its template is executed with (the HTML templates, the embedded assets and the log are not
  modelled). The service, the authentication manager and the OAuth manager work on one world.
\<close>

section \<open>Types\<close>

text \<open>
  A time zone as \<open>time.Location\<close> is used: the offset in force at a Unix second, with the interval in
  which it is. Its data are the IANA database, so the loader is a parameter.
\<close>

type_synonym location = "int \<Rightarrow> int \<times> int \<times> int"

record 'w WebConfig =
  wc_DryRun :: bool
  wc_Timezone :: string
  wc_XConfigured :: bool
  wc_NostrConfigured :: bool
  wc_XOAuth :: "'w XOAuthManager option"

record ('w, 'c, 's) Server =
  sv_service :: "'w Service"
  sv_auth :: "('w, 'c, 's) Manager"
  sv_config :: "'w WebConfig"
  sv_zone :: location

record countryView =
  cv_Code :: string
  cv_Name :: string
  cv_Status :: string

record dashboardData =
  dd_CSRFToken :: string
  dd_Flash :: string
  dd_DryRun :: bool
  dd_System :: SystemState
  dd_Jobs :: "JobSummary list"
  dd_Audit :: "AuditEvent list"
  dd_Countries :: "countryView list"
  dd_HealthyCountries :: int
  dd_Queued :: nat
  dd_Resolved :: nat
  dd_XStatus :: string
  dd_NostrStatus :: string
  dd_PasskeyCount :: nat
  dd_XOAuthAvailable :: bool

datatype page = LoginPage bool | DashboardPage dashboardData | PreviewPage string Preview | Asset "string list"

type_synonym ('c, 's, 'z) server = "(('c, 's, 'z) auth_world_scheme, 'c, 's) Server"
type_synonym ('c, 's, 'z) web_handler = "(('c, 's, 'z) auth_world_scheme, page) handler"

definition Web_New :: "(string \<Rightarrow> go_error + location) \<Rightarrow> 'w Service \<Rightarrow> ('w, 'c, 's) Manager \<Rightarrow> 'w WebConfig \<Rightarrow> go_error + ('w, 'c, 's) Server" where
  "Web_New LoadLocation service authn cfg =
     (let cfg = (if wc_Timezone cfg = [] then cfg\<lparr>wc_Timezone := ''Europe/Paris''\<rparr> else cfg)
      in case LoadLocation (wc_Timezone cfg) of
           Inl err \<Rightarrow> Inl (Errorf ''load timezone: %w'' [] (Some err))
         | Inr zone \<Rightarrow> Inr \<lparr>sv_service = service, sv_auth = authn, sv_config = cfg, sv_zone = zone\<rparr>)"

section \<open>Messages\<close>

fun Contains :: "string \<Rightarrow> string \<Rightarrow> bool" where
  "Contains [] sub = (sub = [])"
| "Contains (c # s) sub = (HasPrefix (c # s) sub \<or> Contains s sub)"

text \<open>\<open>err.Error()\<close>; none of the errors of the service has the verb \<open>%q\<close>.\<close>

abbreviation Error :: "go_error \<Rightarrow> string" where
  "Error \<equiv> error_text (Quote (\<lambda>_. True))"

definition safeMessage :: "go_error \<Rightarrow> string" where
  "safeMessage err =
     (if errors_Is err ErrInvalidContent \<or> errors_Is err ErrNoDestination \<or> errors_Is err ErrInvalidTransition then Error err
      else if Contains (Error err) ''emergency stop'' \<or> Contains (Error err) ''approval hash'' then Error err
      else ''Request could not be completed'')"

text \<open>The table of \<open>flashCode\<close>, and that of \<open>flashMessage\<close> with its three further rows.\<close>

definition flash_codes :: "(string \<times> string) list" where
  "flash_codes =
     [(''Invalid schedule time'', ''invalid-schedule''),
      (''Exact payload approved and queued'', ''approved''),
      (''Job cancelled'', ''cancelled''),
      (''Manual reconciliation recorded; no resend occurred'', ''reconciled''),
      (''Emergency control failed'', ''emergency-failed''),
      (''Emergency stop cleared'', ''emergency-cleared''),
      (''Emergency stop active'', ''emergency-active''),
      (''X authorization was declined'', ''x-declined''),
      (''X authorization could not be verified'', ''x-auth-failed''),
      (''X connection established through the pinned egress transport'', ''x-connected''),
      (''X token revocation could not be confirmed; local token retained'', ''x-revoke-failed''),
      (''X access revoked and local token deleted'', ''x-revoked'')]"

definition flashCode :: "string \<Rightarrow> string" where
  "flashCode message =
     (case map_of flash_codes message of
        Some code \<Rightarrow> code
      | None \<Rightarrow>
          if Contains message ''approval hash'' then ''approval-rejected''
          else if message = sentinel_text ErrInvalidContent \<or> message = sentinel_text ErrNoDestination \<or>
                  message = sentinel_text ErrInvalidTransition
          then ''invalid-request''
          else ''request-failed'')"

definition flash_messages :: "(string \<times> string) list" where
  "flash_messages =
     [(''invalid-schedule'', ''Invalid schedule time''),
      (''approved'', ''Exact payload approved and queued''),
      (''cancelled'', ''Job cancelled''),
      (''reconciled'', ''Manual reconciliation recorded; no resend occurred''),
      (''emergency-failed'', ''Emergency control failed''),
      (''emergency-cleared'', ''Emergency stop cleared''),
      (''emergency-active'', ''Emergency stop active''),
      (''x-declined'', ''X authorization was declined''),
      (''x-auth-failed'', ''X authorization could not be verified''),
      (''x-connected'', ''X connection established through the pinned egress transport''),
      (''x-revoke-failed'', ''X token revocation could not be confirmed; local token retained''),
      (''x-revoked'', ''X access revoked and local token deleted''),
      (''approval-rejected'', ''Approval rejected because the exact payload hash did not match''),
      (''invalid-request'', ''The request content, destination, or state was invalid''),
      (''request-failed'', ''Request could not be completed'')]"

definition flashMessage :: "string \<Rightarrow> string" where
  "flashMessage code = (case map_of flash_messages code of None \<Rightarrow> [] | Some m \<Rightarrow> m)"

definition redirect_msg :: "server_request \<Rightarrow> string \<Rightarrow> page reply" where
  "redirect_msg r message = http_Redirect r (''/?msg='' @ QueryEscape (flashCode message)) 303"

definition fail_reply :: "nat \<Rightarrow> page reply" where
  "fail_reply status = http_Error (StatusText status) status"

definition page_reply :: "page \<Rightarrow> page reply" where
  "page_reply d = \<lparr>rp_status = 200, rp_header = [(''Cache-Control'', ''no-store'')], rp_cookies = [], rp_body = Page d\<rparr>"

text \<open>The function \<open>stateClass\<close> the templates use.\<close>

fun stateClass :: "JobState \<Rightarrow> string" where
  "stateClass StateComplete = ''status-purple''"
| "stateClass StateApproved = ''status-purple''"
| "stateClass StateFailed = ''status-orange''"
| "stateClass StatePartial = ''status-orange''"
| "stateClass StateUnknown = ''status-orange''"
| "stateClass _ = ''status-neutral''"

section \<open>Pages\<close>

definition health :: "('c, 's, 'z) web_handler" where
  "health r = respond (json_reply (JObj [(''status'', JStr ''ok'')]))"

definition login :: "('c, 's, 'z) web_handler" where
  "login r w = respond (page_reply (LoginPage (HasPasskeys w))) w"

definition defaultCountries :: "countryView list" where
  "defaultCountries =
     [\<lparr>cv_Code = ''FR'', cv_Name = ''France'', cv_Status = ''UNPROVISIONED''\<rparr>,
      \<lparr>cv_Code = ''DE'', cv_Name = ''Germany'', cv_Status = ''UNPROVISIONED''\<rparr>,
      \<lparr>cv_Code = ''GB'', cv_Name = ''United Kingdom'', cv_Status = ''UNPROVISIONED''\<rparr>,
      \<lparr>cv_Code = ''SE'', cv_Name = ''Sweden'', cv_Status = ''UNPROVISIONED''\<rparr>,
      \<lparr>cv_Code = ''CH'', cv_Name = ''Switzerland'', cv_Status = ''UNPROVISIONED''\<rparr>]"

definition resolved_state :: "JobState \<Rightarrow> bool" where
  "resolved_state st \<longleftrightarrow> st \<in> {StateComplete, StateFailed, StateCancelled}"

definition x_connected :: "('c, 's, 'z) server \<Rightarrow> ('c, 's, 'z) auth_world_scheme \<Rightarrow> bool \<times> ('c, 's, 'z) auth_world_scheme" where
  "x_connected sv w =
     (case wc_XOAuth (sv_config sv) of
        None \<Rightarrow> (False, w)
      | Some x \<Rightarrow> (case Connected x w of (Inl _, w') \<Rightarrow> (False, w') | (Inr b, w') \<Rightarrow> (b, w')))"

definition connection_status :: "bool \<Rightarrow> bool \<Rightarrow> string" where
  "connection_status dry configured =
     (if dry then ''DRY-RUN'' else if configured then ''CONFIGURED'' else ''NOT CONFIGURED'')"

definition dashboard :: "('c, 's, 'z) server \<Rightarrow> ('c, 's, 'z) web_handler" where
  "dashboard sv r =
     on_error (Jobs (sv_service sv) 100) (\<lambda>_. respond (fail_reply 500)) (\<lambda>jobs.
     on_error (Audit (sv_service sv) 30) (\<lambda>_. respond (fail_reply 500)) (\<lambda>audit.
     on_error (Service_SystemState (sv_service sv)) (\<lambda>_. respond (fail_reply 500)) (\<lambda>system.
     sbind (x_connected sv) (\<lambda>connected.
     sbind (CSRFToken (sv_auth sv) r) (\<lambda>csrf w.
     let cfg = sv_config sv;
         resolved = length (filter (\<lambda>j. resolved_state (js_state j)) jobs)
     in respond (page_reply (DashboardPage
          \<lparr>dd_CSRFToken = csrf, dd_Flash = flashMessage (Values_Get (sq_query r) ''msg''), dd_DryRun = wc_DryRun cfg,
           dd_System = system, dd_Jobs = jobs, dd_Audit = audit, dd_Countries = defaultCountries, dd_HealthyCountries = 0,
           dd_Queued = length jobs - resolved, dd_Resolved = resolved,
           dd_XStatus = (if connected then ''CONNECTED'' else connection_status (wc_DryRun cfg) (wc_XConfigured cfg)),
           dd_NostrStatus = connection_status (wc_DryRun cfg) (wc_NostrConfigured cfg),
           dd_PasskeyCount = CredentialCount w, dd_XOAuthAvailable = (wc_XOAuth cfg \<noteq> None)\<rparr>)) w)))))"

definition preview :: "('c, 's, 'z) server \<Rightarrow> string \<Rightarrow> ('c, 's, 'z) web_handler" where
  "preview sv jid r =
     on_error (Preview_get (sv_service sv) jid) (\<lambda>_. respond (fail_reply 404)) (\<lambda>pv.
     sbind (CSRFToken (sv_auth sv) r) (\<lambda>csrf. respond (page_reply (PreviewPage csrf pv))))"

text \<open>\<open>json.Encoder\<close> on a job summary; a nil slice of receipts and a nil time are null.\<close>

fun state_text :: "JobState \<Rightarrow> string" where
  "state_text StateDraft = ''DRAFT''"
| "state_text StateApproved = ''APPROVED''"
| "state_text StateRouting = ''ROUTING''"
| "state_text StatePublishing = ''PUBLISHING''"
| "state_text StateComplete = ''COMPLETE''"
| "state_text StatePartial = ''PARTIAL''"
| "state_text StateFailed = ''FAILED''"
| "state_text StateUnknown = ''UNKNOWN''"
| "state_text StateCancelled = ''CANCELLED''"

definition time_json :: "time option \<Rightarrow> json" where
  "time_json t = (case t of None \<Rightarrow> JNull | Some x \<Rightarrow> JStr (FormatRFC3339Nano x))"

definition summary_json :: "JobSummary \<Rightarrow> json" where
  "summary_json j =
     JObj [(''ID'', JStr (js_id j)), (''PayloadHash'', JStr (js_payload_hash j)), (''PostToX'', JBool (js_post_to_x j)),
           (''PostToNostr'', JBool (js_post_to_nostr j)), (''State'', JStr (state_text (js_state j))),
           (''ApprovedAt'', time_json (js_approved_at j)), (''ScheduledAt'', time_json (js_scheduled_at j)),
           (''CreatedAt'', time_json (Some (js_created_at j))), (''UpdatedAt'', time_json (Some (js_updated_at j))),
           (''ContentDestroyed'', JBool (js_content_destroyed j)),
           (''Receipts'', if js_receipts j = [] then JNull else JArr (map receipt_json (js_receipts j)))]"

definition summary_times :: "JobSummary \<Rightarrow> time list" where
  "summary_times j =
     js_created_at j # js_updated_at j # map rc_created_at (js_receipts j) @
     (case js_approved_at j of None \<Rightarrow> [] | Some t \<Rightarrow> [t]) @ (case js_scheduled_at j of None \<Rightarrow> [] | Some t \<Rightarrow> [t])"

text \<open>An encoding error (a year outside 0 to 9999) is dropped, and leaves an empty body.\<close>

definition jobJSON :: "('c, 's, 'z) server \<Rightarrow> string \<Rightarrow> ('c, 's, 'z) web_handler" where
  "jobJSON sv jid r =
     on_error (Jobs (sv_service sv) 500) (\<lambda>_. respond (fail_reply 500)) (\<lambda>jobs.
     case find (\<lambda>j. js_id j = jid) jobs of
       None \<Rightarrow> respond (http_Error ''job not found'' 404)
     | Some j \<Rightarrow>
         respond (if list_all json_year_ok (summary_times j) then json_reply (summary_json j)
                  else (json_reply JNull)\<lparr>rp_body := NoBody\<rparr>))"

section \<open>Actions\<close>

text \<open>\<open>time.ParseInLocation("2006-01-02T15:04", raw, zone)\<close>: the hour may have one digit.\<close>

definition take_hour :: "string \<Rightarrow> (nat \<times> string) option" where
  "take_hour s = (case take_digits 2 s of Some x \<Rightarrow> Some x | None \<Rightarrow> take_digits 1 s)"

text \<open>\<open>time.Date\<close>: the offset is looked up as if the fields were UTC, and again if that leaves its interval.\<close>

definition in_zone :: "location \<Rightarrow> int \<Rightarrow> int" where
  "in_zone zone unix =
     (let (offset, zs, ze) = zone unix
      in if offset = 0 then unix
         else let utc = unix - offset
              in if utc < zs \<or> utc \<ge> ze then unix - fst (zone utc) else utc)"

definition ParseInLocation :: "location \<Rightarrow> string \<Rightarrow> time option" where
  "ParseInLocation zone s =
     Option.bind (take_digits 4 s) (\<lambda>(y, s).
     Option.bind (take_char CHR ''-'' s) (\<lambda>s.
     Option.bind (take_digits 2 s) (\<lambda>(mo, s).
     Option.bind (take_char CHR ''-'' s) (\<lambda>s.
     Option.bind (take_digits 2 s) (\<lambda>(d, s).
     Option.bind (take_char CHR ''T'' s) (\<lambda>s.
     Option.bind (take_hour s) (\<lambda>(h, s).
     Option.bind (take_char CHR '':'' s) (\<lambda>s.
     Option.bind (take_digits 2 s) (\<lambda>(mi, s).
     if s \<noteq> [] \<or> mo < 1 \<or> 12 < mo \<or> d < 1 \<or> month_lens (y mod 400) ! (mo - 1) < d \<or> 24 \<le> h \<or> 60 \<le> mi then None
     else Some (in_zone zone ((day_of_civil (int y) mo d - epoch_day) * 86400 + int (h * 3600 + mi * 60)) * Second))))))))))"

definition form_of :: "server_request \<Rightarrow> string \<Rightarrow> string" where
  "form_of r key = fst (FormValue r key)"

definition createDraft :: "('c, 's, 'z) server \<Rightarrow> ('c, 's, 'z) web_handler" where
  "createDraft sv r0 =
     (let (err, r) = ParseForm (r0\<lparr>sq_limit := Some 65536\<rparr>)
      in case err of
           Some _ \<Rightarrow> respond (fail_reply 400)
         | None \<Rightarrow>
             let raw = form_of r ''scheduled_at''; parsed = ParseInLocation (sv_zone sv) raw
             in if raw \<noteq> [] \<and> parsed = None then respond (redirect_msg r ''Invalid schedule time'')
                else
                  on_error (CreateDraft (sv_service sv)
                    \<lparr>in_content = form_of r ''content'', in_post_to_x = (form_of r ''post_x'' = ''1''),
                     in_post_to_nostr = (form_of r ''post_nostr'' = ''1''),
                     in_scheduled_at = (if raw = [] then None else parsed)\<rparr>)
                  (\<lambda>e. respond (redirect_msg r (safeMessage e))) (\<lambda>job.
                  respond (http_Redirect r (''/drafts/'' @ job_id job @ ''/preview'') 303)))"

definition approve :: "('c, 's, 'z) server \<Rightarrow> string \<Rightarrow> ('c, 's, 'z) web_handler" where
  "approve sv jid r0 =
     (let (err, r) = ParseForm r0
      in case err of
           Some _ \<Rightarrow> respond (fail_reply 400)
         | None \<Rightarrow>
             on_error (Approve (sv_service sv) jid (form_of r ''payload_hash'')) (\<lambda>e. respond (redirect_msg r (safeMessage e))) (\<lambda>_.
             respond (redirect_msg r ''Exact payload approved and queued'')))"

definition cancel :: "('c, 's, 'z) server \<Rightarrow> string \<Rightarrow> ('c, 's, 'z) web_handler" where
  "cancel sv jid r =
     on_error (Cancel (sv_service sv) jid) (\<lambda>e. respond (redirect_msg r (safeMessage e))) (\<lambda>_.
     respond (redirect_msg r ''Job cancelled''))"

definition reconcile :: "('c, 's, 'z) server \<Rightarrow> string \<Rightarrow> ('c, 's, 'z) web_handler" where
  "reconcile sv jid r =
     on_error (Reconcile (sv_service sv) jid) (\<lambda>e. respond (redirect_msg r (safeMessage e))) (\<lambda>_.
     respond (redirect_msg r ''Manual reconciliation recorded; no resend occurred''))"

definition emergencyStop :: "('c, 's, 'z) server \<Rightarrow> ('c, 's, 'z) web_handler" where
  "emergencyStop sv r0 =
     (let (err, r) = ParseForm r0
      in case err of
           Some _ \<Rightarrow> respond (fail_reply 400)
         | None \<Rightarrow>
             let enabled = (form_of r ''enabled'' = ''1'')
             in on_error (EmergencyStop (sv_service sv) enabled ''operator activated emergency stop'')
                  (\<lambda>_. respond (redirect_msg r ''Emergency control failed'')) (\<lambda>_.
                respond (redirect_msg r (if enabled then ''Emergency stop active'' else ''Emergency stop cleared''))))"

definition x_unavailable :: "page reply" where
  "x_unavailable = http_Error ''X OAuth is unavailable until the dedicated France egress transport is ready'' 503"

definition xOAuthStart :: "('c, 's, 'z) server \<Rightarrow> ('c, 's, 'z) web_handler" where
  "xOAuthStart sv r =
     (case wc_XOAuth (sv_config sv) of
        None \<Rightarrow> respond x_unavailable
      | Some x \<Rightarrow>
          sbind (CSRFToken (sv_auth sv) r) (\<lambda>csrf.
          on_error (Begin x csrf) (\<lambda>_. respond (fail_reply 500)) (\<lambda>url. respond (http_Redirect r url 303))))"

definition xOAuthCallback :: "('c, 's, 'z) server \<Rightarrow> ('c, 's, 'z) web_handler" where
  "xOAuthCallback sv r =
     (case wc_XOAuth (sv_config sv) of
        None \<Rightarrow> respond x_unavailable
      | Some x \<Rightarrow>
          if Values_Get (sq_query r) ''error'' \<noteq> [] then respond (redirect_msg r ''X authorization was declined'')
          else
            sbind (CSRFToken (sv_auth sv) r) (\<lambda>csrf.
            on_error (Exchange x (Values_Get (sq_query r) ''state'') csrf (Values_Get (sq_query r) ''code''))
              (\<lambda>_. respond (redirect_msg r ''X authorization could not be verified'')) (\<lambda>_.
            respond (redirect_msg r ''X connection established through the pinned egress transport''))))"

definition revokeConnection :: "('c, 's, 'z) server \<Rightarrow> string \<Rightarrow> ('c, 's, 'z) web_handler" where
  "revokeConnection sv platform r =
     (if platform \<noteq> ''x'' then respond (http_Error ''connection revocation is not implemented for this platform'' 501)
      else case wc_XOAuth (sv_config sv) of
        None \<Rightarrow> respond (http_Error ''X OAuth is not configured'' 503)
      | Some x \<Rightarrow>
          on_error (Revoke x) (\<lambda>_. respond (redirect_msg r ''X token revocation could not be confirmed; local token retained'')) (\<lambda>_.
          respond (redirect_msg r ''X access revoked and local token deleted'')))"

section \<open>Middleware and routes\<close>

definition requireCSRF :: "('c, 's, 'z) server \<Rightarrow> ('c, 's, 'z) web_handler \<Rightarrow> ('c, 's, 'z) web_handler" where
  "requireCSRF sv handler r =
     sbind (ValidateCSRF (sv_auth sv) r) (\<lambda>(valid, r').
     if valid then handler r' else respond (http_Error ''invalid CSRF token'' 403))"

definition requireOperational :: "('c, 's, 'z) server \<Rightarrow> ('c, 's, 'z) web_handler \<Rightarrow> ('c, 's, 'z) web_handler" where
  "requireOperational sv handler r w =
     (if OperationallyReady (sv_auth sv) w then handler r w
      else respond (http_Error ''register two passkeys before enabling publication controls'' 403) w)"

definition security_headers :: "(string \<times> string) list" where
  "security_headers =
     [(''Content-Security-Policy'', ''default-src ''@[CHR 0x27]@''self''@[CHR 0x27]@''; script-src ''@[CHR 0x27]@''self''@[CHR 0x27]@
         ''; style-src ''@[CHR 0x27]@''self''@[CHR 0x27]@''; img-src ''@[CHR 0x27]@''self''@[CHR 0x27]@'' data:; connect-src ''@
         [CHR 0x27]@''self''@[CHR 0x27]@''; object-src ''@[CHR 0x27]@''none''@[CHR 0x27]@''; base-uri ''@[CHR 0x27]@''none''@[CHR 0x27]@
         ''; form-action ''@[CHR 0x27]@''self''@[CHR 0x27]@''; frame-ancestors ''@[CHR 0x27]@''none''@[CHR 0x27]),
      (''Referrer-Policy'', ''no-referrer''),
      (''Permissions-Policy'', ''camera=(), microphone=(), geolocation=(), payment=(), usb=(), browsing-topics=()''),
      (''X-Content-Type-Options'', ''nosniff''), (''X-Frame-Options'', ''DENY''),
      (''Cross-Origin-Opener-Policy'', ''same-origin''), (''Cross-Origin-Resource-Policy'', ''same-origin'')]"

definition securityHeaders :: "('c, 's, 'z) web_handler \<Rightarrow> ('c, 's, 'z) web_handler" where
  "securityHeaders handler r =
     sbind (handler r) (\<lambda>p. respond (p\<lparr>rp_header := security_headers @ rp_header p\<rparr>))"

datatype protected_route =
    Dashboard | CreateDraftR | PreviewR string | ApproveR string | CancelR string | ReconcileR string | JobR string
  | OAuthStartR | OAuthCallbackR | RevokeR string | EmergencyStopR

text \<open>
  The patterns of the protected mux: a GET pattern also serves HEAD, \<open>GET /\<close> every path without a more
  specific pattern, and a wildcard one non-empty segment. No match is the mux's 405.
\<close>

definition protected_pattern :: "string \<Rightarrow> string list \<Rightarrow> protected_route option" where
  "protected_pattern method path =
     (let get = (method = ''GET'' \<or> method = ''HEAD''); post = (method = ''POST'');
          fallback = (if get then Some Dashboard else None)
      in case path of
           [a] \<Rightarrow> if post \<and> a = ''drafts'' then Some CreateDraftR else fallback
         | [a, b] \<Rightarrow>
             if get \<and> a = ''jobs'' \<and> b \<noteq> [] then Some (JobR b)
             else if post \<and> a = ''system'' \<and> b = ''emergency-stop'' then Some EmergencyStopR
             else fallback
         | [a, b, c] \<Rightarrow>
             if get \<and> a = ''drafts'' \<and> b \<noteq> [] \<and> c = ''preview'' then Some (PreviewR b)
             else if post \<and> a = ''drafts'' \<and> b \<noteq> [] \<and> c = ''approve'' then Some (ApproveR b)
             else if post \<and> a = ''jobs'' \<and> b \<noteq> [] \<and> c = ''cancel'' then Some (CancelR b)
             else if post \<and> a = ''jobs'' \<and> b \<noteq> [] \<and> c = ''reconcile'' then Some (ReconcileR b)
             else if get \<and> a = ''oauth'' \<and> b = ''x'' \<and> c = ''start'' then Some OAuthStartR
             else if get \<and> a = ''oauth'' \<and> b = ''x'' \<and> c = ''callback'' then Some OAuthCallbackR
             else if post \<and> a = ''connections'' \<and> b \<noteq> [] \<and> c = ''revoke'' then Some (RevokeR b)
             else fallback
         | _ \<Rightarrow> fallback)"

fun protected_handler :: "('c, 's, 'z) server \<Rightarrow> protected_route \<Rightarrow> ('c, 's, 'z) web_handler" where
  "protected_handler sv Dashboard = dashboard sv"
| "protected_handler sv CreateDraftR = requireCSRF sv (createDraft sv)"
| "protected_handler sv (PreviewR jid) = preview sv jid"
| "protected_handler sv (ApproveR jid) = requireOperational sv (requireCSRF sv (approve sv jid))"
| "protected_handler sv (CancelR jid) = requireCSRF sv (cancel sv jid)"
| "protected_handler sv (ReconcileR jid) = requireOperational sv (requireCSRF sv (reconcile sv jid))"
| "protected_handler sv (JobR jid) = jobJSON sv jid"
| "protected_handler sv OAuthStartR = requireOperational sv (xOAuthStart sv)"
| "protected_handler sv OAuthCallbackR = requireOperational sv (xOAuthCallback sv)"
| "protected_handler sv (RevokeR platform) = requireOperational sv (requireCSRF sv (revokeConnection sv platform))"
| "protected_handler sv EmergencyStopR = requireCSRF sv (emergencyStop sv)"

definition protected_mux :: "('c, 's, 'z) server \<Rightarrow> ('c, 's, 'z) web_handler" where
  "protected_mux sv r =
     (case protected_pattern (sq_method r) (sq_path r) of
        None \<Rightarrow> respond (http_Error ''Method Not Allowed'' 405)
      | Some route \<Rightarrow> protected_handler sv route r)"

datatype root_route = Assets "string list" | AssetsSlash | Health | Login | AuthR auth_route | Protected

definition root_pattern :: "string \<Rightarrow> string list \<Rightarrow> root_route" where
  "root_pattern method path =
     (let get = (method = ''GET'' \<or> method = ''HEAD'')
      in case auth_pattern method path of
           Some a \<Rightarrow> AuthR a
         | None \<Rightarrow>
             if get \<and> path = [''healthz''] then Health
             else if get \<and> path = [''login''] then Login
             else if get \<and> path = [''assets''] then AssetsSlash
             else if get \<and> path \<noteq> [] \<and> hd path = ''assets'' then Assets (tl path)
             else Protected)"

text \<open>\<open>http.FileServer\<close> over the embedded assets replies with the file, or its own error.\<close>

fun root_handler :: "('c, 's, 'z) server \<Rightarrow> root_route \<Rightarrow> ('c, 's, 'z) web_handler" where
  "root_handler sv (Assets file) r = respond ((page_reply (Asset file))\<lparr>rp_header := []\<rparr>)"
| "root_handler sv AssetsSlash r = respond (http_Redirect r ''/assets/'' 307)"
| "root_handler sv Health r = health r"
| "root_handler sv Login r = login r"
| "root_handler sv (AuthR a) r = Routes (sv_auth sv) a r"
| "root_handler sv Protected r = Require (sv_auth sv) (protected_mux sv) r"

definition Handler :: "('c, 's, 'z) server \<Rightarrow> ('c, 's, 'z) web_handler" where
  "Handler sv = securityHeaders (\<lambda>r. root_handler sv (root_pattern (sq_method r) (sq_path r)) r)"

end
