(* ===== verification/Web_Props.thy ===== *)
theory Web_Props
  imports Web
begin

text \<open>
  What the web interface guarantees: which requests can change the jobs, the audit log, the emergency stop, the X
  tokens and the pending X authorizations, and that the page after an action tells
  what became of it, through a redirect that carries nothing but one of a fixed set of codes.
\<close>

section \<open>What requests can change\<close>

text \<open>Everything the service and the X connection keep, that is, all state but the operator's credentials.\<close>

definition service_view :: "'z oauth_world_scheme \<Rightarrow> _" where
  "service_view w = (t_jobs (db w), t_receipts (db w), t_audit (db w), t_system (db w), t_x_oauth (db w), states w)"

lemma service_view_updates [simp]:
  "service_view (w\<lparr>ticks := n\<rparr>) = service_view w" "service_view (w\<lparr>entropy := e\<rparr>) = service_view w"
  by (simp_all add: service_view_def)

lemma service_view_manager [simp]:
  fixes w :: "('c, 's, 'z) auth_world_scheme"
  shows "service_view (w\<lparr>mg_user := u\<rparr>) = service_view w" "service_view (w\<lparr>sessions := b\<rparr>) = service_view w"
    "service_view (w\<lparr>ceremonies := d\<rparr>) = service_view w" "service_view (w\<lparr>recoveryFails := f\<rparr>) = service_view w"
    "service_view (w\<lparr>recoveryHash := h\<rparr>) = service_view w" "service_view (w\<lparr>recoverySet := i\<rparr>) = service_view w"
  by (simp_all add: service_view_def)

lemma ambient_free_service_view: "ambient_free service_view"
  by (simp add: ambient_free_def)

lemma keeps_service_query: "keeps (service_view :: 'z oauth_world_scheme \<Rightarrow> _) (query f)"
  by (simp add: keeps_def service_view_def keeps_db_query [THEN keeps_snd] keeps_store_free(2) [OF store_free_states, THEN keeps_snd])

lemma keeps_service_exec:
  assumes "\<And>d x d'. f d = Inr (x, d') \<Longrightarrow>
      (t_jobs d', t_receipts d', t_audit d', t_system d', t_x_oauth d') = (t_jobs d, t_receipts d, t_audit d, t_system d, t_x_oauth d)"
  shows "keeps (service_view :: 'z oauth_world_scheme \<Rightarrow> _) (exec f)"
proof -
  have "keeps (\<lambda>w :: 'z oauth_world_scheme. (\<lambda>d. (t_jobs d, t_receipts d, t_audit d, t_system d, t_x_oauth d)) (db w)) (exec f)"
    by (rule exec_keeps) (use assms in simp)
  then show ?thesis by (simp add: keeps_def service_view_def keeps_store_free(1) [OF store_free_states, THEN keeps_snd])
qed

lemmas service_reads = keeps_service_query keeps_ebind keeps_wrap_err keeps_ok keeps_fail keeps_lift keeps_ensure

lemma reads_keep_service:
  "keeps (service_view :: 'z oauth_world_scheme \<Rightarrow> _) (GetJob i)" "keeps (service_view :: 'z oauth_world_scheme \<Rightarrow> _) (ListReceipts s i)"
  "keeps (service_view :: 'z oauth_world_scheme \<Rightarrow> _) (ListAudit s n)" "keeps (service_view :: 'z oauth_world_scheme \<Rightarrow> _) SystemState_get"
  unfolding GetJob_def ListReceipts_def ListAudit_def SystemState_get_def
  by (auto intro!: service_reads split: option.split)

lemma lists_keep_service: "keeps (service_view :: 'z oauth_world_scheme \<Rightarrow> _) (ListJobs s n)"
proof -
  have "keeps (service_view :: 'z oauth_world_scheme \<Rightarrow> _) (summarize s rows)" for rows
    by (induction rows) (simp add: keeps_def, auto simp: Let_def intro!: service_reads reads_keep_service)
  then show ?thesis unfolding ListJobs_def Let_def by (auto intro!: service_reads)
qed

lemma tokens_keep_service: "keeps (service_view :: 'z oauth_world_scheme \<Rightarrow> _) (LoadXOAuthTokens s)"
  unfolding LoadXOAuthTokens_def load_sealed_def by (auto intro!: service_reads split: option.split)

lemma auth_keeps_service:
  "keeps (service_view :: 'z oauth_world_scheme \<Rightarrow> _) (SaveAuthState s u c t)" "keeps (service_view :: 'z oauth_world_scheme \<Rightarrow> _) (SaveRecoveryHash s h t)"
  unfolding SaveAuthState_def SaveRecoveryHash_def save_sealed_def
  by (auto intro!: service_reads keeps_Seal ambient_free_service_view keeps_service_exec split: option.split)

text \<open>The handlers of the authentication manager leave all of it alone.\<close>

interpretation auth_frame: manager_relation "m\<lparr>mg_store := SQLite_StateStore s\<rparr>"
  "\<lambda>w w' :: ('c, 's, 'z) auth_world_scheme. service_view w' = service_view w" for m s
proof (unfold_locales, simp_all add: reflp_def transp_def)
  let ?m = "m\<lparr>mg_store := SQLite_StateStore s\<rparr>"
  have "keeps (service_view :: ('c, 's, 'z) auth_world_scheme \<Rightarrow> _) (rotateRecoveryCode ?m)"
    unfolding rotateRecoveryCode_def rotate_save_def rotate_install_def randomToken_def Let_def
    by (auto intro!: keeps_ebind keeps_ReadFull keeps_now ambient_free_service_view auth_keeps_service keeps_update)
  then show "moves (\<lambda>w w'. service_view w' = service_view w) (rotateRecoveryCode ?m)" by (simp add: moves_def keeps_def)
  have "keeps (service_view :: ('c, 's, 'z) auth_world_scheme \<Rightarrow> _) (ebind (lift enc) (\<lambda>encoded. ebind now (\<lambda>nw. ss_SaveAuthState (mg_store ?m) u encoded nw)))" for enc u
    by (auto intro!: keeps_ebind keeps_now ambient_free_service_view auth_keeps_service)
  then show "moves (\<lambda>w w'. service_view w' = service_view w) (persistLocked ?m)" by (simp add: moves_def keeps_def persistLocked_def)
qed

lemma Routes_leave_service:
  assumes "mg_store m = SQLite_StateStore s" and "Routes m route r w = (p, w')"
  shows "service_view w' = service_view w"
proof -
  have m: "m\<lparr>mg_store := SQLite_StateStore s\<rparr> = m" using assms(1) by simp
  show ?thesis using movesD [OF auth_frame.Routes_moves [where m = m and s = s, unfolded m] assms(2)] .
qed

text \<open>The pages change none of it.\<close>

lemma service_pages:
  assumes "store (sv_service sv) = SQLite_Store s"
    and "\<And>x. wc_XOAuth (sv_config sv) = Some x \<Longrightarrow> om_vault x = SQLite_Vault s"
  shows "leaves service_view (dashboard sv r)" "leaves service_view (preview sv jid r)" "leaves service_view (jobJSON sv jid r)"
proof -
  have c: "leaves service_view (CSRFToken (sv_auth sv) r)"
    by (simp add: leaves_def CSRFToken_def sessionForRequest_def Let_def split: option.split prod.split)
  have "keeps service_view (Connected x)" if "wc_XOAuth (sv_config sv) = Some x" for x
  proof -
    have "keeps service_view (loadTokens x)"
      unfolding loadTokens_def assms(2) [OF that] SQLite_Vault_def by (auto intro!: service_reads tokens_keep_service split: option.split)
    then show ?thesis by (auto simp: keeps_def Connected_def ebind_attempt split: prod.splits) (metis snd_conv)
  qed
  then have x: "leaves service_view (x_connected sv)"
    by (auto simp: leaves_def x_connected_def keeps_def split: option.split prod.split sum.split) (metis snd_conv)+
  show "leaves service_view (dashboard sv r)"
    unfolding dashboard_def Jobs_def Audit_def Service_SystemState_def assms(1) SQLite_Store_simps
    by (intro leaves_on_error leaves_sbind leaves_respond lists_keep_service reads_keep_service x c) (simp add: leaves_def Let_def)
  show "leaves service_view (preview sv jid r)"
    unfolding preview_def Preview_get_def assms(1) SQLite_Store_simps Let_def
    by (intro leaves_on_error leaves_sbind leaves_respond service_reads reads_keep_service c keeps_if)
  show "leaves service_view (jobJSON sv jid r)"
    unfolding jobJSON_def Jobs_def assms(1) SQLite_Store_simps
    by (auto intro!: leaves_on_error lists_keep_service split: option.split)
qed

section \<open>Guards\<close>

fun csrf_route :: "protected_route \<Rightarrow> bool" where
  "csrf_route CreateDraftR = True"
| "csrf_route (ApproveR _) = True"
| "csrf_route (CancelR _) = True"
| "csrf_route (ReconcileR _) = True"
| "csrf_route (RevokeR _) = True"
| "csrf_route EmergencyStopR = True"
| "csrf_route _ = False"

fun operational_route :: "protected_route \<Rightarrow> bool" where
  "operational_route (ApproveR _) = True"
| "operational_route (ReconcileR _) = True"
| "operational_route OAuthStartR = True"
| "operational_route OAuthCallbackR = True"
| "operational_route (RevokeR _) = True"
| "operational_route _ = False"

text \<open>What a changing request must have shown: a live session, its CSRF token, and an enrolled operator.\<close>

definition authorised :: "('c, 's, 'z) server \<Rightarrow> server_request \<Rightarrow> ('c, 's, 'z) auth_world_scheme \<Rightarrow> protected_route \<Rightarrow> bool" where
  "authorised sv r w route \<longleftrightarrow>
     (\<exists>k e. cookie_hash r sessionCookie = Some k \<and> sessions w k = Some e \<and> clock w (ticks w) < se_Expires e \<and>
        (csrf_route route \<longrightarrow> se_CSRF e \<noteq> [] \<and> fst (provided_csrf r) = se_CSRF e)) \<and>
     (operational_route route \<longrightarrow> length (Credentials (mg_user w)) \<ge> 2 \<and> recoverySet w)"

lemma authenticated_True:
  assumes "authenticated r w = (True, w1)"
  shows "w1 = w\<lparr>ticks := Suc (ticks w)\<rparr>"
    and "\<exists>k e. cookie_hash r sessionCookie = Some k \<and> sessions w k = Some e \<and> clock w (ticks w) < se_Expires e"
  using assms by (auto simp: authenticated_def sessionForRequest_def cookie_hash_def split: option.splits if_splits)

lemma authenticated_view: "service_view (snd (authenticated r w)) = service_view w"
  by (simp add: authenticated_def sessionForRequest_def Let_def split: option.split)

text \<open>A check that fails changes nothing.\<close>

lemma requireCSRF_passed:
  assumes "requireCSRF sv h r w = (p, w')" and "service_view w' \<noteq> service_view w" and "\<not> devMode (sv_auth sv)"
    and "cookie_hash r sessionCookie = Some k" and "sessions w k = Some e"
  shows "se_CSRF e \<noteq> [] \<and> fst (provided_csrf r) = se_CSRF e"
proof -
  obtain valid r' w1 where v: "ValidateCSRF (sv_auth sv) r w = ((valid, r'), w1)" by (metis surj_pair)
  have "service_view w1 = service_view w"
    using v by (auto simp: ValidateCSRF_def CSRFToken_def sessionForRequest_def Let_def split: option.splits if_splits prod.splits)
  then have "valid" using assms(1,2) v by (auto simp: requireCSRF_def split: if_splits)
  then show ?thesis
    using v assms(3-5)
    by (auto simp: ValidateCSRF_def CSRFToken_def sessionForRequest_def cookie_hash_def Let_def split: option.splits if_splits prod.splits)
qed

lemma requireOperational_passed:
  assumes "requireOperational sv h r w = (p, w')" and "service_view w' \<noteq> service_view w" and "\<not> devMode (sv_auth sv)"
  shows "h r w = (p, w') \<and> length (Credentials (mg_user w)) \<ge> 2 \<and> recoverySet w"
  using assms by (auto simp: requireOperational_def OperationallyReady_def split: if_splits)

lemma protected_authorised:
  assumes "protected_handler sv route r w = (p, w')" and "service_view w' \<noteq> service_view w" and "\<not> devMode (sv_auth sv)"
    and "store (sv_service sv) = SQLite_Store s" and "\<And>x. wc_XOAuth (sv_config sv) = Some x \<Longrightarrow> om_vault x = SQLite_Vault s"
    and "cookie_hash r sessionCookie = Some k" and "sessions w k = Some e"
  shows "(csrf_route route \<longrightarrow> se_CSRF e \<noteq> [] \<and> fst (provided_csrf r) = se_CSRF e) \<and>
    (operational_route route \<longrightarrow> length (Credentials (mg_user w)) \<ge> 2 \<and> recoverySet w) \<and> route \<notin> {Dashboard} \<union> range PreviewR \<union> range JobR"
proof -
  have pages: "dashboard sv r w \<noteq> (p, w')" "preview sv jid r w \<noteq> (p, w')" "jobJSON sv jid r w \<noteq> (p, w')" for jid
  proof -
    show "dashboard sv r w \<noteq> (p, w')" using leavesD [OF service_pages(1) [OF assms(4,5)]] assms(2) by blast
    show "preview sv jid r w \<noteq> (p, w')" using leavesD [OF service_pages(2) [OF assms(4,5)]] assms(2) by blast
    show "jobJSON sv jid r w \<noteq> (p, w')" using leavesD [OF service_pages(3) [OF assms(4,5)]] assms(2) by blast
  qed
  note csrf = requireCSRF_passed [OF _ assms(2,3,6,7)] and op = requireOperational_passed [OF _ assms(2,3)]
  show ?thesis
    using assms(1,2) by (cases route) (auto dest: op [THEN conjunct1] op [THEN conjunct2] csrf simp: pages)
qed

lemma changes_authorised:
  assumes "Handler sv r w = (p, w')" and "service_view w' \<noteq> service_view w" and "\<not> devMode (sv_auth sv)"
    and "mg_store (sv_auth sv) = SQLite_StateStore s" and "store (sv_service sv) = SQLite_Store s"
    and "\<And>x. wc_XOAuth (sv_config sv) = Some x \<Longrightarrow> om_vault x = SQLite_Vault s"
  shows "\<exists>route. root_pattern (sq_method r) (sq_path r) = Protected \<and> protected_pattern (sq_method r) (sq_path r) = Some route \<and>
    route \<notin> {Dashboard} \<union> range PreviewR \<union> range JobR \<and> authorised sv r w route"
proof -
  obtain q where h: "root_handler sv (root_pattern (sq_method r) (sq_path r)) r w = (q, w')"
    using assms(1) by (auto simp: Handler_def securityHeaders_def sbind_def split: prod.splits)
  have prot: "root_pattern (sq_method r) (sq_path r) = Protected"
    using h assms(2)
    by (cases "root_pattern (sq_method r) (sq_path r)") (auto simp: health_def login_def dest: Routes_leave_service [OF assms(4)])
  obtain auth w1 where a: "authenticated r w = (auth, w1)" by fastforce
  have v1: "service_view w1 = service_view w" using authenticated_view [of r w] a by simp
  have auth: auth using h prot a assms(2,3) v1 by (auto simp: Require_def split: if_splits)
  note ok = authenticated_True [OF a [unfolded eqTrueI [OF auth]]]
  have m: "protected_mux sv r w1 = (q, w')" using h prot a assms(3) auth by (simp add: Require_def)
  obtain k e where s: "cookie_hash r sessionCookie = Some k" "sessions w k = Some e" "clock w (ticks w) < se_Expires e"
    using ok(2) by blast
  obtain route where route: "protected_pattern (sq_method r) (sq_path r) = Some route"
    using m assms(2) v1 by (auto simp: protected_mux_def split: option.splits)
  have "sessions w1 k = Some e" "mg_user w1 = mg_user w" "recoverySet w1 = recoverySet w" "service_view w' \<noteq> service_view w1"
    using ok(1) s(2) assms(2) v1 by simp_all
  with protected_authorised [of sv route r w1 q w', OF _ _ assms(3,5,6) s(1)] m route
  have "(csrf_route route \<longrightarrow> se_CSRF e \<noteq> [] \<and> fst (provided_csrf r) = se_CSRF e) \<and>
      (operational_route route \<longrightarrow> length (Credentials (mg_user w)) \<ge> 2 \<and> recoverySet w) \<and> route \<notin> {Dashboard} \<union> range PreviewR \<union> range JobR"
    by (auto simp: protected_mux_def)
  then show ?thesis using prot route s by (auto simp: authorised_def)
qed

text \<open>
  C31: who can change what. Outside development mode, a request that changes anything the service keeps (jobs,
  receipts, the audit log, the emergency stop, the X tokens) or the pending X authorizations went to a protected
  route other than the pages; it carried the cookie of a live session; for the posting routes it carried the CSRF token of
  that session; and for approval, reconciliation and the X connection two passkeys and a recovery code were enrolled.
\<close>

theorem web_changes_guarded:
  assumes "Handler sv r w = (p, w')" and "service_view w' \<noteq> service_view w" and "\<not> devMode (sv_auth sv)"
    and "mg_store (sv_auth sv) = SQLite_StateStore s" and "store (sv_service sv) = SQLite_Store s"
    and "\<And>x. wc_XOAuth (sv_config sv) = Some x \<Longrightarrow> om_vault x = SQLite_Vault s"
  shows "\<exists>route. root_pattern (sq_method r) (sq_path r) = Protected \<and> protected_pattern (sq_method r) (sq_path r) = Some route \<and>
    route \<notin> {Dashboard} \<union> range PreviewR \<union> range JobR \<and> authorised sv r w route"
  using assms by (rule changes_authorised)

text \<open>An operator clears the emergency stop: a request with a session and its CSRF token adds an audit event.\<close>

definition sample_server :: "((unit, unit) auth_world, unit, unit) Server" where
  "sample_server =
     \<lparr>sv_service = NewService (SQLite_Store \<lparr>sealer = None\<rparr>) \<lparr>master = replicate 32 CHR 0x01\<rparr> [], sv_auth = sample_manager_auth,
      sv_config = \<lparr>wc_DryRun = True, wc_Timezone = ''Europe/Paris'', wc_XConfigured = False, wc_NostrConfigured = False, wc_XOAuth = None\<rparr>,
      sv_zone = (\<lambda>_. (0, 0, 0))\<rparr>"

definition sample_web_world :: "(unit, unit) auth_world" where
  "sample_web_world = sample_auth_world\<lparr>sessions := [sha256 (replicate 32 CHR 0x07) \<mapsto>
     \<lparr>se_Expires = y2000 + Minute, se_CSRF = b64_encode_raw (replicate 24 CHR 0x07)\<rparr>]\<rparr>"

definition sample_stop_request :: server_request where
  "sample_stop_request = (Auth_Props.sample_request sessionCookie)\<lparr>sq_path := [''system'', ''emergency-stop'']\<rparr>"

lemma sample_stop_routes:
  "root_pattern (sq_method sample_stop_request) (sq_path sample_stop_request) = Protected"
  "protected_pattern (sq_method sample_stop_request) (sq_path sample_stop_request) = Some EmergencyStopR"
  by (simp_all add: sample_stop_request_def Auth_Props.sample_request_def root_pattern_def auth_pattern_def protected_pattern_def)

lemmas sample_web = sample_stop_request_def Auth_Props.sample_request_def sample_web_world_def sample_auth_world_def sample_server_def
  sample_manager_auth_def

lemma sample_stop_session:
  "authenticated sample_stop_request sample_web_world = (True, sample_web_world\<lparr>ticks := 1\<rparr>)"
  "ValidateCSRF (sv_auth sample_server) sample_stop_request (sample_web_world\<lparr>ticks := 1\<rparr>) =
     ((True, sample_stop_request), sample_web_world\<lparr>ticks := 2\<rparr>)"
proof -
  let ?c = "b64_encode_raw (replicate 24 CHR 0x07)"
  have c: "?c \<noteq> []" by code_simp
  have live: "sessionForRequest sample_stop_request (sample_web_world\<lparr>ticks := n\<rparr>) =
      (Some \<lparr>se_Expires = y2000 + Minute, se_CSRF = ?c\<rparr>, sample_web_world\<lparr>ticks := Suc n\<rparr>)" for n
    by (simp add: sessionForRequest_def sample_web Cookie_def RawURL_roundtrip Let_def)
  have w: "sample_web_world = sample_web_world\<lparr>ticks := 0\<rparr>" by (simp add: sample_web)
  show "authenticated sample_stop_request sample_web_world = (True, sample_web_world\<lparr>ticks := 1\<rparr>)"
    using live [of 0] by (subst w) (simp add: authenticated_def)
  show "ValidateCSRF (sv_auth sample_server) sample_stop_request (sample_web_world\<lparr>ticks := 1\<rparr>) =
     ((True, sample_stop_request), sample_web_world\<lparr>ticks := 2\<rparr>)"
    using c live [of 1]
    by (simp add: ValidateCSRF_def CSRFToken_def provided_csrf_def sample_server_def sample_manager_auth_def Let_def numeral_2_eq_2
        sample_stop_request_def Auth_Props.sample_request_def)
qed

lemma sample_stop_changes:
  "\<exists>p w'. Handler sample_server sample_stop_request sample_web_world = (p, w') \<and> service_view w' \<noteq> service_view sample_web_world"
proof -
  have "\<exists>p w'. emergencyStop sample_server sample_stop_request (sample_web_world\<lparr>ticks := 2\<rparr>) = (p, w') \<and> t_audit (db w') \<noteq> []"
    by (simp add: emergencyStop_def sample_web ParseForm_def parsePostForm_def EmergencyStop_def NewService_def Let_def form_of_def FormValue_def
        Values_Get_def audit_def SetEmergencyStop_def AddAudit_def exec_def sql_def insert_audit_def on_error_def ebind_ok now_def ebind_def SQLite_Store_def)
  then obtain p w' where e: "emergencyStop sample_server sample_stop_request (sample_web_world\<lparr>ticks := 2\<rparr>) = (p, w')" "t_audit (db w') \<noteq> []"
    by blast
  have "protected_mux sample_server sample_stop_request (sample_web_world\<lparr>ticks := 1\<rparr>) = (p, w')"
    using sample_stop_session(2) e(1) by (simp add: protected_mux_def sample_stop_routes requireCSRF_def sbind_def)
  then have "Handler sample_server sample_stop_request sample_web_world = (p\<lparr>rp_header := security_headers @ rp_header p\<rparr>, w')"
    using sample_stop_session(1) by (simp add: Handler_def securityHeaders_def sample_stop_routes Require_def sbind_def sample_server_def sample_manager_auth_def)
  moreover have "t_audit (db sample_web_world) = []" by (simp add: sample_web empty_db_def)
  ultimately show ?thesis using e(2) by (auto simp: service_view_def)
qed

theorem web_changes_guarded_witness:
  "authorised sample_server sample_stop_request sample_web_world EmergencyStopR"
proof -
  obtain p w' where "Handler sample_server sample_stop_request sample_web_world = (p, w')" "service_view w' \<noteq> service_view sample_web_world"
    using sample_stop_changes by blast
  from web_changes_guarded [OF this] show ?thesis
    by (auto simp: sample_server_def sample_manager_auth_def NewService_def sample_stop_routes)
qed

text \<open>
  A request whose CSRF token is in its form has been parsed by the time \<open>createDraft\<close> limits its body, so
  the limit of 64 KiB never applies to it: \<open>ParseForm\<close> reports no error, whatever the size of the body.
\<close>

lemma form_token_parses_body:
  assumes "sq_header r ''X-Csrf-Token'' = []"
  shows "fst (ParseForm ((snd (provided_csrf r))\<lparr>sq_limit := Some 65536\<rparr>)) = None"
  using assms
  by (auto simp: provided_csrf_def FormValue_def ParseMultipartForm_def ParseForm_def Let_def split: option.split post_body.split prod.split)

section \<open>Messages\<close>

lemma QueryEscape_plain: "(\<And>c. c \<in> set s \<Longrightarrow> query_byte c = [c]) \<Longrightarrow> QueryEscape s = s"
  unfolding QueryEscape_def by (induction s) simp_all

lemma plain_letters: "list_all (\<lambda>c. query_byte c = [c]) ''abcdefghijklmnopqrstuvwxyz-''"
  by code_simp

lemma flash_codes_plain: "list_all (\<lambda>(code, _). list_all (\<lambda>c. query_byte c = [c]) code) flash_messages"
proof -
  have "list_all (\<lambda>(code, _). list_all (\<lambda>c. c \<in> set ''abcdefghijklmnopqrstuvwxyz-'') code) flash_messages"
    by (simp add: flash_messages_def)
  then show ?thesis using plain_letters unfolding list_all_iff by blast
qed

lemma default_codes:
  "map_of flash_messages ''approval-rejected'' \<noteq> None" "map_of flash_messages ''invalid-request'' \<noteq> None"
  "map_of flash_messages ''request-failed'' \<noteq> None"
  by (simp_all add: flash_messages_def)

lemma flash_codes_listed: "list_all (\<lambda>(m, c). map_of flash_messages c \<noteq> None) flash_codes"
  by (simp add: flash_codes_def flash_messages_def)

lemma flashCode_listed: "\<exists>m. (flashCode message, m) \<in> set flash_messages"
proof -
  have "map_of flash_messages (flashCode message) \<noteq> None"
  proof (cases "map_of flash_codes message")
    case None
    then show ?thesis using default_codes unfolding flashCode_def by simp
  next
    case (Some c)
    then show ?thesis using flash_codes_listed map_of_SomeD [OF Some] unfolding flashCode_def list_all_iff by auto
  qed
  then show ?thesis using map_of_SomeD by fastforce
qed

text \<open>What the operator reads on the page that a reply leads to.\<close>

definition shown :: "page reply \<Rightarrow> string" where
  "shown p =
     (case map_of (rp_header p) ''Location'' of
        None \<Rightarrow> []
      | Some url \<Rightarrow> if rp_status p = 303 \<and> HasPrefix url ''/?msg='' then flashMessage (drop 6 url) else [])"

lemma redirect_location: "map_of (rp_header (redirect_msg r message)) ''Location'' = Some (''/?msg='' @ flashCode message)"
proof -
  have "list_all (\<lambda>c. query_byte c = [c]) (flashCode message)"
    using flash_codes_plain flashCode_listed unfolding list_all_iff by blast
  then have "QueryEscape (flashCode message) = flashCode message" by (auto simp: list_all_iff intro: QueryEscape_plain)
  then show ?thesis by (simp add: redirect_msg_def http_Redirect_def)
qed

lemma shown_redirect [simp]: "shown (redirect_msg r message) = flashMessage (flashCode message)"
proof -
  have "rp_status (redirect_msg r message) = 303" by (simp add: redirect_msg_def http_Redirect_def)
  then show ?thesis by (simp add: shown_def redirect_location HasPrefix_def)
qed

text \<open>The texts that say that an action was carried out, and what is said of an action of the service that returned a result.\<close>

definition success_texts :: "string list" where
  "success_texts =
     [''Exact payload approved and queued'', ''Job cancelled'', ''Manual reconciliation recorded; no resend occurred'',
      ''Emergency stop cleared'', ''Emergency stop active'', ''X connection established through the pinned egress transport'',
      ''X access revoked and local token deleted'']"

definition told :: "go_error + 'a \<Rightarrow> string \<Rightarrow> string \<Rightarrow> bool" where
  "told res text m \<longleftrightarrow>
     (case res of
        Inr _ \<Rightarrow> m = text
      | Inl e \<Rightarrow>
          (Error e \<notin> set success_texts \<longrightarrow> m \<noteq> [] \<and> m \<notin> set success_texts) \<and>
          (e \<in> Sentinel ` {ErrInvalidContent, ErrNoDestination, ErrInvalidTransition} \<longrightarrow>
             m = ''The request content, destination, or state was invalid'') \<and>
          (e = ErrorsNew ''approval hash does not match exact preview'' \<longrightarrow>
             m = ''Approval rejected because the exact payload hash did not match''))"

text \<open>Messages with a code of their own come back; of the others none is said to be a success.\<close>

definition failure_texts :: "string list" where
  "failure_texts =
     [''Invalid schedule time'', ''Emergency control failed'', ''X authorization was declined'', ''X authorization could not be verified'',
      ''X token revocation could not be confirmed; local token retained'']"

lemma flash_table: "list_all (\<lambda>m. flashMessage (flashCode m) = m) (success_texts @ failure_texts)"
  by (simp add: success_texts_def failure_texts_def flashMessage_def flashCode_def flash_codes_def flash_messages_def)

lemma flash_own: "m \<in> set success_texts \<union> set failure_texts \<Longrightarrow> flashMessage (flashCode m) = m"
  using flash_table unfolding list_all_iff by auto

lemma flash_failures:
  "list_all (\<lambda>(m, c). m \<in> set success_texts \<or> flashMessage c \<noteq> [] \<and> flashMessage c \<notin> set success_texts) flash_codes"
  "list_all (\<lambda>c. flashMessage c \<noteq> [] \<and> flashMessage c \<notin> set success_texts) [''approval-rejected'', ''invalid-request'', ''request-failed'']"
  by (simp_all add: flashMessage_def flash_messages_def flash_codes_def success_texts_def)

lemma flash_refusal:
  assumes "message \<notin> set success_texts"
  shows "flashMessage (flashCode message) \<noteq> [] \<and> flashMessage (flashCode message) \<notin> set success_texts"
proof (cases "map_of flash_codes message")
  case None
  then show ?thesis using flash_failures(2) unfolding flashCode_def by simp
next
  case (Some c)
  then show ?thesis using flash_failures(1) map_of_SomeD [OF Some] assms unfolding flashCode_def list_all_iff by auto
qed

lemma sentinel_failures:
  "flashMessage (flashCode (safeMessage (Sentinel ErrInvalidContent))) = ''The request content, destination, or state was invalid''"
  "flashMessage (flashCode (safeMessage (Sentinel ErrNoDestination))) = ''The request content, destination, or state was invalid''"
  "flashMessage (flashCode (safeMessage (Sentinel ErrInvalidTransition))) = ''The request content, destination, or state was invalid''"
  "flashMessage (flashCode (safeMessage (ErrorsNew ''approval hash does not match exact preview''))) =
     ''Approval rejected because the exact payload hash did not match''"
  by code_simp+

lemma failure_told: "told (Inl e) text (flashMessage (flashCode (safeMessage e)))"
proof -
  have "safeMessage e = Error e \<or> safeMessage e = ''Request could not be completed''" by (simp add: safeMessage_def)
  moreover have "''Request could not be completed'' \<notin> set success_texts" by (simp add: success_texts_def)
  ultimately have "safeMessage e \<notin> set success_texts" if "Error e \<notin> set success_texts" using that by metis
  then show ?thesis using flash_refusal sentinel_failures unfolding told_def by auto
qed

lemma action_told:
  "flashMessage (flashCode text) = text \<Longrightarrow>
   told (fst (act w)) text (shown (fst (on_error act (\<lambda>e. respond (redirect_msg r (safeMessage e))) (\<lambda>_. respond (redirect_msg r text)) w)))"
  using failure_told by (auto simp: on_error_def told_def split: prod.split sum.split)

lemma dashboard_flash:
  assumes "dashboard sv r w = (p, w')" and "rp_body p = Page (DashboardPage d)"
  shows "dd_Flash d = flashMessage (Values_Get (sq_query r) ''msg'')"
  using assms
  by (auto simp: dashboard_def on_error_def sbind_def page_reply_def fail_reply_def http_Error_def Let_def split: prod.splits sum.splits)

text \<open>
  A refusal because of the emergency stop passes through \<open>safeMessage\<close> with its text, but has no code of its own: the operator
  reads only that the request could not be completed.
\<close>

lemma stop_reason_lost:
  "safeMessage (Errorf ''emergency stop is active: %s'' [ArgS ''operator activated emergency stop''] None) =
     ''emergency stop is active: operator activated emergency stop''"
  "flashMessage (flashCode ''emergency stop is active: operator activated emergency stop'') = ''Request could not be completed''"
  by code_simp+

text \<open>
  C32: the operator is told what happened. After an approval, a cancellation or a reconciliation the page shows the text for
  success exactly if the service carried it out, and after a refusal one that is neither empty nor a text of success, the
  precise one for an invalid request and for a mismatch of the hash. After an emergency stop, its release, a revocation and
  an X authorization it shows the text of what the service, the X manager and the request say. Whatever the message, error
  texts included, the redirect carries one of fifteen fixed codes, and the dashboard shows the text of the code it is given.
\<close>

theorem outcome_told:
  "told (fst (Cancel (sv_service sv) jid w)) ''Job cancelled'' (shown (fst (cancel sv jid r w))) \<and>
   told (fst (Reconcile (sv_service sv) jid w)) ''Manual reconciliation recorded; no resend occurred'' (shown (fst (reconcile sv jid r w))) \<and>
   (ParseForm r = (None, r') \<longrightarrow>
      told (fst (Approve (sv_service sv) jid (form_of r' ''payload_hash'') w)) ''Exact payload approved and queued''
        (shown (fst (approve sv jid r w))) \<and>
      shown (fst (emergencyStop sv r w)) =
        (case fst (EmergencyStop (sv_service sv) (form_of r' ''enabled'' = ''1'') ''operator activated emergency stop'' w) of
           Inl _ \<Rightarrow> ''Emergency control failed''
         | Inr _ \<Rightarrow> if form_of r' ''enabled'' = ''1'' then ''Emergency stop active'' else ''Emergency stop cleared'')) \<and>
   (wc_XOAuth (sv_config sv) = Some x \<longrightarrow>
      shown (fst (revokeConnection sv ''x'' r w)) =
        (case fst (Revoke x w) of
           Inl _ \<Rightarrow> ''X token revocation could not be confirmed; local token retained''
         | Inr _ \<Rightarrow> ''X access revoked and local token deleted'') \<and>
      shown (fst (xOAuthCallback sv r w)) =
        (if Values_Get (sq_query r) ''error'' \<noteq> [] then ''X authorization was declined''
         else let (csrf, w1) = CSRFToken (sv_auth sv) r w
              in case fst (Exchange x (Values_Get (sq_query r) ''state'') csrf (Values_Get (sq_query r) ''code'') w1) of
                   Inl _ \<Rightarrow> ''X authorization could not be verified''
                 | Inr _ \<Rightarrow> ''X connection established through the pinned egress transport'')) \<and>
   map_of (rp_header (redirect_msg r message)) ''Location'' \<in> (\<lambda>code. Some (''/?msg='' @ code)) `
     {''invalid-schedule'', ''approved'', ''cancelled'', ''reconciled'', ''emergency-failed'', ''emergency-cleared'', ''emergency-active'',
      ''x-declined'', ''x-auth-failed'', ''x-connected'', ''x-revoke-failed'', ''x-revoked'', ''approval-rejected'', ''invalid-request'',
      ''request-failed''} \<and>
   (dashboard sv r w = (p, w') \<and> rp_body p = Page (DashboardPage d) \<longrightarrow> dd_Flash d = flashMessage (Values_Get (sq_query r) ''msg''))"
proof (intro conjI impI)
  show "told (fst (Cancel (sv_service sv) jid w)) ''Job cancelled'' (shown (fst (cancel sv jid r w)))"
    unfolding cancel_def by (intro action_told flash_own) (simp add: success_texts_def)
  show "told (fst (Reconcile (sv_service sv) jid w)) ''Manual reconciliation recorded; no resend occurred'' (shown (fst (reconcile sv jid r w)))"
    unfolding reconcile_def by (intro action_told flash_own) (simp add: success_texts_def)
  show "told (fst (Approve (sv_service sv) jid (form_of r' ''payload_hash'') w)) ''Exact payload approved and queued''
      (shown (fst (approve sv jid r w)))" if "ParseForm r = (None, r')"
    unfolding approve_def that Let_def prod.case option.case by (intro action_told flash_own) (simp add: success_texts_def)
  show "shown (fst (emergencyStop sv r w)) =
        (case fst (EmergencyStop (sv_service sv) (form_of r' ''enabled'' = ''1'') ''operator activated emergency stop'' w) of
           Inl _ \<Rightarrow> ''Emergency control failed''
         | Inr _ \<Rightarrow> if form_of r' ''enabled'' = ''1'' then ''Emergency stop active'' else ''Emergency stop cleared'')" if "ParseForm r = (None, r')"
    unfolding emergencyStop_def that Let_def prod.case option.case
    by (auto simp: on_error_def success_texts_def failure_texts_def intro!: flash_own split: prod.split sum.split)
  show "shown (fst (revokeConnection sv ''x'' r w)) =
        (case fst (Revoke x w) of
           Inl _ \<Rightarrow> ''X token revocation could not be confirmed; local token retained''
         | Inr _ \<Rightarrow> ''X access revoked and local token deleted'')" if "wc_XOAuth (sv_config sv) = Some x"
    using that by (auto simp: revokeConnection_def on_error_def success_texts_def failure_texts_def intro!: flash_own split: prod.split sum.split)
  show "shown (fst (xOAuthCallback sv r w)) =
        (if Values_Get (sq_query r) ''error'' \<noteq> [] then ''X authorization was declined''
         else let (csrf, w1) = CSRFToken (sv_auth sv) r w
              in case fst (Exchange x (Values_Get (sq_query r) ''state'') csrf (Values_Get (sq_query r) ''code'') w1) of
                   Inl _ \<Rightarrow> ''X authorization could not be verified''
                 | Inr _ \<Rightarrow> ''X connection established through the pinned egress transport'')" if "wc_XOAuth (sv_config sv) = Some x"
    using that
    by (auto simp: xOAuthCallback_def on_error_def sbind_def success_texts_def failure_texts_def intro!: flash_own split: prod.split sum.split)
  have "fst ` set flash_messages = {''invalid-schedule'', ''approved'', ''cancelled'', ''reconciled'', ''emergency-failed'', ''emergency-cleared'',
      ''emergency-active'', ''x-declined'', ''x-auth-failed'', ''x-connected'', ''x-revoke-failed'', ''x-revoked'', ''approval-rejected'',
      ''invalid-request'', ''request-failed''}"
    unfolding flash_messages_def by simp
  then show "map_of (rp_header (redirect_msg r message)) ''Location'' \<in> (\<lambda>code. Some (''/?msg='' @ code)) `
     {''invalid-schedule'', ''approved'', ''cancelled'', ''reconciled'', ''emergency-failed'', ''emergency-cleared'', ''emergency-active'',
      ''x-declined'', ''x-auth-failed'', ''x-connected'', ''x-revoke-failed'', ''x-revoked'', ''approval-rejected'', ''invalid-request'',
      ''request-failed''}"
    unfolding redirect_location using flashCode_listed [of message] by (metis fst_conv image_eqI)
qed (use dashboard_flash in blast)

text \<open>The operator clears the emergency stop and reads that it is cleared.\<close>

theorem outcome_told_witness:
  "shown (fst (emergencyStop sample_server sample_stop_request sample_web_world)) = ''Emergency stop cleared''"
proof -
  obtain r' where r': "ParseForm sample_stop_request = (None, r')" "form_of r' ''enabled'' \<noteq> ''1''"
    by (simp add: sample_web ParseForm_def parsePostForm_def Let_def form_of_def FormValue_def Values_Get_def)
  have "\<exists>w'. EmergencyStop (sv_service sample_server) False why sample_web_world = (Inr (), w')" for why
    by (simp add: sample_web EmergencyStop_def NewService_def Let_def audit_def SetEmergencyStop_def AddAudit_def exec_def sql_def
        insert_audit_def now_def ebind_def SQLite_Store_def)
  then obtain w' where "EmergencyStop (sv_service sample_server) False ''operator activated emergency stop'' sample_web_world = (Inr (), w')"
    by blast
  with outcome_told [where sv = sample_server and w = sample_web_world and r = sample_stop_request and r' = r'] r'
  show ?thesis by simp
qed

end
