(* ===== verification/Control_Plane.thy ===== *)
theory Control_Plane
  imports Web_Props
begin

text \<open>
  Command \<open>cmd/ivpn\<close>: the control plane. It reads its configuration from the environment, refuses what is not
  safe, puts the other components together, serves the web interface and purges old records once a
  day. The operating system's answers are the environment; logging, flag parsing and the network are not modelled.
\<close>

section \<open>Configuration\<close>

record config =
  cf_Listen :: string
  cf_Origin :: string
  cf_RPID :: string
  cf_DatabasePath :: string
  cf_MasterKey :: string
  cf_BootstrapToken :: string
  cf_TLSCert :: string
  cf_TLSKey :: string
  cf_DryRun :: bool
  cf_DevMode :: bool
  cf_Timezone :: string
  cf_XEstimatedCharge :: string

text \<open>
  The operating system: the variables (empty when unset), what \<open>Lstat\<close> and \<open>ReadFile\<close> answer for a path, and
  what creating the directory of the database gives. Which paths Windows calls absolute is an argument too.
\<close>

record file_info =
  fi_symlink :: bool
  fi_regular :: bool
  fi_size :: int
  fi_perm :: nat

record os_env =
  os_GOOS :: string
  os_Getenv :: "string \<Rightarrow> string"
  os_windows_abs :: "string \<Rightarrow> bool"
  os_Lstat :: "string \<Rightarrow> go_error + file_info"
  os_ReadFile :: "string \<Rightarrow> go_error + bytes"
  os_mkdir_of :: "string \<Rightarrow> go_error option"

definition IsAbs :: "os_env \<Rightarrow> string \<Rightarrow> bool" where
  "IsAbs env path = (if os_GOOS env = ''windows'' then os_windows_abs env path else HasPrefix path ''/'')"

definition env_value :: "os_env \<Rightarrow> string \<Rightarrow> string \<Rightarrow> string" where
  "env_value env name fallback = (let current = TrimSpace (os_Getenv env name) in if current \<noteq> [] then current else fallback)"

text \<open>\<open>strconv.ParseBool\<close>.\<close>

definition ParseBool :: "string \<Rightarrow> bool option" where
  "ParseBool s =
     (if s \<in> set [''1'', ''t'', ''T'', ''TRUE'', ''true'', ''True''] then Some True
      else if s \<in> set [''0'', ''f'', ''F'', ''FALSE'', ''false'', ''False''] then Some False
      else None)"

definition boolValue :: "os_env \<Rightarrow> string \<Rightarrow> bool \<Rightarrow> bool" where
  "boolValue env name fallback =
     (let current = TrimSpace (os_Getenv env name)
      in if current = [] then fallback
         else case ParseBool current of None \<Rightarrow> fallback | Some parsed \<Rightarrow> parsed)"

text \<open>The permission bits of group and others are the lowest six.\<close>

definition secretValue :: "os_env \<Rightarrow> string \<Rightarrow> go_error + string" where
  "secretValue env name =
     (let direct = TrimSpace (os_Getenv env name); path = TrimSpace (os_Getenv env (name @ ''_FILE''))
      in if direct \<noteq> [] \<and> path \<noteq> [] then Inl (Errorf ''%s and %s_FILE cannot both be set'' [ArgS name, ArgS name] None)
         else if path = [] then Inr direct
         else if \<not> IsAbs env path then Inl (Errorf ''%s_FILE must be an absolute path'' [ArgS name] None)
         else case os_Lstat env path of
           Inl err \<Rightarrow> Inl (Errorf ''inspect %s_FILE: %w'' [ArgS name] (Some err))
         | Inr info \<Rightarrow>
             if fi_symlink info \<or> \<not> fi_regular info \<or> fi_size info > 4096
             then Inl (Errorf ''%s_FILE must be a small regular non-symlink file'' [ArgS name] None)
             else if os_GOOS env \<noteq> ''windows'' \<and> take_bit 6 (fi_perm info) \<noteq> 0
             then Inl (Errorf ''%s_FILE must not be accessible by group or other users'' [ArgS name] None)
             else case os_ReadFile env path of
               Inl err \<Rightarrow> Inl (Errorf ''read %s_FILE: %w'' [ArgS name] (Some err))
             | Inr encoded \<Rightarrow> Inr (TrimSpace encoded))"

definition default_database :: "os_env \<Rightarrow> string" where
  "default_database env = ''data'' @ (if os_GOOS env = ''windows'' then [CHR 0x5C] else ''/'') @ ''ivpn.db''"

definition read_config :: "os_env \<Rightarrow> string \<Rightarrow> string \<Rightarrow> config" where
  "read_config env masterKey bootstrapToken =
     \<lparr>cf_Listen = env_value env ''IVPN_LISTEN'' ''127.0.0.1:8443'', cf_Origin = env_value env ''IVPN_ORIGIN'' ''https://ivpn.internal'',
      cf_RPID = [], cf_DatabasePath = env_value env ''IVPN_DATABASE'' (default_database env), cf_MasterKey = masterKey,
      cf_BootstrapToken = bootstrapToken, cf_TLSCert = os_Getenv env ''IVPN_TLS_CERT'', cf_TLSKey = os_Getenv env ''IVPN_TLS_KEY'',
      cf_DryRun = boolValue env ''IVPN_DRY_RUN'' True, cf_DevMode = boolValue env ''IVPN_DEV_MODE'' False,
      cf_Timezone = env_value env ''IVPN_TIMEZONE'' ''Europe/Paris'', cf_XEstimatedCharge = os_Getenv env ''IVPN_X_ESTIMATED_CHARGE''\<rparr>"

definition loadConfig :: "os_env \<Rightarrow> go_error + config" where
  "loadConfig env =
     (case secretValue env ''IVPN_MASTER_KEY'' of
        Inl err \<Rightarrow> Inl err
      | Inr masterKey \<Rightarrow>
          (case secretValue env ''IVPN_BOOTSTRAP_TOKEN'' of
             Inl err \<Rightarrow> Inl err
           | Inr bootstrapToken \<Rightarrow>
               (let cfg = read_config env masterKey bootstrapToken
                in case URL_Parse (cf_Origin cfg) of
                     None \<Rightarrow> Inl (ErrorsNew ''IVPN_ORIGIN must be an absolute URL'')
                   | Some parsed \<Rightarrow>
                       if Hostname parsed = [] then Inl (ErrorsNew ''IVPN_ORIGIN must be an absolute URL'')
                       else
                         let cfg = cfg\<lparr>cf_RPID := env_value env ''IVPN_RPID'' (Hostname parsed)\<rparr>
                         in if cf_MasterKey cfg = [] then Inl (ErrorsNew ''IVPN_MASTER_KEY is required; run ivpn --generate-master-key'')
                            else if \<not> cf_DevMode cfg \<and> Scheme parsed \<noteq> ''https'' then Inl (ErrorsNew ''production origin must use HTTPS'')
                            else if \<not> cf_DevMode cfg \<and> (cf_TLSCert cfg = [] \<or> cf_TLSKey cfg = [])
                            then Inl (ErrorsNew ''production requires IVPN_TLS_CERT and IVPN_TLS_KEY'')
                            else if \<not> cf_DevMode cfg \<and> length (cf_BootstrapToken cfg) < 32
                            then Inl (ErrorsNew ''IVPN_BOOTSTRAP_TOKEN must contain at least 32 characters'')
                            else if \<not> cf_DryRun cfg
                            then Inl (ErrorsNew ''live mode is disabled until the broker, X OAuth, and NIP-46 readiness checks all pass'')
                            else Inr cfg)))"

section \<open>Startup\<close>

text \<open>The limits of the HTTP server.\<close>

record http_limits =
  hl_ReadHeaderTimeout :: duration
  hl_ReadTimeout :: duration
  hl_WriteTimeout :: duration
  hl_IdleTimeout :: duration
  hl_MaxHeaderBytes :: nat

definition server_limits :: http_limits where
  "server_limits = \<lparr>hl_ReadHeaderTimeout = 5 * Second, hl_ReadTimeout = 15 * Second, hl_WriteTimeout = 30 * Second,
     hl_IdleTimeout = 60 * Second, hl_MaxHeaderBytes = 16384\<rparr>"

text \<open>A process that serves: its server, the store the purge works on, and how it listens.\<close>

record ('w, 'c, 's) running =
  rn_server :: "('w, 'c, 's) Server"
  rn_database :: SQLite
  rn_listen :: string
  rn_tls :: "(string \<times> string) option"
  rn_limits :: http_limits

text \<open>How \<open>main\<close> ends before it serves: a fatal message, the output of a command, or the process is running.\<close>

datatype 'r main_result = Fatal string go_error | Output string | Running 'r

text \<open>The constructors of the packages in the order \<open>main\<close> calls them, up to the server.\<close>

definition assemble :: "(string \<Rightarrow> string \<Rightarrow> go_error + (('c, 's, 'z) auth_world_scheme, 'c, 's) WebAuthn) \<Rightarrow> (string \<Rightarrow> go_error + location) \<Rightarrow>
    os_env \<Rightarrow> config \<Rightarrow> ('c, 's, 'z) auth_world_scheme \<Rightarrow>
    (string \<times> go_error + (('c, 's, 'z) auth_world_scheme, 'c, 's) running) \<times> ('c, 's, 'z) auth_world_scheme" where
  "assemble webauthn_New LoadLocation env cfg w =
     (case os_mkdir_of env (cf_DatabasePath cfg) of
        Some err \<Rightarrow> (Inl (''create data directory'', err), w)
      | None \<Rightarrow>
          (case DecodeMasterKey (cf_MasterKey cfg) of
             Inl err \<Rightarrow> (Inl (''decode master key'', err), w)
           | Inr key \<Rightarrow>
               (case NewEnvelope key of
                  Inl err \<Rightarrow> (Inl (''initialize envelope encryption'', err), w)
                | Inr envelope \<Rightarrow>
                    (case OpenEncrypted (Some envelope) w of
                       (Inl err, w) \<Rightarrow> (Inl (''open encrypted job store'', err), w)
                     | (Inr database, w) \<Rightarrow>
                         (case New webauthn_New (SQLite_StateStore database)
                                 \<lparr>RPID = cf_RPID cfg, Origin = cf_Origin cfg, BootstrapToken = cf_BootstrapToken cfg,
                                  SessionTTL = 15 * Minute, DevMode = cf_DevMode cfg\<rparr> w of
                            (Inl err, w) \<Rightarrow> (Inl (''initialize passkey authentication'', err), w)
                          | (Inr authn, w) \<Rightarrow>
                              (let service = NewService (SQLite_Store database) envelope [WithXEstimatedCharge (cf_XEstimatedCharge cfg)]
                               in case Web_New LoadLocation service authn
                                         \<lparr>wc_DryRun = cf_DryRun cfg, wc_Timezone = cf_Timezone cfg, wc_XConfigured = False,
                                          wc_NostrConfigured = False, wc_XOAuth = None\<rparr> of
                                    Inl err \<Rightarrow> (Inl (''initialize web interface'', err), w)
                                  | Inr ui \<Rightarrow>
                                      (Inr \<lparr>rn_server = ui, rn_database = database, rn_listen = cf_Listen cfg,
                                            rn_tls = (if cf_TLSCert cfg \<noteq> [] then Some (cf_TLSCert cfg, cf_TLSKey cfg) else None),
                                            rn_limits = server_limits\<rparr>, w)))))))"

definition ivpn_main :: "(string \<Rightarrow> string \<Rightarrow> go_error + (('c, 's, 'z) auth_world_scheme, 'c, 's) WebAuthn) \<Rightarrow> (string \<Rightarrow> go_error + location) \<Rightarrow>
    bool \<Rightarrow> bool \<Rightarrow> os_env \<Rightarrow> ('c, 's, 'z) auth_world_scheme \<Rightarrow>
    (('c, 's, 'z) auth_world_scheme, 'c, 's) running main_result \<times> ('c, 's, 'z) auth_world_scheme" where
  "ivpn_main webauthn_New LoadLocation generateKey check env w =
     (if generateKey then
        (case GenerateMasterKey w of
           (Inl err, w') \<Rightarrow> (Fatal ''generate master key'' err, w')
         | (Inr key, w') \<Rightarrow> (Output (key @ [LF]), w'))
      else case loadConfig env of
        Inl err \<Rightarrow> (Fatal ''configuration rejected'' err, w)
      | Inr cfg \<Rightarrow>
          (case assemble webauthn_New LoadLocation env cfg w of
             (Inl (message, err), w') \<Rightarrow> (Fatal message err, w')
           | (Inr run, w') \<Rightarrow> (if check then Output [] else Running run, w')))"

text \<open>The end of \<open>main\<close> once the server returns: closed by the shutdown after a signal, or with an error.\<close>

datatype serve_result = ServerClosed | ServeFails go_error

fun served :: "serve_result \<Rightarrow> 'r main_result" where
  "served ServerClosed = Output []"
| "served (ServeFails err) = Fatal ''server failed'' err"

text \<open>Exit status, standard output and standard error; \<open>fatal\<close> prints the message and the error. No error has the verb \<open>%q\<close>.\<close>

fun main_exit :: "'r main_result \<Rightarrow> (nat \<times> string \<times> string) option" where
  "main_exit (Fatal message err) = Some (1, [], message @ '': '' @ error_text (Quote (\<lambda>_. True)) err @ [LF])"
| "main_exit (Output out) = Some (0, out, [])"
| "main_exit (Running rn) = None"

section \<open>Retention\<close>

text \<open>One round at a tick; a failed purge is logged and ends the round.\<close>

definition retention_round :: "('z sqlite_world_scheme, unit) act" where
  "retention_round =
     ebind now (\<lambda>nw. let cutoff = nw - 7 * 24 * Hour in
     ebind (PurgeAuditBefore cutoff) (\<lambda>_.
     ebind (PurgeResolvedJobsBefore cutoff) (\<lambda>_. ok ())))"

datatype loop_event = Tick | ContextDone

text \<open>The loop over what its select receives; true when it has returned.\<close>

fun retentionLoop :: "loop_event list \<Rightarrow> 'z sqlite_world_scheme \<Rightarrow> bool \<times> 'z sqlite_world_scheme" where
  "retentionLoop [] w = (False, w)"
| "retentionLoop (ContextDone # es) w = (True, w)"
| "retentionLoop (Tick # es) w = retentionLoop es (snd (retention_round w))"

end
