(* ===== verification/Control_Plane_Props.thy ===== *)
theory Control_Plane_Props
  imports Control_Plane
begin

text \<open>
  What the assembled process guarantees: which configurations it accepts, and, for every interleaving of requests and
  purges, who can change what the service keeps.
\<close>

section \<open>Configuration\<close>

text \<open>Where a secret may come from: a variable, or a small private regular file named by an absolute path.\<close>

definition secret_from :: "os_env \<Rightarrow> string \<Rightarrow> string \<Rightarrow> bool" where
  "secret_from env name v \<longleftrightarrow>
     (let direct = TrimSpace (os_Getenv env name); path = TrimSpace (os_Getenv env (name @ ''_FILE''))
      in path = [] \<and> v = direct \<or>
         path \<noteq> [] \<and> direct = [] \<and> IsAbs env path \<and>
         (\<exists>info encoded. os_Lstat env path = Inr info \<and> \<not> fi_symlink info \<and> fi_regular info \<and> fi_size info \<le> 4096 \<and>
            (os_GOOS env = ''windows'' \<or> take_bit 6 (fi_perm info) = 0) \<and>
            os_ReadFile env path = Inr encoded \<and> v = TrimSpace encoded))"

lemma secretValue_Inr: "secretValue env name = Inr v \<longleftrightarrow> secret_from env name v"
  by (auto simp: secretValue_def secret_from_def Let_def split: sum.splits)

lemma boolValue_cases:
  "boolValue env name False \<longleftrightarrow> TrimSpace (os_Getenv env name) \<in> {''1'', ''t'', ''T'', ''TRUE'', ''true'', ''True''}"
  "boolValue env name True \<longleftrightarrow> TrimSpace (os_Getenv env name) \<notin> {''0'', ''f'', ''F'', ''FALSE'', ''false'', ''False''}"
  by (auto simp: boolValue_def ParseBool_def Let_def)

lemma loadConfig_Inr:
  "loadConfig env = Inr cfg \<longleftrightarrow>
     (\<exists>key token origin. secretValue env ''IVPN_MASTER_KEY'' = Inr key \<and> secretValue env ''IVPN_BOOTSTRAP_TOKEN'' = Inr token \<and> key \<noteq> [] \<and>
        URL_Parse (env_value env ''IVPN_ORIGIN'' ''https://ivpn.internal'') = Some origin \<and> Hostname origin \<noteq> [] \<and>
        boolValue env ''IVPN_DRY_RUN'' True \<and>
        (boolValue env ''IVPN_DEV_MODE'' False \<or>
         Scheme origin = ''https'' \<and> os_Getenv env ''IVPN_TLS_CERT'' \<noteq> [] \<and> os_Getenv env ''IVPN_TLS_KEY'' \<noteq> [] \<and> length token \<ge> 32) \<and>
        cfg = (read_config env key token)\<lparr>cf_RPID := env_value env ''IVPN_RPID'' (Hostname origin)\<rparr> \<and> cf_DryRun cfg)"
  by (auto simp: loadConfig_def read_config_def Let_def split: sum.splits option.splits if_splits)

text \<open>
  C38: the configuration is fail-closed. The environment is accepted exactly when the two secrets come from where
  they may, the master key is not empty, the origin has a host name, dry-run mode is not switched off, and,
  unless development mode is switched on by name, the origin is HTTPS, both TLS files are named and the
  bootstrap token has at least 32 bytes. The accepted configuration is then in dry-run mode; a value that is not a
  boolean counts as the default.
\<close>

theorem config_fail_closed:
  "loadConfig env = Inr cfg \<longleftrightarrow>
     (\<exists>key token origin. secret_from env ''IVPN_MASTER_KEY'' key \<and> secret_from env ''IVPN_BOOTSTRAP_TOKEN'' token \<and> key \<noteq> [] \<and>
        URL_Parse (env_value env ''IVPN_ORIGIN'' ''https://ivpn.internal'') = Some origin \<and> Hostname origin \<noteq> [] \<and>
        TrimSpace (os_Getenv env ''IVPN_DRY_RUN'') \<notin> {''0'', ''f'', ''F'', ''FALSE'', ''false'', ''False''} \<and>
        (TrimSpace (os_Getenv env ''IVPN_DEV_MODE'') \<in> {''1'', ''t'', ''T'', ''TRUE'', ''true'', ''True''} \<or>
         Scheme origin = ''https'' \<and> os_Getenv env ''IVPN_TLS_CERT'' \<noteq> [] \<and> os_Getenv env ''IVPN_TLS_KEY'' \<noteq> [] \<and> length token \<ge> 32) \<and>
        cfg = (read_config env key token)\<lparr>cf_RPID := env_value env ''IVPN_RPID'' (Hostname origin)\<rparr> \<and> cf_DryRun cfg)"
  unfolding loadConfig_Inr secretValue_Inr boolValue_cases ..

section \<open>Retention\<close>

abbreviation resolved_row :: "job_row \<Rightarrow> bool" where
  "resolved_row r \<equiv> jr_state r \<in> {StateComplete, StateFailed, StateCancelled}"

lemma find_filter: "find P xs = Some x \<Longrightarrow> Q x \<Longrightarrow> find P (filter Q xs) = Some x"
  by (induction xs) (auto split: if_splits)

text \<open>Whatever fails, a round keeps every job that is not resolved.\<close>

lemma retention_keeps_open:
  assumes "retention_round w = (res, w')" and "find_job k (db w) = Some row" and "\<not> resolved_row row"
  shows "find_job k (db w') = Some row"
proof -
  let ?c = "clock w (ticks w) - 7 * 24 * Hour"
  obtain r1 w1 where a: "PurgeAuditBefore ?c (w\<lparr>ticks := Suc (ticks w)\<rparr>) = (r1, w1)" by fastforce
  have f1: "find_job k (db w1) = Some row"
    using exec_outcome [OF a [unfolded PurgeAuditBefore_def]] assms(2) by (cases r1) (auto simp: Let_def find_job_def dest!: sym [of _ "db w1"])
  show ?thesis
  proof (cases r1)
    case (Inl e)
    then show ?thesis using assms(1) a f1 by (simp add: retention_round_def now_def ebind_def Let_def)
  next
    case (Inr n)
    obtain r2 w2 where b: "PurgeResolvedJobsBefore ?c w1 = (r2, w2)" by fastforce
    have "w' = w2" using assms(1) a b Inr by (cases r2) (simp_all add: retention_round_def now_def ebind_def Let_def ok_def)
    moreover have "find_job k (db w2) = Some row"
      using exec_outcome [OF b [unfolded PurgeResolvedJobsBefore_def]] f1 assms(3)
      by (cases r2) (auto simp: Let_def find_job_def intro!: find_filter dest!: sym [of _ "db w2"])
    ultimately show ?thesis by simp
  qed
qed

text \<open>
  C40: retention. Over any number of daily rounds, failed ones included, no job that is not resolved is touched, and the loop
  returns exactly when its context ends. A round that succeeds removes exactly the resolved jobs last changed and the
  audit events created more than seven days before it, to the millisecond.
\<close>

theorem retention_exact:
  "(\<forall>k row. find_job k (db w) = Some row \<and> \<not> resolved_row row \<longrightarrow> find_job k (db (snd (retentionLoop es w))) = Some row) \<and>
   (fst (retentionLoop es w) \<longleftrightarrow> ContextDone \<in> set es) \<and>
   (\<forall>w'. store_inv w \<and> retention_round w = (Inr (), w') \<longrightarrow>
      (let old = (\<lambda>t. t < millis (clock w (ticks w) - 7 * 24 * Hour))
       in (\<forall>k. find_job k (db w') =
             (case find_job k (db w) of None \<Rightarrow> None | Some r \<Rightarrow> if old (updated_at r) \<and> resolved_row r then None else Some r)) \<and>
          t_audit (db w') = filter (\<lambda>r. \<not> old (ar_created_at r)) (t_audit (db w))))"
proof (intro conjI allI impI)
  show "fst (retentionLoop es w) \<longleftrightarrow> ContextDone \<in> set es" by (induction es w rule: retentionLoop.induct) auto
  show "find_job k (db (snd (retentionLoop es w))) = Some row" if "find_job k (db w) = Some row \<and> \<not> resolved_row row" for k row
    using that
  proof (induction es w rule: retentionLoop.induct)
    case (3 es w)
    then show ?case using retention_keeps_open [where w = w and k = k and row = row, OF prod.collapse [symmetric]] by simp
  qed auto
next
  fix w'
  assume w': "store_inv w \<and> retention_round w = (Inr (), w')"
  let ?c = "clock w (ticks w) - 7 * 24 * Hour"
  obtain n m w1 where a: "PurgeAuditBefore ?c (w\<lparr>ticks := Suc (ticks w)\<rparr>) = (Inr n, w1)" and b: "PurgeResolvedJobsBefore ?c w1 = (Inr m, w')"
    using conjunct2 [OF w'] by (auto simp: retention_round_def now_def ebind_def ok_def Let_def split: sum.splits prod.splits)
  have d1: "db w1 = (db w)\<lparr>t_audit := filter (\<lambda>r. \<not> ar_created_at r < millis ?c) (t_audit (db w))\<rparr>"
    using exec_Inr [OF a [unfolded PurgeAuditBefore_def]] by (simp add: Let_def)
  have "store_inv w1" by (rule preservesD [OF inv_PurgeAuditBefore a]) (use w' in simp)
  from purge_exact [OF this b] d1
  show "let old = (\<lambda>t. t < millis ?c)
       in (\<forall>k. find_job k (db w') =
             (case find_job k (db w) of None \<Rightarrow> None | Some r \<Rightarrow> if old (updated_at r) \<and> resolved_row r then None else Some r)) \<and>
          t_audit (db w') = filter (\<lambda>r. \<not> old (ar_created_at r)) (t_audit (db w))"
    by (simp add: find_job_def cong: option.case_cong)
qed

text \<open>A round keeps a draft, however old it is.\<close>

theorem retention_exact_witness:
  "\<exists>w'. retention_round service_world = (Inr (), w') \<and> find_job ''job-1'' (db w') = Some sample_row \<and> fst (retentionLoop [Tick, ContextDone] service_world)"
proof -
  have f: "find_job ''job-1'' (db service_world) = Some sample_row" "\<not> resolved_row sample_row"
    by (simp_all add: find_job_def service_world_def sample_jobs_def sample_row_def empty_db_def)
  obtain w' where w': "retention_round service_world = (Inr (), w')"
    using sample_service_facts(4)
    by (simp add: retention_round_def now_def ebind_def PurgeAuditBefore_def PurgeResolvedJobsBefore_def exec_nofault Let_def ok_def)
  have "snd (retentionLoop [Tick, ContextDone] service_world) = w'" by (simp add: w')
  then show ?thesis using retention_exact [of service_world "[Tick, ContextDone]"] f w' sample_service_facts(3) by auto
qed

section \<open>What the service leaves alone\<close>

text \<open>Whatever does not depend on the database, the clock or the random source is left alone by every operation of the service.\<close>

locale store_frame =
  fixes g :: "'z sqlite_world_scheme \<Rightarrow> 'v"
  assumes free: "store_free g"
begin

lemma free_ambient: "ambient_free g"
  using free by (simp add: store_free_def)

lemmas frame = keeps_ebind keeps_wrap_err keeps_ignore_err keeps_if keeps_ok keeps_fail keeps_lift keeps_ensure keeps_requireOne
  keeps_store_free [OF free] keeps_now [OF free_ambient] keeps_ReadFull [OF free_ambient] keeps_Seal [OF free_ambient]

lemma frame_store:
  "keeps g (CreateJob job)" "keeps g (GetJob i)" "keeps g (ApproveJob i h t)" "keeps g (TransitionJob i st st' t)" "keeps g (AddAudit d ev)"
  "keeps g (ListAudit d n)" "keeps g SystemState_get" "keeps g (SetEmergencyStop b reason t)" "keeps g (ListReceipts d i)"
  "keeps g (PurgeAuditBefore t)" "keeps g (PurgeResolvedJobsBefore t)"
  unfolding CreateJob_def GetJob_def ApproveJob_def TransitionJob_def AddAudit_def ListAudit_def SystemState_get_def SetEmergencyStop_def
    ListReceipts_def PurgeAuditBefore_def PurgeResolvedJobsBefore_def
  by (auto intro!: frame split: option.split)

lemma frame_ListJobs: "keeps g (ListJobs d n)"
proof -
  have "keeps g (summarize d rows)" for rows
    by (induction rows) (simp add: keeps_def, auto simp: Let_def intro!: frame frame_store)
  then show ?thesis unfolding ListJobs_def Let_def by (auto intro!: frame)
qed

lemma frame_service:
  assumes "store s = SQLite_Store d"
  shows "keeps g (CreateDraft s input)" "keeps g (Preview_get s i)" "keeps g (Approve s i h)" "keeps g (Cancel s i)" "keeps g (Reconcile s i)"
    "keeps g (Jobs s n)" "keeps g (Audit s n)" "keeps g (Service_SystemState s)" "keeps g (EmergencyStop s b reason)"
  unfolding CreateDraft_def Preview_get_def Approve_def Cancel_def Reconcile_def Jobs_def Audit_def Service_SystemState_def
    EmergencyStop_def audit_def randomID_def assms SQLite_Store_simps Let_def
  by (auto intro!: frame frame_store frame_ListJobs)

lemma frame_retention: "keeps g retention_round"
  unfolding retention_round_def Let_def by (auto intro!: frame frame_store)

end

interpretation manager_frame: store_frame "mgr :: ('c, 's, 'z) auth_world_scheme \<Rightarrow> _"
  by unfold_locales (rule store_free_mgr)

section \<open>Requests outside the authentication routes\<close>

lemma leaves_mgr_auth:
  "leaves mgr (authenticated r)" "leaves mgr (CSRFToken m r)" "leaves mgr (ValidateCSRF m r)"
  by (auto simp: leaves_def authenticated_def CSRFToken_def ValidateCSRF_def sessionForRequest_def mgr_def Let_def split: option.split prod.split)

lemma leaves_mgr_guards:
  "(\<And>r. leaves mgr (h r)) \<Longrightarrow> leaves mgr (requireCSRF sv h r)" "(\<And>r. leaves mgr (h r)) \<Longrightarrow> leaves mgr (requireOperational sv h r)"
  "(\<And>r. leaves mgr (h r)) \<Longrightarrow> leaves mgr (Require (sv_auth sv) h r)"
proof -
  assume h: "\<And>r. leaves mgr (h r)"
  show "leaves mgr (requireCSRF sv h r)"
    unfolding requireCSRF_def by (intro leaves_sbind leaves_mgr_auth) (auto simp: h split: prod.split)
  show "leaves mgr (requireOperational sv h r)" using h by (simp add: leaves_def requireOperational_def)
  show "leaves mgr (Require (sv_auth sv) h r)"
    unfolding Require_def by (auto intro!: leaves_sbind leaves_mgr_auth h)
qed

lemma leaves_mgr_protected:
  assumes "store (sv_service sv) = SQLite_Store d" and "wc_XOAuth (sv_config sv) = None"
  shows "leaves mgr (protected_handler sv route r)"
proof -
  note ops = manager_frame.frame_service [OF assms(1)]
  have x: "leaves mgr (x_connected sv)" by (simp add: leaves_def x_connected_def assms(2))
  have "leaves mgr (dashboard sv r)"
    unfolding dashboard_def by (intro leaves_on_error leaves_sbind leaves_respond ops x leaves_mgr_auth) (simp add: leaves_def Let_def)
  moreover have "leaves mgr (preview sv jid r)" "leaves mgr (jobJSON sv jid r)" for jid
    unfolding preview_def jobJSON_def by (auto intro!: leaves_on_error leaves_sbind leaves_mgr_auth ops split: option.split)
  moreover have "leaves mgr (createDraft sv r)" "leaves mgr (approve sv jid r)" "leaves mgr (cancel sv jid r)" "leaves mgr (reconcile sv jid r)"
      "leaves mgr (emergencyStop sv r)" for jid r
    unfolding createDraft_def approve_def cancel_def reconcile_def emergencyStop_def Let_def
    by (auto intro!: leaves_on_error ops split: option.split prod.split)
  moreover have "leaves mgr (xOAuthStart sv r)" "leaves mgr (xOAuthCallback sv r)" "leaves mgr (revokeConnection sv platform r)" for platform r
    by (simp_all add: xOAuthStart_def xOAuthCallback_def revokeConnection_def assms(2))
  ultimately show ?thesis by (cases route) (simp_all add: leaves_mgr_guards)
qed

text \<open>A request either is one of the manager's own, or leaves the manager's state alone.\<close>

lemma Handler_mgr:
  assumes "store (sv_service sv) = SQLite_Store d" and "wc_XOAuth (sv_config sv) = None" and "Handler sv r w = (p, w')"
  shows "case root_pattern (sq_method r) (sq_path r) of AuthR a \<Rightarrow> \<exists>q :: page reply. Routes (sv_auth sv) a r w = (q, w') | _ \<Rightarrow> mgr w' = mgr w"
proof -
  obtain q where q: "root_handler sv (root_pattern (sq_method r) (sq_path r)) r w = (q, w')"
    using assms(3) by (auto simp: Handler_def securityHeaders_def sbind_def split: prod.splits)
  have "leaves mgr (protected_mux sv r)" for r
    unfolding protected_mux_def by (auto intro!: leaves_mgr_protected assms(1,2) split: option.split)
  then have "leaves mgr (Require (sv_auth sv) (protected_mux sv) r)" by (rule leaves_mgr_guards(3))
  with q show ?thesis
    by (auto simp: health_def login_def dest: leavesD split: root_route.splits)
qed

section \<open>The process\<close>

text \<open>A run of the process: requests and retention rounds in any order.\<close>

inductive process_run :: "(('c, 's, 'z) auth_world_scheme, 'c, 's) running \<Rightarrow> ('c, 's, 'z) auth_world_scheme \<Rightarrow>
    (server_request \<times> page reply) list \<Rightarrow> ('c, 's, 'z) auth_world_scheme \<Rightarrow> bool" for rn w0 where
  started: "process_run rn w0 [] w0"
| request: "process_run rn w0 tr w \<Longrightarrow> Handler (rn_server rn) r w = (p, w') \<Longrightarrow> process_run rn w0 (tr @ [(r, p)]) w'"
| purged: "process_run rn w0 tr w \<Longrightarrow> retention_round w = (res, w') \<Longrightarrow> process_run rn w0 tr w'"

definition auth_request :: "server_request \<Rightarrow> bool" where
  "auth_request r \<longleftrightarrow> (\<exists>a. root_pattern (sq_method r) (sq_path r) = AuthR a)"

lemma process_auth_run:
  assumes "process_run rn w0 tr w" and "store (sv_service (rn_server rn)) = SQLite_Store d" and "wc_XOAuth (sv_config (rn_server rn)) = None"
  shows "\<exists>tr'. auth_run (sv_auth (rn_server rn)) w0 (tr' :: (auth_route \<times> server_request \<times> page reply) list) w \<and>
    map (\<lambda>(_, r, _). r) tr' = filter auth_request (map fst tr)"
  using assms(1)
proof induction
  case started
  show ?case by (rule exI [of _ "[]"]) (simp add: auth_run.start)
next
  case (request tr w r p w')
  then obtain tr' :: "(auth_route \<times> server_request \<times> page reply) list"
    where tr': "auth_run (sv_auth (rn_server rn)) w0 tr' w" "map (\<lambda>(_, r, _). r) tr' = filter auth_request (map fst tr)" by blast
  note step = Handler_mgr [OF assms(2,3) request.hyps(2)]
  show ?case
  proof (cases "auth_request r")
    case True
    then obtain a and q :: "page reply" where "Routes (sv_auth (rn_server rn)) a r w = (q, w')"
      using step by (auto simp: auth_request_def)
    from auth_run.request [OF tr'(1) this] show ?thesis using tr'(2) True by (intro exI [of _ "tr' @ [(a, r, q)]"]) simp
  next
    case False
    then have "mgr w' = mgr w" using step by (auto simp: auth_request_def split: root_route.splits)
    from auth_run.elsewhere [OF tr'(1) this] show ?thesis using tr'(2) False by (intro exI [of _ tr']) simp
  qed
next
  case (purged tr w res w')
  have "mgr w' = mgr w" using keeps_snd [OF manager_frame.frame_retention, of w] purged.hyps(2) by simp
  then show ?case using purged.IH auth_run.elsewhere by blast
qed

text \<open>What \<open>main\<close> puts together.\<close>

lemma assemble_parts:
  fixes w :: "('c, 's, 'z) auth_world_scheme"
  assumes "assemble webauthn_New LoadLocation env cfg w = (Inr rn, w0)"
  obtains key w1 where "DecodeMasterKey (cf_MasterKey cfg) = Inr key" "length key = 32"
    "rn_database rn = \<lparr>sealer = Some \<lparr>master = key\<rparr>\<rparr>"
    "New webauthn_New (SQLite_StateStore (rn_database rn)) \<lparr>RPID = cf_RPID cfg, Origin = cf_Origin cfg, BootstrapToken = cf_BootstrapToken cfg,
       SessionTTL = 900000000000, DevMode = cf_DevMode cfg\<rparr> w1 = (Inr (sv_auth (rn_server rn)), w0)"
    "store (sv_service (rn_server rn)) = SQLite_Store (rn_database rn)" "wc_XOAuth (sv_config (rn_server rn)) = None"
    "wc_DryRun (sv_config (rn_server rn)) = cf_DryRun cfg" "rn_tls rn = (if cf_TLSCert cfg \<noteq> [] then Some (cf_TLSCert cfg, cf_TLSKey cfg) else None)"
proof -
  have st: "store (NewService st e [WithXEstimatedCharge v]) = st" for st :: "('c, 's, 'z) auth_world_scheme Store" and e v
    by (simp add: NewService_def WithXEstimatedCharge_def Let_def)
  have op: "OpenEncrypted (Some e) w = (Inr d, w1) \<Longrightarrow> d = \<lparr>sealer = Some e\<rparr>" for e d and w w1 :: "('c, 's, 'z) auth_world_scheme"
    by (auto simp: OpenEncrypted_def open_store_def ebind_eq_Inr)
  from assms show thesis
    by (auto simp: assemble_def Web_New_def Let_def NewEnvelope_def keySize_def st split: option.splits sum.splits prod.splits if_splits
        dest!: op intro: that)
qed

lemma New_devMode: "New webauthn_New st cfg w = (Inr m, w0) \<Longrightarrow> devMode m = DevMode cfg"
  by (auto simp: New_def Let_def ebind_eq_Inr)

text \<open>
  C39: the process as a whole. Take any environment that \<open>main\<close> accepts in which development mode is not switched on,
  and any interleaving of requests and retention rounds from its start. The process serves TLS, in dry-run mode, on an encrypted store;
  and every request that changes jobs, receipts, the audit log, the emergency stop or the X connection is authorised for its
  route, under a session that an earlier request to the authentication routes of this process earned and that has not been logged out since.
\<close>

theorem process_changes_traced:
  fixes w :: "('c, 's, 'z) auth_world_scheme"
  assumes "ivpn_main webauthn_New LoadLocation gen chk env w = (Running rn, w0)"
    and "TrimSpace (os_Getenv env ''IVPN_DEV_MODE'') \<notin> {''1'', ''t'', ''T'', ''TRUE'', ''true'', ''True''}"
    and "process_run rn w0 tr w1" and "Handler (rn_server rn) r w1 = (p, w2)" and "service_view w2 \<noteq> service_view w1"
  shows "rn_tls rn \<noteq> None \<and> wc_DryRun (sv_config (rn_server rn)) \<and> sealer (rn_database rn) \<noteq> None \<and>
    (\<exists>route k tr'. protected_pattern (sq_method r) (sq_path r) = Some route \<and> authorised (rn_server rn) r w1 route \<and>
       cookie_hash r sessionCookie = Some k \<and> earned (sv_auth (rn_server rn)) w0 (tr' :: (auth_route \<times> server_request \<times> page reply) list) k \<and>
       map (\<lambda>(_, r, _). r) tr' = filter auth_request (map fst tr))"
proof -
  obtain cfg where cfg: "loadConfig env = Inr cfg" "assemble webauthn_New LoadLocation env cfg w = (Inr rn, w0)"
    using assms(1) by (auto simp: ivpn_main_def split: if_splits sum.splits prod.splits)
  obtain key w' where parts: "rn_database rn = \<lparr>sealer = Some \<lparr>master = key\<rparr>\<rparr>"
      "New webauthn_New (SQLite_StateStore (rn_database rn)) \<lparr>RPID = cf_RPID cfg, Origin = cf_Origin cfg, BootstrapToken = cf_BootstrapToken cfg,
         SessionTTL = 900000000000, DevMode = cf_DevMode cfg\<rparr> w' = (Inr (sv_auth (rn_server rn)), w0)"
      "store (sv_service (rn_server rn)) = SQLite_Store (rn_database rn)" "wc_XOAuth (sv_config (rn_server rn)) = None"
      "wc_DryRun (sv_config (rn_server rn)) = cf_DryRun cfg" "rn_tls rn = (if cf_TLSCert cfg \<noteq> [] then Some (cf_TLSCert cfg, cf_TLSKey cfg) else None)"
    using assemble_parts [OF cfg(2)] by metis
  have production: "\<not> cf_DevMode cfg" "cf_TLSCert cfg \<noteq> []" "cf_DryRun cfg"
    using cfg(1) assms(2) by (auto simp: loadConfig_Inr read_config_def boolValue_cases)
  have dev: "\<not> devMode (sv_auth (rn_server rn))" using New_devMode [OF parts(2)] production(1) by simp
  note fresh = New_fresh [OF parts(2)]
  obtain route where route: "protected_pattern (sq_method r) (sq_path r) = Some route" "authorised (rn_server rn) r w1 route"
    using changes_authorised [OF assms(4,5) dev fresh(1) parts(3)] parts(4) by auto
  then obtain k e where k: "cookie_hash r sessionCookie = Some k" "sessions w1 k = Some e" by (auto simp: authorised_def)
  obtain tr' :: "(auth_route \<times> server_request \<times> page reply) list" where tr': "auth_run (sv_auth (rn_server rn)) w0 tr' w1"
      "map (\<lambda>(_, r, _). r) tr' = filter auth_request (map fst tr)"
    using process_auth_run [OF assms(3) parts(3,4)] by blast
  have "earned (sv_auth (rn_server rn)) w0 tr' k" by (rule sqlite_auth.run_earned [OF tr'(1) fresh(1,2) k(2)])
  then show ?thesis using route k(1) tr'(2) parts(1,5,6) production by auto
qed

section \<open>Witness\<close>

definition boot_env :: os_env where
  "boot_env = \<lparr>os_GOOS = ''linux'',
     os_Getenv = (\<lambda>name. if name = ''IVPN_MASTER_KEY'' then ''BwcHBwcHBwcHBwcHBwcHBwcHBwcHBwcHBwcHBwcHBwc''
       else if name = ''IVPN_BOOTSTRAP_TOKEN'' then replicate 32 CHR ''b''
       else if name = ''IVPN_TLS_CERT'' then ''/etc/ivpn/tls.crt'' else if name = ''IVPN_TLS_KEY'' then ''/etc/ivpn/tls.key'' else []),
     os_windows_abs = (\<lambda>_. False), os_Lstat = (\<lambda>_. Inl (ErrorsNew ''no such file'')), os_ReadFile = (\<lambda>_. Inl (ErrorsNew ''no such file'')),
     os_mkdir_of = (\<lambda>_. None)\<rparr>"
definition boot_config :: config where
  "boot_config = \<lparr>cf_Listen = ''127.0.0.1:8443'', cf_Origin = ''https://ivpn.internal'', cf_RPID = ''ivpn.internal'',
     cf_DatabasePath = ''data/ivpn.db'', cf_MasterKey = ''BwcHBwcHBwcHBwcHBwcHBwcHBwcHBwcHBwcHBwcHBwc'',
     cf_BootstrapToken = replicate 32 CHR ''b'', cf_TLSCert = ''/etc/ivpn/tls.crt'', cf_TLSKey = ''/etc/ivpn/tls.key'', cf_DryRun = True,
     cf_DevMode = False, cf_Timezone = ''Europe/Paris'', cf_XEstimatedCharge = []\<rparr>"
lemma TrimSpace_plain:
  assumes "s \<noteq> []" and "bv (hd s) < 128" "\<not> IsSpace (bv (hd s))" and "bv (last s) < 128" "\<not> IsSpace (bv (last s))"
  shows "TrimSpace s = s"
proof -
  have l: "TrimLeft s = s" using assms(1-3) by (subst TrimLeft.simps) (cases s, simp_all)
  have d: "drop (length s - Suc 0) s = [last s]" "s ! (length s - Suc 0) = last s"
    using assms(1) by (simp_all add: last_conv_nth) (metis append_butlast_last_id append_eq_conv_conj last_conv_nth length_butlast One_nat_def)
  have "last_rune s = Some (bv (last s), 1)"
    using assms(1,4) d by (simp add: last_rune_def Let_def cont_byte_def Suc_le_eq)
  then show ?thesis using assms(5) l by (simp add: TrimSpace_def TrimRight.simps [of s])
qed

lemma boot_trims: "TrimSpace ''BwcHBwcHBwcHBwcHBwcHBwcHBwcHBwcHBwcHBwcHBwc'' = ''BwcHBwcHBwcHBwcHBwcHBwcHBwcHBwcHBwcHBwcHBwc''"
  "TrimSpace (replicate 32 CHR ''b'') = replicate 32 CHR ''b''" "TrimSpace [] = []"
proof -
  show "TrimSpace ''BwcHBwcHBwcHBwcHBwcHBwcHBwcHBwcHBwcHBwcHBwc'' = ''BwcHBwcHBwcHBwcHBwcHBwcHBwcHBwcHBwcHBwcHBwc''"
    "TrimSpace (replicate 32 CHR ''b'') = replicate 32 CHR ''b''"
    by (rule TrimSpace_plain; simp add: bv_def IsSpace_def)+
qed (simp add: TrimSpace_ascii ascii_def)
lemma boot_origin: "map_option (\<lambda>u. (Scheme u, Hostname u)) (URL_Parse ''https://ivpn.internal'') = Some (''https'', ''ivpn.internal'')"
  by code_simp
lemma boot_accepted: "loadConfig boot_env = Inr boot_config"
proof -
  obtain u where u: "URL_Parse ''https://ivpn.internal'' = Some u" "Scheme u = ''https''" "Hostname u = ''ivpn.internal''"
    using boot_origin by auto
  show ?thesis
    by (simp add: loadConfig_def secretValue_def read_config_def env_value_def boolValue_def boot_env_def boot_config_def boot_trims u Let_def default_database_def)
qed

definition boot_world :: "(unit, unit) auth_world" where
  "boot_world = sample_auth_world\<lparr>db := empty_db, entropy := replicate 1024 CHR 0x07\<rparr>"

definition boot_store :: SQLite where
  "boot_store = \<lparr>sealer = Some \<lparr>master = replicate 32 CHR 0x07\<rparr>\<rparr>"

definition boot_manager :: "((unit, unit) auth_world, unit, unit) Manager" where
  "boot_manager =
     \<lparr>mg_wa = sample_webauthn, mg_store = SQLite_StateStore boot_store, bootstrapHash = sha256 (replicate 32 CHR ''b''),
      secureCookies = True, sessionTTL = 15 * Minute, devMode = False, devCSRF = b64_encode_raw (replicate 24 CHR 0x07)\<rparr>"

definition boot_running :: "((unit, unit) auth_world, unit, unit) running" where
  "boot_running =
     \<lparr>rn_server = \<lparr>sv_service = NewService (SQLite_Store boot_store) \<lparr>master = replicate 32 CHR 0x07\<rparr> [WithXEstimatedCharge []], sv_auth = boot_manager,
        sv_config = \<lparr>wc_DryRun = True, wc_Timezone = ''Europe/Paris'', wc_XConfigured = False, wc_NostrConfigured = False, wc_XOAuth = None\<rparr>,
        sv_zone = (\<lambda>_. (0, 0, 0))\<rparr>,
      rn_database = boot_store, rn_listen = ''127.0.0.1:8443'', rn_tls = Some (''/etc/ivpn/tls.crt'', ''/etc/ivpn/tls.key''),
      rn_limits = server_limits\<rparr>"

lemma boot_open:
  "\<exists>w0. OpenEncrypted (Some \<lparr>master = replicate 32 CHR 0x07\<rparr>) boot_world = (Inr boot_store, w0) \<and> faults w0 = [] \<and>
     entropy w0 = replicate 1024 CHR 0x07 \<and> clock w0 = (\<lambda>_. y2000) \<and> t_auth (db w0) = None \<and> t_recovery (db w0) = None"
  by (simp add: OpenEncrypted_def open_store_def migrate_def migration_def boot_world_def sample_auth_world_def exec_nofault create_table_def
      create_index_def init_system_def ensureBlobColumn_def empty_db_def wrap_err_def ebind_def boot_store_def)

lemma boot_key: "DecodeMasterKey ''BwcHBwcHBwcHBwcHBwcHBwcHBwcHBwcHBwcHBwcHBwc'' = Inr (replicate 32 CHR 0x07)"
  by code_simp

lemma boot_new:
  assumes "faults w1 = []" "entropy w1 = replicate 1024 CHR 0x07" "t_auth (db w1) = None" "t_recovery (db w1) = None"
  shows "\<exists>w0. New (\<lambda>_ _. Inr sample_webauthn) (SQLite_StateStore boot_store)
      \<lparr>RPID = ''ivpn.internal'', Origin = ''https://ivpn.internal'', BootstrapToken = replicate 32 CHR ''b'', SessionTTL = 15 * Minute, DevMode = False\<rparr> w1 =
      (Inr boot_manager, w0) \<and>
     Credentials (mg_user w0) = [] \<and> entropy w0 = replicate 968 CHR 0x07 \<and> faults w0 = [] \<and> clock w0 = clock w1"
proof -
  obtain u where u: "URL_Parse ''https://ivpn.internal'' = Some u" "Scheme u = ''https''" "Host u = ''ivpn.internal''"
    using sample_origin by auto
  show ?thesis
    using assms by (simp add: New_def u Let_def fresh_manager_def randomToken_def load_def loadRecovery_def
        LoadAuthState_def LoadRecoveryHash_def load_sealed_def query_def sql_def boot_manager_def)
qed

lemma boot_mkdir: "os_mkdir_of boot_env path = None"
  by (simp add: boot_env_def)

lemma boot_runs:
  "\<exists>w0. ivpn_main (\<lambda>_ _. Inr sample_webauthn) (\<lambda>_. Inr (\<lambda>_. (0, 0, 0))) False False boot_env boot_world = (Running boot_running, w0) \<and>
     Credentials (mg_user w0) = [] \<and> entropy w0 = replicate 968 CHR 0x07 \<and> faults w0 = [] \<and> clock w0 = (\<lambda>_. y2000)"
proof -
  obtain w1 where w1: "OpenEncrypted (Some \<lparr>master = replicate 32 CHR 0x07\<rparr>) boot_world = (Inr boot_store, w1)" "faults w1 = []"
     "entropy w1 = replicate 1024 CHR 0x07" "clock w1 = (\<lambda>_. y2000)" "t_auth (db w1) = None" "t_recovery (db w1) = None"
    using boot_open by blast
  obtain w0 where w0: "New (\<lambda>_ _. Inr sample_webauthn) (SQLite_StateStore boot_store)
      \<lparr>RPID = ''ivpn.internal'', Origin = ''https://ivpn.internal'', BootstrapToken = replicate 32 CHR ''b'', SessionTTL = 15 * Minute, DevMode = False\<rparr> w1 =
      (Inr boot_manager, w0)" "Credentials (mg_user w0) = []" "entropy w0 = replicate 968 CHR 0x07" "faults w0 = []" "clock w0 = (\<lambda>_. y2000)"
    using boot_new [OF w1(2,3,5,6)] w1(4) by auto
  have "assemble (\<lambda>_ _. Inr sample_webauthn) (\<lambda>_. Inr (\<lambda>_. (0, 0, 0))) boot_env boot_config boot_world = (Inr boot_running, w0)"
    by (simp add: assemble_def boot_mkdir boot_config_def boot_key NewEnvelope_def keySize_def w1(1) w0(1) [simplified] w0(1) [unfolded boot_manager_def]
        Web_New_def Let_def boot_running_def)
  then show ?thesis using w0 by (simp add: ivpn_main_def boot_accepted)
qed

definition boot_request :: "string list \<Rightarrow> server_request" where
  "boot_request path = (Auth_Props.sample_request ceremonyCookie)\<lparr>sq_path := path,
     sq_header := (\<lambda>k. if k = ''X-Csrf-Token'' then b64_encode_raw (replicate 24 CHR 0x07)
                        else if k = ''X-Bootstrap-Token'' then replicate 32 CHR ''b'' else [])\<rparr>"

lemma boot_register_begin:
  assumes "Credentials (mg_user w0) = []" "entropy w0 = replicate 968 CHR 0x07" "faults w0 = []" "clock w0 = (\<lambda>_. y2000)"
  shows "\<exists>(p1 :: page reply) w1. Routes boot_manager RegisterBegin (boot_request path) w0 = (p1, w1) \<and>
    entropy w1 = replicate 912 CHR 0x07 \<and> clock w1 = (\<lambda>_. y2000) \<and> faults w1 = [] \<and>
    ceremonies w1 (sha256 (replicate 32 CHR 0x07)) = Some \<lparr>ce_Kind = ''register'', ce_Expires = y2000 + 5 * Minute,
       ce_CSRF = b64_encode_raw (replicate 24 CHR 0x07), ce_Session = (), ce_Bootstrap = True\<rparr>"
  using assms
  by (simp add: registerBegin_def CredentialCount_def may_register_def validBootstrap_def boot_manager_def boot_request_def Auth_Props.sample_request_def
      sample_webauthn_def beginCeremony_def randomTokenWithHash_def randomToken_def add_ceremony_def purgeLocked_def Let_def)

lemma boot_register_finish:
  assumes "entropy w1 = replicate 912 CHR 0x07" "clock w1 = (\<lambda>_. y2000)" "faults w1 = []"
    "ceremonies w1 (sha256 (replicate 32 CHR 0x07)) = Some \<lparr>ce_Kind = ''register'', ce_Expires = y2000 + 5 * Minute,
       ce_CSRF = b64_encode_raw (replicate 24 CHR 0x07), ce_Session = (), ce_Bootstrap = True\<rparr>"
  shows "\<exists>(p2 :: page reply) w2. Routes boot_manager RegisterFinish (boot_request path) w1 = (p2, w2) \<and>
    length (entropy w2) = 656 \<and> clock w2 = (\<lambda>_. y2000) \<and> faults w2 = [] \<and>
    sessions w2 (sha256 (replicate 32 CHR 0x07)) = Some \<lparr>se_Expires = y2000 + 15 * Minute, se_CSRF = b64_encode_raw (replicate 24 CHR 0x07)\<rparr>"
proof -
  have e: "envelope_ok \<lparr>master = replicate 32 CHR 0x07\<rparr>" by (simp add: envelope_ok_def keySize_def)
  show ?thesis
  using assms
  by (simp add: registerFinish_def consumeCeremony_def boot_request_def Auth_Props.sample_request_def Cookie_def ceremonyCookie_def RawURL_roundtrip
      take_ceremony_def may_register_def validBootstrap_def boot_manager_def sample_webauthn_def finish_registration_def persistLocked_def
      SaveAuthState_def boot_store_def Seal_success [OF e] exec_def sql_def rotateRecoveryCode_def rotate_save_def rotate_install_def SaveRecoveryHash_def save_sealed_def
      issueSession_def randomTokenWithHash_def randomToken_def add_session_def purgeLocked_def Let_def ebind_ok wrap_err_def)
qed

lemma boot_session:
  assumes "clock w2 = (\<lambda>_. y2000)" "sessions w2 (sha256 (replicate 32 CHR 0x07)) = Some \<lparr>se_Expires = y2000 + 15 * Minute, se_CSRF = b64_encode_raw (replicate 24 CHR 0x07)\<rparr>"
  shows "authenticated sample_stop_request w2 = (True, w2\<lparr>ticks := Suc (ticks w2)\<rparr>)"
    "ValidateCSRF boot_manager sample_stop_request w2 = ((True, sample_stop_request), w2\<lparr>ticks := Suc (ticks w2)\<rparr>)"
proof -
  have c: "b64_encode_raw (replicate 24 CHR 0x07) \<noteq> []" by code_simp
  have live: "sessionForRequest sample_stop_request w2 = (sessions w2 (sha256 (replicate 32 CHR 0x07)), w2\<lparr>ticks := Suc (ticks w2)\<rparr>)"
    using assms by (simp add: sessionForRequest_def sample_stop_request_def Auth_Props.sample_request_def Cookie_def RawURL_roundtrip Let_def)
  show "authenticated sample_stop_request w2 = (True, w2\<lparr>ticks := Suc (ticks w2)\<rparr>)"
    using live assms(2) by (simp add: authenticated_def)
  show "ValidateCSRF boot_manager sample_stop_request w2 = ((True, sample_stop_request), w2\<lparr>ticks := Suc (ticks w2)\<rparr>)"
    using c live assms(2)
    by (simp add: ValidateCSRF_def CSRFToken_def provided_csrf_def boot_manager_def Let_def sample_stop_request_def Auth_Props.sample_request_def)
qed

lemma boot_stop:
  assumes "length (entropy w2) = 656" "clock w2 = (\<lambda>_. y2000)" "faults w2 = []"
  shows "\<exists>p w'. emergencyStop (rn_server boot_running) sample_stop_request w2 = (p, w') \<and> length (t_audit (db w')) = Suc (length (t_audit (db w2)))"
proof -
  have e: "envelope_ok \<lparr>master = replicate 32 CHR 0x07\<rparr>" by (simp add: envelope_ok_def keySize_def)
  have y: "json_year_ok y2000" by code_simp
  show ?thesis
    using assms y
    by (simp add: emergencyStop_def sample_stop_request_def Auth_Props.sample_request_def boot_running_def boot_store_def ParseForm_def parsePostForm_def
        EmergencyStop_def NewService_def WithXEstimatedCharge_def Let_def form_of_def FormValue_def Values_Get_def audit_def SetEmergencyStop_def AddAudit_def
        MarshalEvent_def Seal_success [OF e] exec_def sql_def insert_audit_def on_error_def ebind_def now_def lift_def wrap_err_def SQLite_Store_def)
qed

lemma boot_changes:
  assumes "length (entropy w2) = 656" "clock w2 = (\<lambda>_. y2000)" "faults w2 = []"
    "sessions w2 (sha256 (replicate 32 CHR 0x07)) = Some \<lparr>se_Expires = y2000 + 15 * Minute, se_CSRF = b64_encode_raw (replicate 24 CHR 0x07)\<rparr>"
  shows "\<exists>p w'. Handler (rn_server boot_running) sample_stop_request w2 = (p, w') \<and> service_view w' \<noteq> service_view w2"
proof -
  let ?n = "Suc (ticks w2)" and ?m = "Suc (Suc (ticks w2))"
  obtain p w' where st: "emergencyStop (rn_server boot_running) sample_stop_request (w2\<lparr>ticks := ?m\<rparr>) = (p, w')"
      "length (t_audit (db w')) = Suc (length (t_audit (db w2)))"
    using boot_stop [of "w2\<lparr>ticks := ?m\<rparr>"] assms by auto
  have m: "sv_auth (rn_server boot_running) = boot_manager" "devMode boot_manager = False" by (simp_all add: boot_running_def boot_manager_def)
  have "protected_mux (rn_server boot_running) sample_stop_request (w2\<lparr>ticks := ?n\<rparr>) = (p, w')"
    using boot_session(2) [of "w2\<lparr>ticks := ?n\<rparr>"] assms st(1)
    by (simp add: protected_mux_def sample_stop_routes requireCSRF_def sbind_def m)
  then have "Handler (rn_server boot_running) sample_stop_request w2 = (p\<lparr>rp_header := security_headers @ rp_header p\<rparr>, w')"
    using boot_session(1) [of w2] assms
    by (simp add: Handler_def securityHeaders_def sample_stop_routes Require_def sbind_def m)
  then show ?thesis using st(2) by (auto simp: service_view_def)
qed

text \<open>A fresh process and the registration of the first passkey with the bootstrap token.\<close>

lemma boot_registered:
  "\<exists>w0 tr w2. ivpn_main (\<lambda>_ _. Inr sample_webauthn) (\<lambda>_. Inr (\<lambda>_. (0, 0, 0))) False False boot_env boot_world = (Running boot_running, w0) \<and>
     process_run boot_running w0 tr w2 \<and> length (filter auth_request (map fst tr)) = 2 \<and>
     length (entropy w2) = 656 \<and> clock w2 = (\<lambda>_. y2000) \<and> faults w2 = [] \<and>
     sessions w2 (sha256 (replicate 32 CHR 0x07)) = Some \<lparr>se_Expires = y2000 + 15 * Minute, se_CSRF = b64_encode_raw (replicate 24 CHR 0x07)\<rparr>"
proof -
  let ?b = "boot_request [''auth'', ''register'', ''begin'']" and ?f = "boot_request [''auth'', ''register'', ''finish'']"
  obtain w0 where w0: "ivpn_main (\<lambda>_ _. Inr sample_webauthn) (\<lambda>_. Inr (\<lambda>_. (0, 0, 0))) False False boot_env boot_world = (Running boot_running, w0)"
      "Credentials (mg_user w0) = []" "entropy w0 = replicate 968 CHR 0x07" "faults w0 = []" "clock w0 = (\<lambda>_. y2000)"
    using boot_runs by blast
  obtain q1 :: "page reply" and w1 where w1: "Routes boot_manager RegisterBegin ?b w0 = (q1, w1)"
      "entropy w1 = replicate 912 CHR 0x07" "clock w1 = (\<lambda>_. y2000)" "faults w1 = []"
      "ceremonies w1 (sha256 (replicate 32 CHR 0x07)) = Some \<lparr>ce_Kind = ''register'', ce_Expires = y2000 + 5 * Minute,
         ce_CSRF = b64_encode_raw (replicate 24 CHR 0x07), ce_Session = (), ce_Bootstrap = True\<rparr>"
    using boot_register_begin [OF w0(2-5)] by blast
  obtain q2 :: "page reply" and w2 where w2: "Routes boot_manager RegisterFinish ?f w1 = (q2, w2)"
      "length (entropy w2) = 656" "clock w2 = (\<lambda>_. y2000)" "faults w2 = []"
      "sessions w2 (sha256 (replicate 32 CHR 0x07)) = Some \<lparr>se_Expires = y2000 + 15 * Minute, se_CSRF = b64_encode_raw (replicate 24 CHR 0x07)\<rparr>"
    using boot_register_finish [OF w1(2-5)] by blast
  have routes: "root_pattern (sq_method ?b) (sq_path ?b) = AuthR RegisterBegin" "root_pattern (sq_method ?f) (sq_path ?f) = AuthR RegisterFinish"
    by (simp_all add: boot_request_def Auth_Props.sample_request_def root_pattern_def auth_pattern_def)
  have "\<exists>p. Handler (rn_server boot_running) ?b w0 = (p, w1)" "\<exists>p. Handler (rn_server boot_running) ?f w1 = (p, w2)"
    using w1(1) w2(1) by (simp_all add: Handler_def securityHeaders_def routes sbind_def boot_running_def)
  then obtain p1 p2 where h: "Handler (rn_server boot_running) ?b w0 = (p1, w1)" "Handler (rn_server boot_running) ?f w1 = (p2, w2)" by blast
  have "process_run boot_running w0 (([] @ [(?b, p1)]) @ [(?f, p2)]) w2"
    by (rule process_run.request [OF process_run.request [OF process_run.started h(1)] h(2)])
  moreover have "length (filter auth_request (map fst (([] @ [(?b, p1)]) @ [(?f, p2)]))) = 2" using routes by (simp add: auth_request_def)
  ultimately show ?thesis using w0(1) w2(2-5) by blast
qed

theorem process_changes_traced_witness:
  "\<exists>w0 k tr'. ivpn_main (\<lambda>_ _. Inr sample_webauthn) (\<lambda>_. Inr (\<lambda>_. (0, 0, 0))) False False boot_env boot_world = (Running boot_running, w0) \<and>
     earned boot_manager w0 (tr' :: (auth_route \<times> server_request \<times> page reply) list) k \<and> length tr' = 2"
proof -
  obtain w0 tr w2 where w2: "ivpn_main (\<lambda>_ _. Inr sample_webauthn) (\<lambda>_. Inr (\<lambda>_. (0, 0, 0))) False False boot_env boot_world = (Running boot_running, w0)"
      "process_run boot_running w0 tr w2" "length (filter auth_request (map fst tr)) = 2" "length (entropy w2) = 656" "clock w2 = (\<lambda>_. y2000)" "faults w2 = []"
      "sessions w2 (sha256 (replicate 32 CHR 0x07)) = Some \<lparr>se_Expires = y2000 + 15 * Minute, se_CSRF = b64_encode_raw (replicate 24 CHR 0x07)\<rparr>"
    using boot_registered by blast
  obtain p w' where w': "Handler (rn_server boot_running) sample_stop_request w2 = (p, w')" "service_view w' \<noteq> service_view w2"
    using boot_changes [OF w2(4-7)] by blast
  have m: "sv_auth (rn_server boot_running) = boot_manager" by (simp add: boot_running_def)
  have dev: "TrimSpace (os_Getenv boot_env ''IVPN_DEV_MODE'') \<notin> {''1'', ''t'', ''T'', ''TRUE'', ''true'', ''True''}"
    by (simp add: boot_env_def boot_trims)
  obtain k and tr' :: "(auth_route \<times> server_request \<times> page reply) list" where "earned boot_manager w0 tr' k"
      "map (\<lambda>(_, r, _). r) tr' = filter auth_request (map fst tr)"
    using process_changes_traced [OF w2(1) dev w2(2) w'] by (auto simp: m)
  moreover from this(2) have "length tr' = 2" using w2(3) by (metis length_map)
  ultimately show ?thesis using w2(1) by blast
qed

end
