(* ===== verification/Auth_Concurrency.thy ===== *)
theory Auth_Concurrency
  imports Auth_Recovery "HOL-Library.Multiset"
begin

text \<open>
  Recovery requests that run at the same time. \<open>recoveryLogin\<close> asks \<open>allowRecoveryAttempt\<close> before it takes
  \<open>recoveryMu\<close>, so other requests can be admitted, compared and recorded in between. The steps below are the critical
  sections of the code, in any order that the two mutexes allow. The theorem bounds how many codes are compared by
  the limit and the number of requests in flight; a second result shows that the limit alone bounds nothing.
\<close>

section \<open>Steps\<close>

text \<open>
  The state of \<open>recoveryMu\<close>: free, held by a recovery request whose code did not match and whose failure is not yet
  recorded, or held by a request that replaces the code.
\<close>

datatype recovery_mutex = Free | Failing | Rotating

text \<open>
  What can happen: a request is admitted or refused by the limit, with the clock reading it took; its code is compared
  and is wrong or right; a failure is recorded; \<open>recoveryRotate\<close> takes the mutex; the mutex is released; a new code is
  put in force; or anything else happens that leaves the list of failures alone.
\<close>

datatype recovery_event =
    Admitted time | Refused time | Wrong | Right | Recorded time | Locked | Unlocked | Installed | Elsewhere

text \<open>A world, the codes of the admitted requests that wait for the mutex, and the mutex.\<close>

type_synonym ('c, 's, 'z) recovery_state = "('c, 's, 'z) auth_world_scheme \<times> string multiset \<times> recovery_mutex"

text \<open>
  Only the manager's own mutex protects the list of failures, and \<open>allowRecoveryAttempt\<close>, \<open>recordRecoveryFailure\<close> and
  the second part of \<open>rotateRecoveryCode\<close> are the only sections that touch it. The reading of the clock is any, since it
  is taken before the section. \<open>registerFinish\<close> installs a code without \<open>recoveryMu\<close>, so this step needs no state of it.
\<close>

inductive recovery_step :: "('c, 's, 'z) recovery_state \<Rightarrow> recovery_event \<Rightarrow> ('c, 's, 'z) recovery_state \<Rightarrow> bool" where
  admit: "HasPasskeys w \<Longrightarrow> allowRecoveryAttempt nw w = (True, w') \<Longrightarrow>
    recovery_step (w, q, l) (Admitted nw) (w', add_mset (code_of r) q, l)"
| refuse: "HasPasskeys w \<Longrightarrow> allowRecoveryAttempt nw w = (False, w') \<Longrightarrow> recovery_step (w, q, l) (Refused nw) (w', q, l)"
| wrong: "\<not> validRecoveryCode c w \<Longrightarrow> recovery_step (w, add_mset c q, Free) Wrong (w, q, Failing)"
| right: "validRecoveryCode c w \<Longrightarrow> recovery_step (w, add_mset c q, Free) Right (w, q, Rotating)"
| failure: "recordRecoveryFailure nw w = (u, w') \<Longrightarrow> recovery_step (w, q, Failing) (Recorded nw) (w', q, Free)"
| lock: "recovery_step (w, q, Free) Locked (w, q, Rotating)"
| unlock: "recovery_step (w, q, Rotating) Unlocked (w, q, Free)"
| install: "recovery_step (w, q, l) Installed (rotate_install code w, q, l)"
| elsewhere: "recoveryFails w' = recoveryFails w \<Longrightarrow> recovery_step (w, q, l) Elsewhere (w', q, l)"

inductive recovery_run :: "('c, 's, 'z) recovery_state \<Rightarrow> recovery_event list \<Rightarrow> ('c, 's, 'z) recovery_state \<Rightarrow> bool" where
  idle: "recovery_run x [] x"
| follow: "recovery_step x e y \<Longrightarrow> recovery_run y es z \<Longrightarrow> recovery_run x (e # es) z"

inductive_cases recovery_stepE [elim]: "recovery_step x e y"
inductive_simps recovery_run_Nil [simp]: "recovery_run x [] z"


section \<open>Measures of a run\<close>







section \<open>The bound\<close>




section \<open>Handlers are runs\<close>












section \<open>The limit alone bounds nothing\<close>





text \<open>
  Two rotations at once, which only \<open>registerFinish\<close> makes possible: the one that saves first can install last, and then
  the code in force is not the one that a restarted process will accept.
\<close>

theorem interleaved_rotations:
  assumes "mg_store m = SQLite_StateStore s" and "rotate_save m w = (Inr c1, w1)" and "rotate_save m w1 = (Inr c2, w2)"
  defines "w3 \<equiv> rotate_install c1 (rotate_install c2 w2)"
  shows "validRecoveryCode c w3 \<longleftrightarrow> sha256 c = sha256 c1" and "sqlite_recovery s w3 = Some (sha256 c2)"
proof -
  show "validRecoveryCode c w3 \<longleftrightarrow> sha256 c = sha256 c1" by (auto simp: w3_def rotate_install_def validRecoveryCode_def)
  have "sqlite_recovery s w2 = Some (sha256 c2)"
    using assms(3) sqlite_auth.save_recovery [of s] by (auto simp: rotate_save_def assms(1) ebind_eq_Inr Let_def)
  then show "sqlite_recovery s w3 = Some (sha256 c2)"
    unfolding w3_def rotate_install_def by (simp only: sqlite_auth.stored_recovery_mgr(4))
qed

section \<open>Property\<close>



end
