(* ===== verification/Spec2Isabelle.thy ===== *)
theory Spec2Isabelle
  imports Domain Secure Egress_Broker Service_Props Platform_Nostr Netbroker_Props Control_Plane_Props
    Auth_Concurrency
begin

text \<open>
  A verification development of nomadposting: an operator drafts a post in a web interface, approves the exact
  text, and a dispatcher publishes it to X and to Nostr relays through audited network egress. Everything
  fails closed: live publication and the privileged network changes are switched off in this release.

  \<^bold>\<open>The program and its parts.\<close> Two processes. The control plane (\<open>cmd/ivpn\<close>) reads its configuration, opens the encrypted
  store, and serves the web interface over it; the network broker (\<open>cmd/netbroker\<close>) answers typed requests
  on a Unix socket. The web interface (\<open>internal/web\<close>) checks sessions and CSRF tokens with the authentication manager
  (\<open>internal/auth\<close>) and calls the application service (\<open>internal/app\<close>) and the X OAuth manager (\<open>internal/platform\<close>).
  The service keeps jobs in the SQLite store (\<open>internal/store\<close>) and content sealed in envelopes (\<open>internal/secure\<close>); the job states and the
  approval hash are those of \<open>internal/domain\<close>. The broker resolves endpoints in the registry of \<open>internal/egress\<close>, which the
  health monitor updates and the selector draws leases from. The connectors of \<open>internal/platform\<close> publish.

  \<^bold>\<open>How the code is modelled.\<close> A Go function that may fail and has effects is an \<open>act\<close>: it maps a world to a result (an
  error or a value, \<open>go_error + 'a\<close>) and the world after it; \<open>ebind\<close> is the early return on an error. A world is an
  extensible record: the random source and the clock readings (\<open>Go_Prelude\<close>), the registry (\<open>Egress_Registry\<close>), the database and the
  failures of its engine (\<open>Store\<close>), the pending authorizations (\<open>Platform_XOAuth\<close>), the state of the authentication manager
  (\<open>Auth\<close>), the broker's socket (\<open>Netbroker\<close>). An interface is a record of functions, with a locale
  that states its laws and an interpretation on the implementation of the repository. Names are those of the source, with a prefix
  where two structs share a field name.

  \<^item> \<open>Go_Prelude\<close>: errors (sentinels, \<open>errors.Is\<close>), effects, worlds, and the predicates \<open>keeps\<close> and \<open>preserves\<close> that
    the frame and invariant proofs use.
  \<^item> \<open>Go_Text\<close>, \<open>Go_Time\<close>, \<open>Go_JSON\<close>, \<open>Go_Decode\<close>, \<open>Go_URL\<close>, \<open>Go_Crypto\<close>, \<open>Go_HTTP\<close>, \<open>Go_Fmt\<close>: what the source uses of the standard
    library: UTF-8 and white space, RFC 3339 times, \<open>encoding/json\<close>, \<open>net/url\<close>, SHA-256, AES-GCM and base64, \<open>net/http\<close> requests
    and replies, error texts. Round trips: JSON printing and parsing, times, base64, hexadecimal, sealing.
  \<^item> \<open>Domain\<close> (\<open>domain/types.go\<close>, \<open>state.go\<close>): which job histories the transition table allows, that publication needs approval, that an
    unknown outcome is never resent without reconciliation, and that an approval hash binds content, destinations and schedule.
  \<^item> \<open>Secure\<close> (\<open>secure/envelope.go\<close>): sealing opens to the plaintext, and opening succeeds exactly on authenticated envelopes.
  \<^item> \<open>Egress_Registry\<close> (\<open>types.go\<close>, \<open>catalog.go\<close>, \<open>registry.go\<close>, \<open>health.go\<close>), \<open>Egress_Selector\<close> (\<open>selector.go\<close>), \<open>Egress_Broker\<close>
    (\<open>broker.go\<close>): quarantine as a function of the probe history, sound and complete selection with unbiased indices, and the exact gate in
    front of the namespace executor.
  \<^item> \<open>Store\<close>, \<open>Store_Codec\<close>, \<open>Store_Props\<close> (\<open>store/sqlite.go\<close>): every method over a model of its tables; the database invariant
    through any calls and engine failures, compare-and-set transitions, erasure, purging, sealed rows.
  \<^item> \<open>Service\<close>, \<open>Service_Props\<close> (\<open>app/service.go\<close>): what is released is the previewed and approved payload; the emergency stop blocks;
    drafts read back and can be released. The locale of the store interface is interpreted on the SQLite store.
  \<^item> \<open>Platform\<close> (\<open>contracts.go\<close>, \<open>errors.go\<close>), \<open>Platform_Nostr\<close> (\<open>nostr.go\<close>), \<open>Platform_X\<close> (\<open>x.go\<close>), \<open>Platform_XOAuth\<close>
    (\<open>xoauth.go\<close>): one signed event for three relays and the quorum of what they answered, at most two requests to X and honest receipts, weighted lengths,
    one-time authorization states and the custody of tokens.
  \<^item> \<open>Auth\<close>, \<open>Auth_Props\<close>, \<open>Auth_Frame\<close>, \<open>Auth_Recovery\<close> (\<open>auth/passkeys.go\<close>): every session traces back to a proof of the operator, the life of the
    recovery code, and what the handlers leave alone.
  \<^item> \<open>Auth_Concurrency\<close> (the same file): recovery requests that run at the same time, as a step relation over the critical
    sections of the two mutexes; the bound on guesses in terms of the requests in flight, that the limit alone bounds nothing,
    and two rotations that leave memory and store apart.
  \<^item> \<open>Web\<close>, \<open>Web_Props\<close> (\<open>web/server.go\<close>): the routes, the middleware and every handler; which requests can change what, and
    that the operator is told what became of an action.
  \<^item> \<open>Netbroker\<close>, \<open>Netbroker_Props\<close> (\<open>cmd/netbroker/main.go\<close>): the wire protocol, the service with the deadline of its connections and
    the modes of the process; which requests succeed, the form of the answers, the end of the service.
  \<^item> \<open>Control_Plane\<close>, \<open>Control_Plane_Props\<close> (\<open>cmd/ivpn/main.go\<close>): the configurations that are accepted, the assembly of the
    components, retention; and, over every interleaving of requests and purges from the start of the process, that each change is
    authorised by a session earned in it.

  \<^bold>\<open>Concurrency.\<close> The server runs each request in a goroutine of its own. A method whose body is one critical section is one step,
  and a statement of the database is one step, as SQLite makes it. Calls of the service, of the store and of the managers are
  arbitrary sequences in the theorems, so they may come from any requests; but within such a sequence a call runs to its end
  before the next begins, which the code does not enforce: the pool has four connections, and neither the service nor the
  handlers hold a mutex throughout. Statements on what lies between two calls hold for the orders of whole calls. The recovery
  handlers, where the order of the sections matters for the limit on guesses, are modelled section by section in \<open>Auth_Concurrency\<close>.

  \<^bold>\<open>Bounds and fuel.\<close> The JSON parser takes fuel; \<open>Go_JSON\<close> shows that the fuel given is never exhausted, as every two units
  consume a byte. Rejection sampling stops with an error when the random source ends, and the liveness statements ask for a
  source that is long enough. The loops of the monitor, of the socket service and of retention run over the list of
  what they receive; an exhausted list means that they still wait, and the theorems say when they have returned. Clock readings are an
  arbitrary function, random bytes and engine failures arbitrary lists. Times are integers of nanoseconds; where Go's 64-bit
  arithmetic can wrap in the code (\<open>time.Sub\<close>, the retry delay) the model wraps or saturates as Go does.

  \<^bold>\<open>Parameters.\<close> The WebAuthn library, the transport of HTTP requests, relays, the remote signer, the namespace executor, the prober, the time
  zone database, the Unicode table of printable runes and the operating system are arguments of the definitions. Statements on SHA-256
  speak of collisions, and no strength is assumed of AES-GCM beyond its equations.

  \<^bold>\<open>Not modelled.\<close> The HTML templates, style sheets and browser scripts, which are not Go (the server model ends at the data of a page);
  logging; the wiping of key bytes and constant-time comparison, which have no effect on values; the interleaving of two calls of the
  service or of two handlers outside recovery; path cleaning by the HTTP multiplexer, the HTTP and TLS
  protocols; graceful shutdown; the deployment files, scripts, tests and documentation.
\<close>

end
